(* ===== verification/Prelude.thy ===== *)
theory Prelude
  imports Main "HOL-Library.Word"
begin

text \<open>
  What the components share: the computations of a Go program (a result or an abnormal end,
  with the state passed through), the rules that carry invariants through them, Go's errors,
  and the list and string functions of the Go library that the sources use.

  A Go function that reads or writes shared state is a value of type \<open>('s, 'a) go\<close>: from a
  state it gives an outcome and the next state. The state survives an abnormal end, because
  what was already sent to a device or to the cluster stays sent.
\<close>

named_theorems go_run \<open>how the basic computations run\<close>
named_theorems go_pres \<open>which computations keep an invariant\<close>

section \<open>Go computations\<close>

text \<open>
  A goroutine ends by returning, by a panic that nobody recovers (a nil dereference, an explicit
  \<open>panic\<close>), by \<open>log.Fatal\<close>, or it blocks for ever.
\<close>

datatype abnormal = Panic string | Fatal string | Blocked

datatype 'a outcome = Ret (the_ret: 'a) | Abort abnormal

type_synonym ('s, 'a) go = "'s \<Rightarrow> 'a outcome \<times> 's"

definition ret :: "'a \<Rightarrow> ('s, 'a) go" where
  "ret a s = (Ret a, s)"

definition abort :: "abnormal \<Rightarrow> ('s, 'a) go" where
  "abort x s = (Abort x, s)"

definition gbind :: "('s, 'a) go \<Rightarrow> ('a \<Rightarrow> ('s, 'b) go) \<Rightarrow> ('s, 'b) go" where
  "gbind m f s = (case m s of (Ret a, s') \<Rightarrow> f a s' | (Abort x, s') \<Rightarrow> (Abort x, s'))"

definition gthen :: "('s, 'a) go \<Rightarrow> ('s, 'b) go \<Rightarrow> ('s, 'b) go" where
  "gthen m n = gbind m (\<lambda>_. n)"

definition gets :: "('s \<Rightarrow> 'a) \<Rightarrow> ('s, 'a) go" where
  "gets f s = (Ret (f s), s)"

definition modify :: "('s \<Rightarrow> 's) \<Rightarrow> ('s, unit) go" where
  "modify f s = (Ret (), f s)"

text \<open>The message of the runtime panic that a nil dereference raises.\<close>

definition nil_deref :: "('s, 'a) go" where
  "nil_deref = abort (Panic ''invalid memory address or nil pointer dereference'')"

fun go_each :: "('a \<Rightarrow> ('s, unit) go) \<Rightarrow> 'a list \<Rightarrow> ('s, unit) go" where
  "go_each f [] = ret ()"
| "go_each f (x # xs) = gthen (f x) (go_each f xs)"

lemma ret_run [go_run, simp]: "ret a s = (Ret a, s)"
  by (simp add: ret_def)

lemma abort_run [go_run, simp]: "abort x s = (Abort x, s)"
  by (simp add: abort_def)

lemma gets_run [go_run, simp]: "gets f s = (Ret (f s), s)"
  by (simp add: gets_def)

lemma modify_run [go_run, simp]: "modify f s = (Ret (), f s)"
  by (simp add: modify_def)

lemma nil_deref_run [go_run, simp]:
  "nil_deref s = (Abort (Panic ''invalid memory address or nil pointer dereference''), s)"
  by (simp add: nil_deref_def)

lemma gbind_Ret [go_run]: "m s = (Ret a, s') \<Longrightarrow> gbind m f s = f a s'"
  by (simp add: gbind_def)

lemma gbind_Abort [go_run]: "m s = (Abort x, s') \<Longrightarrow> gbind m f s = (Abort x, s')"
  by (simp add: gbind_def)

lemma gbind_basic [simp]:
  "gbind (ret a) f = f a"
  "gbind (abort x) f = abort x"
  "gbind nil_deref f = nil_deref"
  "gbind (gets g) f s = f (g s) s"
  "gbind (modify h) k s = k () (h s)"
  by (auto simp: gbind_def nil_deref_def fun_eq_iff)

lemma gthen_basic [simp]:
  "gthen (ret a) n = n"
  "gthen (abort x) n = abort x"
  "gthen (modify h) n s = n (h s)"
  by (auto simp: gthen_def)

lemma gbind_assoc: "gbind (gbind m f) g = gbind m (\<lambda>a. gbind (f a) g)"
  by (auto simp: gbind_def fun_eq_iff split: prod.split outcome.split)

lemma gbind_ret_right [simp]: "gbind m ret = m"
  by (auto simp: gbind_def fun_eq_iff split: prod.split outcome.split)

lemma go_each_append: "go_each f (xs @ ys) = gthen (go_each f xs) (go_each f ys)"
  by (induction xs) (simp only: append_Nil go_each.simps gthen_basic, simp add: gthen_def gbind_assoc)

section \<open>Invariants and results of computations\<close>

text \<open>
  \<open>keeps I m\<close>: however \<open>m\<close> ends, it ends in a state of \<open>I\<close> if it started in one.
  \<open>yields P m\<close>: whatever \<open>m\<close> returns satisfies \<open>P\<close>. \<open>returns m s a t\<close>: from \<open>s\<close>, \<open>m\<close> returns
  \<open>a\<close> in state \<open>t\<close>.
\<close>

definition keeps :: "('s \<Rightarrow> bool) \<Rightarrow> ('s, 'a) go \<Rightarrow> bool" where
  "keeps I m \<longleftrightarrow> (\<forall>s. I s \<longrightarrow> I (snd (m s)))"

lemma keepsI: "(\<And>s. I s \<Longrightarrow> I (snd (m s))) \<Longrightarrow> keeps I m"
  by (simp add: keeps_def)

lemma keepsD: "keeps I m \<Longrightarrow> I s \<Longrightarrow> I (snd (m s))"
  by (simp add: keeps_def)

lemma keepsD_eq: "keeps I m \<Longrightarrow> I s \<Longrightarrow> m s = (r, t) \<Longrightarrow> I t"
  by (auto simp: keeps_def dest: spec[where x = s])

lemma keeps_ret [go_pres]: "keeps I (ret a)"
  by (simp add: keeps_def)

lemma keeps_abort [go_pres]: "keeps I (abort x)"
  by (simp add: keeps_def)

lemma keeps_nil_deref [go_pres]: "keeps I nil_deref"
  by (simp add: keeps_def)

lemma keeps_gets [go_pres]: "keeps I (gets f)"
  by (simp add: keeps_def)

lemma keeps_gbind [go_pres]:
  assumes "keeps I m" "\<And>a. keeps I (f a)"
  shows "keeps I (gbind m f)"
proof (rule keepsI)
  fix s assume s: "I s"
  obtain r t where r: "m s = (r, t)" by fastforce
  with assms(1) s have "I t" by (auto intro: keepsD_eq)
  with assms(2) r show "I (snd (gbind m f s))"
    by (cases r) (auto simp: gbind_def keeps_def)
qed

lemma keeps_gthen [go_pres]: "keeps I m \<Longrightarrow> keeps I n \<Longrightarrow> keeps I (gthen m n)"
  by (auto simp: gthen_def intro: keeps_gbind)

lemma keeps_if [go_pres]: "keeps I m \<Longrightarrow> keeps I n \<Longrightarrow> keeps I (if b then m else n)"
  by simp

lemma keeps_option [go_pres]:
  "keeps I m \<Longrightarrow> (\<And>x. keeps I (f x)) \<Longrightarrow> keeps I (case y of None \<Rightarrow> m | Some x \<Rightarrow> f x)"
  by (cases y) auto

lemma keeps_sum [go_pres]:
  "(\<And>x. keeps I (g x)) \<Longrightarrow> (\<And>x. keeps I (f x)) \<Longrightarrow> keeps I (case y of Inl x \<Rightarrow> g x | Inr x \<Rightarrow> f x)"
  by (cases y) auto

lemma keeps_prod [go_pres]:
  "(\<And>a b. keeps I (f a b)) \<Longrightarrow> keeps I (case p of (a, b) \<Rightarrow> f a b)"
  by (cases p) auto

lemma keeps_let [go_pres]: "(\<And>x. keeps I (f x)) \<Longrightarrow> keeps I (let x = v in f x)"
  by simp

lemma keeps_go_each [go_pres]: "(\<And>x. keeps I (f x)) \<Longrightarrow> keeps I (go_each f xs)"
  by (induction xs) (auto intro: go_pres)

lemma keeps_modify [go_pres]: "(\<And>s. I s \<Longrightarrow> I (f s)) \<Longrightarrow> keeps I (modify f)"
  by (simp add: keeps_def)

lemma gbind_RetE:
  assumes "gbind m f s = (Ret b, t)"
  obtains a u where "m s = (Ret a, u)" "f a u = (Ret b, t)"
  using assms by (auto simp: gbind_def split: prod.splits outcome.splits)

lemma gthen_RetE:
  assumes "gthen m n s = (Ret b, t)"
  obtains a u where "m s = (Ret a, u)" "n u = (Ret b, t)"
  using assms unfolding gthen_def by (rule gbind_RetE)

section \<open>Errors\<close>

text \<open>
  A Go error: one the sources build themselves, or one the API client reports. \<open>IsNotFound\<close>
  of \<open>apierrors\<close> tells the client's not-found error from the others. A nil error is \<open>None\<close>.
\<close>

datatype gerror = GoError (Error: string) | NotFound (Error: string) | APIError (Error: string)

fun IsNotFound :: "gerror \<Rightarrow> bool" where
  "IsNotFound (NotFound m) = True"
| "IsNotFound _ = False"

section \<open>Strings and lists of the Go library\<close>

text \<open>\<open>strings.HasPrefix\<close>, \<open>bytes.Index\<close> (\<open>None\<close> for -1) and \<open>strings.Contains\<close>.\<close>

fun HasPrefix :: "'a list \<Rightarrow> 'a list \<Rightarrow> bool" where
  "HasPrefix s [] = True"
| "HasPrefix [] (p # ps) = False"
| "HasPrefix (c # s) (p # ps) = (c = p \<and> HasPrefix s ps)"

fun Index :: "'a list \<Rightarrow> 'a list \<Rightarrow> nat option" where
  "Index [] sep = (if sep = [] then Some 0 else None)"
| "Index (c # s) sep = (if HasPrefix (c # s) sep then Some 0 else map_option Suc (Index s sep))"

definition Contains :: "'a list \<Rightarrow> 'a list \<Rightarrow> bool" where
  "Contains s sep \<longleftrightarrow> Index s sep \<noteq> None"

lemma HasPrefix_iff: "HasPrefix s p \<longleftrightarrow> (\<exists>r. s = p @ r)"
  by (induction s p rule: HasPrefix.induct) auto

lemma HasPrefix_take: "HasPrefix s p \<longleftrightarrow> take (length p) s = p"
  by (induction s p rule: HasPrefix.induct) auto

lemma HasPrefix_append [simp]: "HasPrefix (p @ r) p"
  by (auto simp: HasPrefix_iff)

lemma Index_Some_iff:
  "Index s sep = Some i \<longleftrightarrow>
     (i \<le> length s \<and> HasPrefix (drop i s) sep \<and> (\<forall>j<i. \<not> HasPrefix (drop j s) sep))"
proof (induction s arbitrary: i)
  case Nil
  then show ?case by (cases sep) auto
next
  case (Cons c s)
  show ?case
  proof (cases "HasPrefix (c # s) sep")
    case True
    then show ?thesis by (cases i) auto
  next
    case False
    then show ?thesis
      by (cases i) (auto simp: Cons.IH less_Suc_eq_0_disj)
  qed
qed

lemma Index_None_iff: "Index s sep = None \<longleftrightarrow> (\<forall>i\<le>length s. \<not> HasPrefix (drop i s) sep)"
proof (induction s)
  case Nil
  then show ?case by (cases sep) auto
next
  case (Cons c s)
  show ?case
  proof
    assume *: "Index (c # s) sep = None"
    show "\<forall>i\<le>length (c # s). \<not> HasPrefix (drop i (c # s)) sep"
    proof (intro allI impI)
      fix i assume "i \<le> length (c # s)"
      with * Cons.IH show "\<not> HasPrefix (drop i (c # s)) sep"
        by (cases i) (auto split: if_splits)
    qed
  next
    assume *: "\<forall>i\<le>length (c # s). \<not> HasPrefix (drop i (c # s)) sep"
    have "\<not> HasPrefix (c # s) sep" using *[rule_format, of 0] by simp
    moreover have "\<not> HasPrefix (drop i s) sep" if "i \<le> length s" for i
      using *[rule_format, of "Suc i"] that by simp
    ultimately show "Index (c # s) sep = None" using Cons.IH by auto
  qed
qed

lemma Contains_iff: "Contains s sep \<longleftrightarrow> (\<exists>a b. s = a @ sep @ b)"
proof
  assume "Contains s sep"
  then obtain i where "HasPrefix (drop i s) sep"
    by (auto simp: Contains_def Index_Some_iff)
  then show "\<exists>a b. s = a @ sep @ b"
    by (metis HasPrefix_iff append_take_drop_id)
next
  assume "\<exists>a b. s = a @ sep @ b"
  then obtain a b where "s = a @ sep @ b" by blast
  then have "length a \<le> length s" and "HasPrefix (drop (length a) s) sep" by auto
  then show "Contains s sep" by (auto simp: Contains_def Index_None_iff)
qed

lemma split_at_unique:
  assumes "a @ c # b = a' @ c # b'" "c \<notin> set a" "c \<notin> set a'"
  shows "a = a' \<and> b = b'"
  using assms
proof (induction a arbitrary: a')
  case Nil
  then show ?case by (cases a') auto
next
  case (Cons x a)
  then show ?case by (cases a') auto
qed

end
