(* ===== verification/Api_Types.thy ===== *)
theory Api_Types
  imports Prelude
begin

text \<open>
  The custom resources of \<open>api/v1\<close>. Every kind has the same outer struct (type and object
  metadata, a \<open>Spec\<close> of its own, and the embedded \<open>RPCStatus\<close>), so a resource is a record that
  is polymorphic in its spec. Field names carry a prefix because HOL record fields share one name
  space. A 32-bit \<open>Timeout\<close> is a word of that width. The metadata has the fields of \<open>ObjectMeta\<close>
  that the operator reads or writes; a time is the distance from Go's zero time.
\<close>

section \<open>Names and metadata\<close>

record NamespacedName =
  nn_Namespace :: string
  nn_Name :: string

text \<open>\<open>types.NamespacedName.String\<close>: the key of the session table.\<close>

definition NamespacedName_String :: "NamespacedName \<Rightarrow> string" where
  "NamespacedName_String n = nn_Namespace n @ ''/'' @ nn_Name n"

record ObjectMeta =
  om_Name :: string
  om_Namespace :: string
  om_Generation :: int
  om_Finalizers :: "string list"
  om_DeletionTimestamp :: "int option"

record Condition =
  co_Type :: string
  co_Status :: string
  co_ObservedGeneration :: int
  co_LastTransitionTime :: int
  co_Reason :: string
  co_Message :: string

section \<open>common\_types.go\<close>

record DependsOn =
  dep_Kind :: string
  dep_Name :: string

definition IsNil :: "DependsOn \<Rightarrow> bool" where
  "IsNil d \<longleftrightarrow> length (dep_Kind d) = 0 \<or> length (dep_Name d) = 0"

record KafkaSink =
  ks_Enabled :: bool
  ks_Topic :: string
  ks_TransportType :: string
  ks_Broker :: string
  ks_Partition :: int

record RPCStatus =
  st_Conditions :: "Condition list"
  st_Status :: string
  st_RpcReply :: string
  st_Capabilities :: "string list"
  st_SubscriptionID :: string

definition GetConditions :: "RPCStatus \<Rightarrow> Condition list" where
  "GetConditions obj = st_Conditions obj"

definition SetConditions :: "Condition list \<Rightarrow> RPCStatus \<Rightarrow> RPCStatus" where
  "SetConditions reconcileStatus obj = obj\<lparr>st_Conditions := reconcileStatus\<rparr>"

section \<open>Resources\<close>

record 'spec cr =
  cr_Meta :: ObjectMeta
  cr_Spec :: 'spec
  cr_RPCStatus :: RPCStatus

text \<open>
  \<open>GetMountPointNamespacedName\<close> and \<open>GetNamespacedName\<close>, which every kind repeats word for word.
\<close>

definition GetMountPointNamespacedName :: "'spec cr \<Rightarrow> string \<Rightarrow> string" where
  "GetMountPointNamespacedName obj mountpoint =
     NamespacedName_String \<lparr>nn_Namespace = om_Namespace (cr_Meta obj), nn_Name = mountpoint\<rparr>"

definition GetNamespacedName :: "'spec cr \<Rightarrow> string" where
  "GetNamespacedName obj =
     NamespacedName_String
       \<lparr>nn_Namespace = om_Namespace (cr_Meta obj), nn_Name = om_Name (cr_Meta obj)\<rparr>"

text \<open>Assignments to the promoted fields of the embedded status, as in \<open>obj.Status = "failed"\<close>.\<close>

abbreviation set_Status :: "string \<Rightarrow> 'spec cr \<Rightarrow> 'spec cr" where
  "set_Status v obj \<equiv> obj\<lparr>cr_RPCStatus := (cr_RPCStatus obj)\<lparr>st_Status := v\<rparr>\<rparr>"

abbreviation set_RpcReply :: "string \<Rightarrow> 'spec cr \<Rightarrow> 'spec cr" where
  "set_RpcReply v obj \<equiv> obj\<lparr>cr_RPCStatus := (cr_RPCStatus obj)\<lparr>st_RpcReply := v\<rparr>\<rparr>"

abbreviation set_Capabilities :: "string list \<Rightarrow> 'spec cr \<Rightarrow> 'spec cr" where
  "set_Capabilities v obj \<equiv> obj\<lparr>cr_RPCStatus := (cr_RPCStatus obj)\<lparr>st_Capabilities := v\<rparr>\<rparr>"

abbreviation set_SubscriptionID :: "string \<Rightarrow> 'spec cr \<Rightarrow> 'spec cr" where
  "set_SubscriptionID v obj \<equiv> obj\<lparr>cr_RPCStatus := (cr_RPCStatus obj)\<lparr>st_SubscriptionID := v\<rparr>\<rparr>"

abbreviation set_Finalizers :: "string list \<Rightarrow> 'spec cr \<Rightarrow> 'spec cr" where
  "set_Finalizers v obj \<equiv> obj\<lparr>cr_Meta := (cr_Meta obj)\<lparr>om_Finalizers := v\<rparr>\<rparr>"

text \<open>The zero value of a freshly allocated resource, \<open>&Kind{}\<close>.\<close>

definition zero_Meta :: ObjectMeta where
  "zero_Meta = \<lparr>om_Name = [], om_Namespace = [], om_Generation = 0, om_Finalizers = [],
     om_DeletionTimestamp = None\<rparr>"

definition zero_RPCStatus :: RPCStatus where
  "zero_RPCStatus = \<lparr>st_Conditions = [], st_Status = [], st_RpcReply = [], st_Capabilities = [],
     st_SubscriptionID = []\<rparr>"

definition zero_cr :: "'spec \<Rightarrow> 'spec cr" where
  "zero_cr spec = \<lparr>cr_Meta = zero_Meta, cr_Spec = spec, cr_RPCStatus = zero_RPCStatus\<rparr>"

definition zero_DependsOn :: DependsOn where
  "zero_DependsOn = \<lparr>dep_Kind = [], dep_Name = []\<rparr>"

definition zero_KafkaSink :: KafkaSink where
  "zero_KafkaSink = \<lparr>ks_Enabled = False, ks_Topic = [], ks_TransportType = [], ks_Broker = [],
     ks_Partition = 0\<rparr>"

section \<open>The ten kinds\<close>

record MountPointSpec =
  mp_Target :: string
  mp_Username :: string
  mp_Password :: string
  mp_Timeout :: "32 word"
  mp_AdditionalCapabilities :: "string list"

type_synonym MountPoint = "MountPointSpec cr"

record LockSpec =
  lk_MountPoint :: string
  lk_Timeout :: "32 word"
  lk_Target :: string

type_synonym Lock = "LockSpec cr"

record UnlockSpec =
  ul_MountPoint :: string
  ul_Timeout :: "32 word"
  ul_Target :: string
  ul_DependsOn :: DependsOn

type_synonym Unlock = "UnlockSpec cr"

record CommitSpec =
  cm_MountPoint :: string
  cm_Timeout :: "32 word"
  cm_DependsOn :: DependsOn

type_synonym Commit = "CommitSpec cr"

record EditConfigSpec =
  ec_MountPoint :: string
  ec_Timeout :: "32 word"
  ec_Operation :: string
  ec_Target :: string
  ec_XML :: string
  ec_DependsOn :: DependsOn
  ec_Lock :: bool
  ec_Commit :: bool
  ec_Unlock :: bool

type_synonym EditConfig = "EditConfigSpec cr"

record GetSpec =
  gt_MountPoint :: string
  gt_Timeout :: "32 word"
  gt_FilterType :: string
  gt_FilterXML :: string

type_synonym Get = "GetSpec cr"

record GetConfigSpec =
  gc_MountPoint :: string
  gc_Timeout :: "32 word"
  gc_Target :: string

type_synonym GetConfig = "GetConfigSpec cr"

record RPCSpec =
  rp_MountPoint :: string
  rp_Timeout :: "32 word"
  rp_XML :: string

type_synonym RPC = "RPCSpec cr"

record CreateSubscriptionSpec =
  cs_MountPoint :: string
  cs_Timeout :: "32 word"
  cs_Stream :: string
  cs_StartTime :: string
  cs_StopTime :: string
  cs_KafkaSink :: KafkaSink

type_synonym CreateSubscription = "CreateSubscriptionSpec cr"

record EstablishSubscriptionSpec =
  es_MountPoint :: string
  es_Timeout :: "32 word"
  es_XML :: string
  es_KafkaSink :: KafkaSink

type_synonym EstablishSubscription = "EstablishSubscriptionSpec cr"

definition zero_MountPoint :: MountPoint where
  "zero_MountPoint = zero_cr \<lparr>mp_Target = [], mp_Username = [], mp_Password = [], mp_Timeout = 0,
     mp_AdditionalCapabilities = []\<rparr>"

definition zero_Lock :: Lock where
  "zero_Lock = zero_cr \<lparr>lk_MountPoint = [], lk_Timeout = 0, lk_Target = []\<rparr>"

definition zero_Unlock :: Unlock where
  "zero_Unlock = zero_cr \<lparr>ul_MountPoint = [], ul_Timeout = 0, ul_Target = [],
     ul_DependsOn = zero_DependsOn\<rparr>"

definition zero_Commit :: Commit where
  "zero_Commit = zero_cr \<lparr>cm_MountPoint = [], cm_Timeout = 0, cm_DependsOn = zero_DependsOn\<rparr>"

definition zero_EditConfig :: EditConfig where
  "zero_EditConfig = zero_cr \<lparr>ec_MountPoint = [], ec_Timeout = 0, ec_Operation = [], ec_Target = [],
     ec_XML = [], ec_DependsOn = zero_DependsOn, ec_Lock = False, ec_Commit = False,
     ec_Unlock = False\<rparr>"

definition zero_Get :: Get where
  "zero_Get = zero_cr \<lparr>gt_MountPoint = [], gt_Timeout = 0, gt_FilterType = [], gt_FilterXML = []\<rparr>"

definition zero_GetConfig :: GetConfig where
  "zero_GetConfig = zero_cr \<lparr>gc_MountPoint = [], gc_Timeout = 0, gc_Target = []\<rparr>"

definition zero_RPC :: RPC where
  "zero_RPC = zero_cr \<lparr>rp_MountPoint = [], rp_Timeout = 0, rp_XML = []\<rparr>"

definition zero_CreateSubscription :: CreateSubscription where
  "zero_CreateSubscription = zero_cr \<lparr>cs_MountPoint = [], cs_Timeout = 0, cs_Stream = [],
     cs_StartTime = [], cs_StopTime = [], cs_KafkaSink = zero_KafkaSink\<rparr>"

definition zero_EstablishSubscription :: EstablishSubscription where
  "zero_EstablishSubscription = zero_cr \<lparr>es_MountPoint = [], es_Timeout = 0, es_XML = [],
     es_KafkaSink = zero_KafkaSink\<rparr>"

section \<open>The session key\<close>

lemma NamespacedName_String_inject:
  assumes "NamespacedName_String m = NamespacedName_String n"
    and "CHR ''/'' \<notin> set (nn_Namespace m)" "CHR ''/'' \<notin> set (nn_Namespace n)"
  shows "m = n"
proof -
  have "nn_Namespace m = nn_Namespace n \<and> nn_Name m = nn_Name n"
    using assms split_at_unique[of "nn_Namespace m" "CHR ''/''" "nn_Name m"]
    by (auto simp: NamespacedName_String_def)
  then show ?thesis by (cases m, cases n) auto
qed

lemma GetMountPointNamespacedName_inject:
  assumes "GetMountPointNamespacedName x a = GetMountPointNamespacedName y b"
    and "CHR ''/'' \<notin> set (om_Namespace (cr_Meta x))" "CHR ''/'' \<notin> set (om_Namespace (cr_Meta y))"
  shows "om_Namespace (cr_Meta x) = om_Namespace (cr_Meta y) \<and> a = b"
  using NamespacedName_String_inject[OF assms(1)[unfolded GetMountPointNamespacedName_def]] assms(2,3)
  by simp

end
