(* ===== verification/Wire_Types.thy ===== *)
theory Wire_Types
  imports Api_Types
begin

text \<open>
  The structs of the NETCONF client's \<open>netconf/message\<close> package: what is marshalled into a request
  and what a reply or a notification is unmarshalled into. The embedded \<open>RPC\<close> struct contributes
  its message identifier to every request. A nil slice of errors and an empty one are the same
  value here: \<open>xml.Unmarshal\<close> leaves the slice nil exactly when there is no \<open>rpc-error\<close> element.
\<close>

definition FilterTypeSubtree :: string where "FilterTypeSubtree = ''subtree''"
definition DatastoreRunning :: string where "DatastoreRunning = ''running''"
definition DatastoreCandidate :: string where "DatastoreCandidate = ''candidate''"
definition NetconfVersion10 :: string where "NetconfVersion10 = ''urn:ietf:params:netconf:base:1.0''"
definition NetconfVersion11 :: string where "NetconfVersion11 = ''urn:ietf:params:netconf:base:1.1''"

definition NetconfNotificationXmlns :: string where
  "NetconfNotificationXmlns = ''urn:ietf:params:xml:ns:netconf:notification:1.0''"

definition NetconfNotificationStreamHandler :: string where
  "NetconfNotificationStreamHandler = ''DEFAULT_NOTIFICATION_STREAM''"

record Filter =
  fl_Type :: string
  fl_Data :: string

text \<open>A datastore element: an interface field is \<open>None\<close> when nil, and then it is omitted.\<close>

record Datastore =
  ds_Candidate :: "string option"
  ds_Running :: "string option"

record CreateSubscriptionData =
  sd_XMLNS :: string
  sd_Stream :: string
  sd_StartTime :: string
  sd_StopTime :: string

text \<open>The requests: each carries the message identifier of the embedded \<open>RPC\<close> struct.\<close>

datatype RPCMethod =
    MRPC (GetMessageID: string) (rpc_Data: string)
  | MGet (GetMessageID: string) (get_Get: "string option") (get_Filter: "Filter option")
  | MGetConfig (GetMessageID: string) (gcf_Source: "Datastore option") (gcf_Filter: "Filter option")
  | MLock (GetMessageID: string) (lock_Target: "Datastore option")
  | MUnlock (GetMessageID: string) (unlock_Target: "Datastore option")
  | MCommit (GetMessageID: string) (commit_Commit: string)
  | MEditConfig (GetMessageID: string) (edit_Target: "Datastore option") (edit_DefaultOperation: string)
      (edit_Config: string)
  | MCloseSession (GetMessageID: string) (close_CloseSession: string)
  | MKillSession (GetMessageID: string) (kill_SessionID: string)
  | MCreateSubscription (GetMessageID: string) (cres_Subscription: CreateSubscriptionData)
  | MEstablishSubscription (GetMessageID: string) (ests_Data: string)
  | MValidate (GetMessageID: string) (validate_Source: "Datastore option")

record Hello =
  he_Capabilities :: "string list"
  he_SessionID :: int

record RPCError =
  er_Type :: string
  er_Tag :: string
  er_Severity :: string
  er_Path :: string
  er_Message :: string
  er_Info :: string

record RPCReply =
  re_MessageID :: string
  re_Errors :: "RPCError list"
  re_Data :: string
  re_Ok :: bool
  re_RawReply :: string
  re_SubscriptionID :: string

record Notification =
  no_EventTime :: string
  no_EventData :: string
  no_SubscriptionIDCisco :: string
  no_SubscriptionID :: string
  no_RawReply :: string
  no_Data :: string

definition GetSubscriptionID :: "Notification \<Rightarrow> string" where
  "GetSubscriptionID notification =
     (if no_SubscriptionID notification \<noteq> [] then no_SubscriptionID notification
      else if no_SubscriptionIDCisco notification \<noteq> [] then no_SubscriptionIDCisco notification
      else [])"

lemma GetSubscriptionID_empty_iff:
  "GetSubscriptionID n = [] \<longleftrightarrow> no_SubscriptionID n = [] \<and> no_SubscriptionIDCisco n = []"
  by (simp add: GetSubscriptionID_def)

end
