(* ===== verification/Dispatcher.thy ===== *)
theory Dispatcher
  imports Prelude
begin

text \<open>
  The callback table of the NETCONF client (\<open>netconf/events.go\<close>): a map from event identifiers to
  callbacks, with the event types. The table is polymorphic in the callbacks; running a callback is
  part of the session model. The interface its clients rely on is the locale \<open>callback_table\<close>.
\<close>

record 'cb Dispatcher =
  callbacks :: "string \<rightharpoonup> 'cb"

definition Dispatcher_init :: "'cb Dispatcher" where
  "Dispatcher_init = \<lparr>callbacks = Map.empty\<rparr>"

definition Register :: "string \<Rightarrow> 'cb \<Rightarrow> 'cb Dispatcher \<Rightarrow> 'cb Dispatcher" where
  "Register eventID callback d = d\<lparr>callbacks := (callbacks d)(eventID \<mapsto> callback)\<rparr>"

definition Remove :: "string \<Rightarrow> 'cb Dispatcher \<Rightarrow> 'cb Dispatcher" where
  "Remove eventID d = d\<lparr>callbacks := (callbacks d)(eventID := None)\<rparr>"

definition eventTypeStrings :: "string list" where
  "eventTypeStrings = [''rpc-reply'', ''notification'']"

text \<open>\<open>EventType.String\<close> indexes a two-element array: any other value is an index panic.\<close>

definition EventType_String :: "nat \<Rightarrow> ('s, string) go" where
  "EventType_String t =
     (if t < length eventTypeStrings then ret (eventTypeStrings ! t)
      else abort (Panic ''index out of range''))"

lemma EventType_String_simps [simp]:
  "EventType_String 0 = ret ''rpc-reply''"
  "EventType_String (Suc 0) = ret ''notification''"
  by (simp_all add: EventType_String_def eventTypeStrings_def)

section \<open>The interface\<close>

text \<open>
  What a client of the table relies on: a lookup finds the last callback registered under the
  identifier, and nothing after a removal; other identifiers are not touched.
\<close>

locale callback_table =
  fixes empty :: "'t"
    and register :: "string \<Rightarrow> 'cb \<Rightarrow> 't \<Rightarrow> 't"
    and remove :: "string \<Rightarrow> 't \<Rightarrow> 't"
    and lookup :: "'t \<Rightarrow> string \<rightharpoonup> 'cb"
  assumes lookup_empty: "lookup empty = Map.empty"
    and lookup_register: "lookup (register i c t) = (lookup t)(i \<mapsto> c)"
    and lookup_remove: "lookup (remove i t) = (lookup t)(i := None)"
begin

lemma lookup_register_same: "lookup (register i c t) i = Some c"
  by (simp add: lookup_register)

lemma lookup_register_other: "j \<noteq> i \<Longrightarrow> lookup (register i c t) j = lookup t j"
  by (simp add: lookup_register)

lemma lookup_remove_same: "lookup (remove i t) i = None"
  by (simp add: lookup_remove)

lemma lookup_remove_other: "j \<noteq> i \<Longrightarrow> lookup (remove i t) j = lookup t j"
  by (simp add: lookup_remove)

lemma remove_register: "lookup (remove i (register i c t)) = lookup (remove i t)"
  by (simp add: lookup_register lookup_remove)

lemma registers_commute:
  "i \<noteq> j \<Longrightarrow> lookup (register i c (register j d t)) = lookup (register j d (register i c t))"
  by (auto simp: lookup_register fun_eq_iff)

lemma fold_register_lookup:
  "distinct (map fst xs) \<Longrightarrow>
   lookup (fold (\<lambda>(i, c). register i c) xs t) j =
     (case map_of xs j of None \<Rightarrow> lookup t j | Some c \<Rightarrow> Some c)"
proof (induction xs arbitrary: t)
  case Nil
  then show ?case by simp
next
  case (Cons x xs)
  obtain i c where x: "x = (i, c)" by fastforce
  have i: "map_of xs i = None" using Cons.prems x by (simp add: map_of_eq_None_iff)
  show ?case
    using Cons.IH[of "register i c t"] Cons.prems i x
    by (auto simp: lookup_register split: option.split)
qed

end

interpretation disp: callback_table Dispatcher_init Register Remove callbacks
  by unfold_locales (auto simp: Dispatcher_init_def Register_def Remove_def)

lemmas Dispatcher_lookup [simp] = disp.lookup_empty disp.lookup_register disp.lookup_remove

end
