(* ===== verification/World.thy ===== *)
theory World
  imports Wire_Types Dispatcher
begin

text \<open>
  The state of the running operator and the world it talks to.

  Code and services that are not the program (the Kubernetes API server, SSH and TCP, Kafka, the
  XML package, the random source, the clock) are parameters: a record \<open>'w env\<close> of functions over an
  abstract world \<open>'w\<close>. Everything below is defined for any such record, and a theorem that needs
  one of them to behave says so in a hypothesis.

  The operator's own memory is the record \<open>'w ostate\<close>: the global \<open>Sessions\<close> table of
  \<open>controllers/common.go\<close> holds references to session objects, which live in \<open>heap\<close>, so a session
  reached from the table and from a running listener is one object. \<open>trace\<close> lists what the program
  has sent out (bytes written to a device, Kubernetes events, Kafka messages), oldest first.
\<close>

type_synonym handle = nat
type_synonym sref = nat

section \<open>Network, SSH and Kafka\<close>

text \<open>One result of a \<open>Read\<close> on a connection.\<close>

datatype read = ReadData string | ReadEOF | ReadErr gerror

record ClientConfig =
  cc_User :: string
  cc_Auth :: "string list"
  cc_InsecureIgnoreHostKey :: bool

section \<open>Callbacks, sessions and transports\<close>

text \<open>
  The closures the program registers, with what they capture: the reply channel of one \<open>SyncRPC\<close>
  call, or the resource (and the event recorder) of a subscription.
\<close>

datatype callback =
    CbReply nat
  | CbCreateSubscription string CreateSubscription
  | CbEstablishSubscription string EstablishSubscription

datatype event_value = ReplyValue RPCReply | NotificationValue Notification

record event =
  ev_eventID :: string
  ev_value :: event_value

definition event_RPCReply :: "event \<Rightarrow> RPCReply option" where
  "event_RPCReply e = (case ev_value e of ReplyValue r \<Rightarrow> Some r | _ \<Rightarrow> None)"

definition event_Notification :: "event \<Rightarrow> Notification option" where
  "event_Notification e = (case ev_value e of NotificationValue n \<Rightarrow> Some n | _ \<Rightarrow> None)"

record Transport =
  tp_version :: string
  tp_sshClient :: "handle option"
  tp_sshSession :: "handle option"
  tp_ReadWriteCloser :: "handle option"

text \<open>
  A session object. The last three fields are the local state of its listener goroutine: whether it
  runs, and the bytes that a \<open>Receive\<close> in progress has put aside and holds in its window.
\<close>

record Session =
  se_Transport :: Transport
  se_SessionID :: int
  se_Capabilities :: "string list"
  se_IsClosed :: bool
  se_Listener :: "callback Dispatcher"
  se_IsNotificationStreamCreated :: bool
  se_listening :: bool
  se_rx_out :: string
  se_rx_win :: string

section \<open>The operator's state\<close>

datatype effect =
    Sent handle string
  | Event string string string string string string
    \<comment> \<open>recorder, namespace and name of the object, type, reason, message\<close>
  | KafkaMessage KafkaSink string

record 'w ostate =
  Sessions :: "string \<rightharpoonup> sref"
  heap :: "sref \<rightharpoonup> Session"
  next_sref :: sref
  chans :: "nat \<rightharpoonup> RPCReply"
  next_chan :: nat
  trace :: "effect list"
  world :: 'w

type_synonym ('w, 'a) op = "('w ostate, 'a) go"

section \<open>The world's functions\<close>

text \<open>The API client for one kind, as \<open>client.Get\<close>, \<open>client.Update\<close> and \<open>client.Status().Update\<close>.\<close>

record ('w, 'spec) client =
  k_Get :: "NamespacedName \<Rightarrow> 'w \<Rightarrow> (gerror + 'spec cr) \<times> 'w"
  k_Update :: "'spec cr \<Rightarrow> 'w \<Rightarrow> gerror option \<times> 'w"
  k_StatusUpdate :: "'spec cr \<Rightarrow> 'w \<Rightarrow> gerror option \<times> 'w"

record 'w env =
  \<comment> \<open>\<open>encoding/xml\<close>\<close>
  xml_Marshal :: "RPCMethod \<Rightarrow> gerror + string"
  xml_Marshal_Hello :: "Hello \<Rightarrow> gerror + string"
  xml_Unmarshal_Hello :: "string \<Rightarrow> Hello \<times> gerror option"
  xml_Unmarshal_RPCReply :: "string \<Rightarrow> gerror + RPCReply"
  xml_Unmarshal_Notification :: "string \<Rightarrow> gerror + Notification"
  xml_Unmarshal_any :: "string \<Rightarrow> gerror option"
  \<comment> \<open>\<open>fmt.Sprintf\<close> with a format and no operands\<close>
  fmt_Sprintf :: "string \<Rightarrow> string"
  \<comment> \<open>\<open>crypto/rand\<close> and the clock\<close>
  rand_Read :: "nat \<Rightarrow> 'w \<Rightarrow> 8 word list \<times> 'w"
  metav1_Now :: "'w \<Rightarrow> int \<times> 'w"
  \<comment> \<open>SSH, TCP and the byte streams of a session\<close>
  ssh_Dial :: "string \<Rightarrow> string \<Rightarrow> ClientConfig \<Rightarrow> 'w \<Rightarrow> (gerror + handle) \<times> 'w"
  net_DialTimeout :: "string \<Rightarrow> string \<Rightarrow> 64 word \<Rightarrow> 'w \<Rightarrow> (gerror + handle) \<times> 'w"
  ssh_NewClientConn :: "handle \<Rightarrow> ClientConfig \<Rightarrow> 'w \<Rightarrow> (gerror + handle) \<times> 'w"
  ssh_NewSession :: "handle \<Rightarrow> 'w \<Rightarrow> (gerror + handle) \<times> 'w"
  ssh_StdinPipe :: "handle \<Rightarrow> 'w \<Rightarrow> gerror option \<times> 'w"
  ssh_StdoutPipe :: "handle \<Rightarrow> 'w \<Rightarrow> gerror option \<times> 'w"
  ssh_RequestSubsystem :: "handle \<Rightarrow> string \<Rightarrow> 'w \<Rightarrow> gerror option \<times> 'w"
  ssh_Session_Close :: "handle \<Rightarrow> 'w \<Rightarrow> gerror option \<times> 'w"
  ssh_Client_Close :: "handle \<Rightarrow> 'w \<Rightarrow> gerror option \<times> 'w"
  conn_Write :: "handle \<Rightarrow> string \<Rightarrow> 'w \<Rightarrow> gerror option \<times> 'w"
  conn_Reads :: "handle \<Rightarrow> 'w \<Rightarrow> read list \<times> 'w"
    \<comment> \<open>the results of the reads that one blocking \<open>Receive\<close> makes\<close>
  wait_Reads :: "handle \<Rightarrow> 64 word \<Rightarrow> 'w \<Rightarrow> read list \<times> 'w"
    \<comment> \<open>the results of the listener's reads while a caller waits at most so long\<close>
  \<comment> \<open>Kafka\<close>
  kafka_DialLeader :: "string \<Rightarrow> string \<Rightarrow> string \<Rightarrow> int \<Rightarrow> 'w \<Rightarrow> (gerror + handle) \<times> 'w"
  kafka_SetWriteDeadline :: "handle \<Rightarrow> 64 word \<Rightarrow> 'w \<Rightarrow> gerror option \<times> 'w"
  kafka_WriteMessages :: "handle \<Rightarrow> string \<Rightarrow> 'w \<Rightarrow> gerror option \<times> 'w"
  kafka_Close :: "handle \<Rightarrow> 'w \<Rightarrow> gerror option \<times> 'w"
  \<comment> \<open>the API server\<close>
  mountpoints :: "('w, MountPointSpec) client"
  locks :: "('w, LockSpec) client"
  unlocks :: "('w, UnlockSpec) client"
  commits :: "('w, CommitSpec) client"
  editconfigs :: "('w, EditConfigSpec) client"
  gets_client :: "('w, GetSpec) client"
  getconfigs :: "('w, GetConfigSpec) client"
  rpcs :: "('w, RPCSpec) client"
  createsubscriptions :: "('w, CreateSubscriptionSpec) client"
  establishsubscriptions :: "('w, EstablishSubscriptionSpec) client"

section \<open>Primitive steps\<close>

text \<open>A call of one of the world's functions, and an entry of the trace.\<close>

definition ext :: "('w \<Rightarrow> 'a \<times> 'w) \<Rightarrow> ('w, 'a) op" where
  "ext f s = (let (a, w) = f (world s) in (Ret a, s\<lparr>world := w\<rparr>))"

definition emit :: "effect \<Rightarrow> ('w, unit) op" where
  "emit x = modify (\<lambda>s. s\<lparr>trace := trace s @ [x]\<rparr>)"

lemma ext_run [go_run]: "f (world s) = (a, w) \<Longrightarrow> ext f s = (Ret a, s\<lparr>world := w\<rparr>)"
  by (simp add: ext_def)

lemma ext_Ret: "\<exists>a w. ext f s = (Ret a, s\<lparr>world := w\<rparr>) \<and> f (world s) = (a, w)"
  by (simp add: ext_def split: prod.split)

lemma gbind_ext [simp]:
  "gbind (ext f) k s = (case f (world s) of (a, w) \<Rightarrow> k a (s\<lparr>world := w\<rparr>))"
  by (simp add: gbind_def ext_def split: prod.split)

lemma keeps_ext [go_pres]: "(\<And>s w. I s \<Longrightarrow> I (s\<lparr>world := w\<rparr>)) \<Longrightarrow> keeps I (ext f)"
  by (auto simp: keeps_def ext_def split: prod.split)

lemma keeps_emit [go_pres]:
  "(\<And>s. I s \<Longrightarrow> I (s\<lparr>trace := trace s @ [x]\<rparr>)) \<Longrightarrow> keeps I (emit x)"
  by (auto simp: emit_def intro: keeps_modify)

text \<open>
  The session a reference points to: a nil session or a dangling reference is a nil dereference,
  as is every method call on it that reads a field.
\<close>

definition session_at :: "sref option \<Rightarrow> ('w, Session) op" where
  "session_at r = (case r of None \<Rightarrow> nil_deref
     | Some i \<Rightarrow> gbind (gets heap) (\<lambda>h. case h i of None \<Rightarrow> nil_deref | Some x \<Rightarrow> ret x))"

definition update_session :: "sref \<Rightarrow> (Session \<Rightarrow> Session) \<Rightarrow> ('w, unit) op" where
  "update_session i f = modify (\<lambda>s. s\<lparr>heap := (heap s)(i := map_option f (heap s i))\<rparr>)"

lemma session_at_Some [simp]:
  "heap s i = Some x \<Longrightarrow> session_at (Some i) s = (Ret x, s)"
  "heap s i = Some x \<Longrightarrow> gbind (session_at (Some i)) f s = f x s"
  by (simp_all add: session_at_def gbind_def)

lemma session_at_None [simp]: "session_at None = nil_deref"
  by (simp add: session_at_def)

lemma keeps_session_at [go_pres]: "keeps I (session_at r)"
  by (auto simp: session_at_def intro!: go_pres split: option.split)

end
