(* ===== verification/Messages.thy ===== *)
theory Messages
  imports World
begin

unbundle bit_operations_syntax

text \<open>
  The constructors of \<open>netconf/message\<close>: message identifiers, the validation that panics on an
  unsupported datastore, filter type, operation or malformed XML, and one \<open>New\<close> function per
  request. The lemmas say which requests the constructors build, that the identifiers have the
  version and variant bits of a random UUID, and exactly when a constructor panics.
\<close>

section \<open>Message identifiers\<close>

definition hex_digits :: string where
  "hex_digits = ''0123456789abcdef''"

definition hex_byte :: "8 word \<Rightarrow> string" where
  "hex_byte b = [hex_digits ! (unat b div 16), hex_digits ! (unat b mod 16)]"

definition hex :: "8 word list \<Rightarrow> string" where
  "hex bs = concat (map hex_byte bs)"

text \<open>
  \<open>uuid\<close>: sixteen bytes, filled as far as the random source delivers, with the version and variant
  bits set, printed in the five groups of the canonical form.
\<close>

definition uuid_bytes :: "8 word list \<Rightarrow> 8 word list" where
  "uuid_bytes rnd =
     (let b = take 16 (rnd @ replicate 16 0);
          b = b[6 := (b ! 6 AND 0x0f) OR 0x40]
      in b[8 := (b ! 8 AND 0x3f) OR 0x80])"

definition uuid :: "'w env \<Rightarrow> ('w, string) op" where
  "uuid e = gbind (ext (rand_Read e 16)) (\<lambda>rnd.
     let b = uuid_bytes rnd in
     ret (hex (take 4 b) @ ''-'' @ hex (take 2 (drop 4 b)) @ ''-'' @ hex (take 2 (drop 6 b)) @ ''-'' @
       hex (take 2 (drop 8 b)) @ ''-'' @ hex (drop 10 b)))"

section \<open>Validation\<close>

definition validateXML :: "'w env \<Rightarrow> string \<Rightarrow> ('w, unit) op" where
  "validateXML e data = (case xml_Unmarshal_any e data of None \<Rightarrow> ret ()
     | Some err \<Rightarrow> abort (Panic (''provided XML is not valid: '' @ data @ ''. '' @ [CHR 0x0A] @ Error err)))"

definition validateDatastore :: "string \<Rightarrow> ('w, unit) op" where
  "validateDatastore ds =
     (if ds = DatastoreRunning then ret ()
      else if ds = DatastoreCandidate then ret ()
      else abort (Panic (''provided datastore is not valid: '' @ ds @ ''. Expecting `'' @
             DatastoreRunning @ ''` or `'' @ DatastoreCandidate @ ''`'')))"

definition validateFilterType :: "string \<Rightarrow> ('w, unit) op" where
  "validateFilterType filterType =
     (if filterType = FilterTypeSubtree then ret ()
      else abort (Panic (''provided filterType is not valid: '' @ filterType @ ''. Expecting `'' @
             FilterTypeSubtree @ ''`'')))"

definition DefaultOperationTypeMerge :: string where "DefaultOperationTypeMerge = ''merge''"
definition DefaultOperationTypeReplace :: string where "DefaultOperationTypeReplace = ''replace''"
definition DefaultOperationTypeNone :: string where "DefaultOperationTypeNone = ''none''"

definition validDefaultOperation :: "string \<Rightarrow> ('w, unit) op" where
  "validDefaultOperation operation =
     (if operation = DefaultOperationTypeMerge then ret ()
      else if operation = DefaultOperationTypeReplace then ret ()
      else if operation = DefaultOperationTypeNone then ret ()
      else abort (Panic (''provided operation is not valid: '' @ operation @ ''. Expecting either `'' @
             DefaultOperationTypeMerge @ ''`, `'' @ DefaultOperationTypeNone @ ''`, or `'' @
             DefaultOperationTypeReplace @ ''`'')))"

definition datastore :: "string \<Rightarrow> ('w, Datastore option) op" where
  "datastore datastoreType = gthen (validateDatastore datastoreType)
     (if datastoreType = DatastoreRunning then ret (Some \<lparr>ds_Candidate = None, ds_Running = Some []\<rparr>)
      else if datastoreType = DatastoreCandidate then ret (Some \<lparr>ds_Candidate = Some [], ds_Running = None\<rparr>)
      else ret None)"

section \<open>Requests\<close>

definition NewRPC :: "'w env \<Rightarrow> string \<Rightarrow> ('w, RPCMethod) op" where
  "NewRPC e data = gbind (uuid e) (\<lambda>i. ret (MRPC i data))"

definition NewGet :: "'w env \<Rightarrow> string \<Rightarrow> string \<Rightarrow> ('w, RPCMethod) op" where
  "NewGet e filterType data =
     gbind
       (if data \<noteq> [] then
          gthen (validateXML e data) (gthen (validateFilterType filterType)
            (ret (None, Some \<lparr>fl_Type = filterType, fl_Data = data\<rparr>)))
        else ret (Some [], None))
       (\<lambda>(get, filter). gbind (uuid e) (\<lambda>i. ret (MGet i get filter)))"

definition NewGetConfig :: "'w env \<Rightarrow> string \<Rightarrow> string \<Rightarrow> string \<Rightarrow> ('w, RPCMethod) op" where
  "NewGetConfig e datastoreType filterType filterData =
     gbind
       (if filterData \<noteq> [] then
          gthen (validateXML e filterData) (gthen (validateFilterType filterType)
            (ret (Some \<lparr>fl_Type = filterType, fl_Data = filterData\<rparr>)))
        else ret None)
       (\<lambda>filter. gbind (datastore datastoreType) (\<lambda>src.
          gbind (uuid e) (\<lambda>i. ret (MGetConfig i src filter))))"

definition NewLock :: "'w env \<Rightarrow> string \<Rightarrow> ('w, RPCMethod) op" where
  "NewLock e datastoreType =
     gbind (datastore datastoreType) (\<lambda>d. gbind (uuid e) (\<lambda>i. ret (MLock i d)))"

definition NewUnlock :: "'w env \<Rightarrow> string \<Rightarrow> ('w, RPCMethod) op" where
  "NewUnlock e datastoreType =
     gbind (datastore datastoreType) (\<lambda>d. gbind (uuid e) (\<lambda>i. ret (MUnlock i d)))"

definition NewCommit :: "'w env \<Rightarrow> ('w, RPCMethod) op" where
  "NewCommit e = gbind (uuid e) (\<lambda>i. ret (MCommit i []))"

definition NewEditConfig :: "'w env \<Rightarrow> string \<Rightarrow> string \<Rightarrow> string \<Rightarrow> ('w, RPCMethod) op" where
  "NewEditConfig e datastoreType operationType data =
     gthen (validateXML e data) (gthen (validDefaultOperation operationType)
       (gbind (datastore datastoreType) (\<lambda>d.
          gbind (uuid e) (\<lambda>i. ret (MEditConfig i d operationType data)))))"

definition NewCloseSession :: "'w env \<Rightarrow> ('w, RPCMethod) op" where
  "NewCloseSession e = gbind (uuid e) (\<lambda>i. ret (MCloseSession i []))"

definition NewKillSession :: "'w env \<Rightarrow> string \<Rightarrow> ('w, RPCMethod) op" where
  "NewKillSession e sessionID = gbind (uuid e) (\<lambda>i. ret (MKillSession i sessionID))"

definition NewCreateSubscription :: "'w env \<Rightarrow> string \<Rightarrow> string \<Rightarrow> string \<Rightarrow> ('w, RPCMethod) op" where
  "NewCreateSubscription e stopTime startTime stream =
     (let sub = \<lparr>sd_XMLNS = NetconfNotificationXmlns, sd_Stream = stream, sd_StartTime = startTime,
                 sd_StopTime = stopTime\<rparr>
      in gbind (uuid e) (\<lambda>i. ret (MCreateSubscription i sub)))"

definition NewCreateSubscriptionDefault :: "'w env \<Rightarrow> ('w, RPCMethod) op" where
  "NewCreateSubscriptionDefault e =
     (let sub = \<lparr>sd_XMLNS = NetconfNotificationXmlns, sd_Stream = [], sd_StartTime = [], sd_StopTime = []\<rparr>
      in gbind (uuid e) (\<lambda>i. ret (MCreateSubscription i sub)))"

definition NewValidate :: "'w env \<Rightarrow> string \<Rightarrow> ('w, RPCMethod) op" where
  "NewValidate e datastoreType =
     gbind (datastore datastoreType) (\<lambda>d. gbind (uuid e) (\<lambda>i. ret (MValidate i d)))"

definition NewEstablishSubscription :: "'w env \<Rightarrow> string \<Rightarrow> ('w, RPCMethod) op" where
  "NewEstablishSubscription e data = gbind (uuid e) (\<lambda>i. ret (MEstablishSubscription i data))"

text \<open>Replies and notifications: the raw text is kept beside what was unmarshalled.\<close>

definition NewRPCReply :: "'w env \<Rightarrow> string \<Rightarrow> gerror + RPCReply" where
  "NewRPCReply e rawXML = (case xml_Unmarshal_RPCReply e rawXML of Inl err \<Rightarrow> Inl err
     | Inr reply \<Rightarrow> Inr (reply\<lparr>re_RawReply := rawXML\<rparr>))"

definition NewNotification :: "'w env \<Rightarrow> string \<Rightarrow> gerror + Notification" where
  "NewNotification e rawXML = (case xml_Unmarshal_Notification e rawXML of Inl err \<Rightarrow> Inl err
     | Inr n \<Rightarrow> Inr (n\<lparr>no_RawReply := rawXML\<rparr>))"

section \<open>Identifiers have the form of a random UUID\<close>

lemma length_uuid_bytes: "length (uuid_bytes rnd) = 16"
  by (simp add: uuid_bytes_def Let_def)

lemma length_hex: "length (hex bs) = 2 * length bs"
  by (induction bs) (auto simp: hex_def hex_byte_def)

lemma uuid_version_variant:
  "uuid_bytes rnd ! 6 AND 0xf0 = 0x40 \<and> uuid_bytes rnd ! 8 AND 0xc0 = 0x80"
proof
  have b: "length (take 16 (rnd @ replicate 16 (0 :: 8 word))) = 16" by simp
  show "uuid_bytes rnd ! 6 AND 0xf0 = 0x40"
    using b by (simp add: uuid_bytes_def Let_def and.assoc bit.conj_disj_distrib2)
  show "uuid_bytes rnd ! 8 AND 0xc0 = 0x80"
    using b by (simp add: uuid_bytes_def Let_def and.assoc bit.conj_disj_distrib2)
qed

text \<open>\<open>uuid\<close> always returns, changes only the world, and gives a text of 36 characters.\<close>

lemma uuid_returns:
  obtains i w where "uuid e s = (Ret i, s\<lparr>world := w\<rparr>)" "length i = 36"
proof -
  obtain rnd w where r: "rand_Read e 16 (world s) = (rnd, w)" by fastforce
  let ?b = "uuid_bytes rnd"
  have "uuid e s = (Ret (hex (take 4 ?b) @ ''-'' @ hex (take 2 (drop 4 ?b)) @ ''-'' @
      hex (take 2 (drop 6 ?b)) @ ''-'' @ hex (take 2 (drop 8 ?b)) @ ''-'' @ hex (drop 10 ?b)),
      s\<lparr>world := w\<rparr>)"
    by (simp add: uuid_def r Let_def)
  then show ?thesis
    by (rule that) (simp add: length_hex length_uuid_bytes)
qed

lemma keeps_uuid [go_pres]: "(\<And>s w. I s \<Longrightarrow> I (s\<lparr>world := w\<rparr>)) \<Longrightarrow> keeps I (uuid e)"
  unfolding uuid_def by (intro go_pres) auto

section \<open>When a constructor panics\<close>

definition datastore_ok :: "string \<Rightarrow> bool" where
  "datastore_ok ds \<longleftrightarrow> ds = DatastoreRunning \<or> ds = DatastoreCandidate"

definition operation_ok :: "string \<Rightarrow> bool" where
  "operation_ok o' \<longleftrightarrow> o' \<in> {DefaultOperationTypeMerge, DefaultOperationTypeReplace, DefaultOperationTypeNone}"

text \<open>The datastore element that a supported datastore name selects.\<close>

definition datastore_elem :: "string \<Rightarrow> Datastore" where
  "datastore_elem ds = (if ds = DatastoreRunning then \<lparr>ds_Candidate = None, ds_Running = Some []\<rparr>
     else \<lparr>ds_Candidate = Some [], ds_Running = None\<rparr>)"

lemma datastore_run:
  "datastore ds = (if datastore_ok ds then ret (Some (datastore_elem ds))
     else gthen (validateDatastore ds) (ret None))"
  by (auto simp: datastore_def validateDatastore_def datastore_ok_def datastore_elem_def)

lemma datastore_ok_run [simp]: "datastore_ok ds \<Longrightarrow> datastore ds = ret (Some (datastore_elem ds))"
  by (simp add: datastore_run)

lemma datastore_bad: "\<not> datastore_ok ds \<Longrightarrow> \<exists>m. datastore ds s = (Abort (Panic m), s)"
  by (auto simp: datastore_run datastore_ok_def validateDatastore_def)

text \<open>
  A constructor that is given supported arguments returns a request with a fresh identifier and
  changes only the world.
\<close>

definition builds :: "('w, RPCMethod) op \<Rightarrow> (string \<Rightarrow> RPCMethod) \<Rightarrow> bool" where
  "builds m f \<longleftrightarrow> (\<forall>s. \<exists>i w. m s = (Ret (f i), s\<lparr>world := w\<rparr>) \<and> length i = 36)"

lemma buildsE:
  assumes "builds m f"
  obtains i w where "m s = (Ret (f i), s\<lparr>world := w\<rparr>)" "length i = 36"
  using assms unfolding builds_def by blast

lemma builds_uuid: "builds (gbind (uuid e) (\<lambda>i. ret (f i))) f"
  unfolding builds_def
proof
  fix s
  obtain i w where "uuid e s = (Ret i, s\<lparr>world := w\<rparr>)" "length i = 36" by (rule uuid_returns)
  then show "\<exists>i w. gbind (uuid e) (\<lambda>i. ret (f i)) s = (Ret (f i), s\<lparr>world := w\<rparr>) \<and> length i = 36"
    by (auto simp: gbind_Ret)
qed

lemma NewRPC_builds: "builds (NewRPC e data) (\<lambda>i. MRPC i data)"
  by (simp add: NewRPC_def builds_uuid)

lemma NewCommit_builds: "builds (NewCommit e) (\<lambda>i. MCommit i [])"
  by (simp add: NewCommit_def builds_uuid)

lemma NewCloseSession_builds: "builds (NewCloseSession e) (\<lambda>i. MCloseSession i [])"
  by (simp add: NewCloseSession_def builds_uuid)

lemma NewKillSession_builds: "builds (NewKillSession e sid) (\<lambda>i. MKillSession i sid)"
  by (simp add: NewKillSession_def builds_uuid)

lemma NewEstablishSubscription_builds:
  "builds (NewEstablishSubscription e data) (\<lambda>i. MEstablishSubscription i data)"
  by (simp add: NewEstablishSubscription_def builds_uuid)

lemma NewCreateSubscription_builds:
  "builds (NewCreateSubscription e stop start stream)
     (\<lambda>i. MCreateSubscription i \<lparr>sd_XMLNS = NetconfNotificationXmlns, sd_Stream = stream,
        sd_StartTime = start, sd_StopTime = stop\<rparr>)"
  by (simp add: NewCreateSubscription_def builds_uuid)

lemma NewLock_builds: "datastore_ok ds \<Longrightarrow> builds (NewLock e ds) (\<lambda>i. MLock i (Some (datastore_elem ds)))"
  by (simp add: NewLock_def builds_uuid)

lemma NewUnlock_builds: "datastore_ok ds \<Longrightarrow> builds (NewUnlock e ds) (\<lambda>i. MUnlock i (Some (datastore_elem ds)))"
  by (simp add: NewUnlock_def builds_uuid)

lemma NewGetConfig_builds:
  "datastore_ok ds \<Longrightarrow> builds (NewGetConfig e ds ft []) (\<lambda>i. MGetConfig i (Some (datastore_elem ds)) None)"
  by (simp add: NewGetConfig_def builds_uuid)

lemma validDefaultOperation_ok [simp]: "operation_ok oper \<Longrightarrow> validDefaultOperation oper = ret ()"
  by (auto simp: validDefaultOperation_def operation_ok_def)

lemma validateXML_ok [simp]: "xml_Unmarshal_any e data = None \<Longrightarrow> validateXML e data = ret ()"
  by (simp add: validateXML_def)

lemma NewEditConfig_builds:
  assumes "datastore_ok ds" "operation_ok oper" "xml_Unmarshal_any e data = None"
  shows "builds (NewEditConfig e ds oper data) (\<lambda>i. MEditConfig i (Some (datastore_elem ds)) oper data)"
  using assms by (simp add: NewEditConfig_def builds_uuid)

lemma NewGet_unfiltered_builds: "builds (NewGet e ft []) (\<lambda>i. MGet i (Some []) None)"
  by (simp add: NewGet_def builds_uuid)

lemma NewGet_filtered_builds:
  assumes "data \<noteq> []" "xml_Unmarshal_any e data = None"
  shows "builds (NewGet e FilterTypeSubtree data)
     (\<lambda>i. MGet i None (Some \<lparr>fl_Type = FilterTypeSubtree, fl_Data = data\<rparr>))"
  using assms by (simp add: NewGet_def builds_uuid validateFilterType_def)

section \<open>Frame\<close>

lemma keeps_validateXML [go_pres]: "keeps I (validateXML e data)"
  by (auto simp: validateXML_def intro!: go_pres)

lemma keeps_validateFilterType [go_pres]: "keeps I (validateFilterType t)"
  by (auto simp: validateFilterType_def intro!: go_pres)

lemma keeps_validDefaultOperation [go_pres]: "keeps I (validDefaultOperation t)"
  unfolding validDefaultOperation_def by (intro go_pres)

lemma keeps_datastore [go_pres]: "keeps I (datastore t)"
  unfolding datastore_def validateDatastore_def by (intro go_pres)

text \<open>Every constructor changes nothing but the world, even when it panics.\<close>

lemmas New_defs = NewRPC_def NewGet_def NewGetConfig_def NewLock_def NewUnlock_def NewCommit_def
  NewEditConfig_def NewCloseSession_def NewKillSession_def NewCreateSubscription_def
  NewEstablishSubscription_def

lemma keeps_New [go_pres]:
  assumes "\<And>s w. I s \<Longrightarrow> I (s\<lparr>world := w\<rparr>)"
  shows "keeps I (NewRPC e a)" "keeps I (NewGet e a b)" "keeps I (NewGetConfig e a b c)"
    "keeps I (NewLock e a)" "keeps I (NewUnlock e a)" "keeps I (NewCommit e)"
    "keeps I (NewEditConfig e a b c)" "keeps I (NewCloseSession e)" "keeps I (NewKillSession e a)"
    "keeps I (NewCreateSubscription e a b c)" "keeps I (NewEstablishSubscription e a)"
  unfolding New_defs by (intro go_pres assms; assumption)+

text \<open>The default subscription leaves stream and times to the device.\<close>

lemma NewCreateSubscriptionDefault_eq: "NewCreateSubscriptionDefault e = NewCreateSubscription e [] [] []"
  by (simp add: NewCreateSubscriptionDefault_def NewCreateSubscription_def)

end
