(* ===== verification/Framing.thy ===== *)
theory Framing
  imports World
begin

text \<open>
  Message framing (\<open>netconf/transport.go\<close>): how a request is framed on the wire, how the end of a
  message is found in a stream of reads (\<open>WaitForFunc\<close>), and how chunked framing is undone by a
  \<open>bufio.Scanner\<close> over the split function \<open>SplitChunked\<close>. The lemmas give the round trip of
  end-of-message framing under any fragmentation whose pieces are not shorter than the separator,
  and the termination of both loops.
\<close>

section \<open>Decimal numbers\<close>

definition digit_char :: "nat \<Rightarrow> char" where
  "digit_char d = ''0123456789'' ! d"

fun show_nat :: "nat \<Rightarrow> string" where
  "show_nat n = (if n < 10 then [digit_char n] else show_nat (n div 10) @ [digit_char (n mod 10)])"

declare show_nat.simps [simp del]

definition digit_val :: "char \<Rightarrow> nat option" where
  "digit_val c = (if c \<in> set ''0123456789'' then Some (of_char c - 48) else None)"

text \<open>\<open>strconv.ParseUint(s, 10, 31)\<close>: \<open>None\<close> on a non-digit, on no digits and out of range.\<close>

fun parse_digits :: "nat \<Rightarrow> string \<Rightarrow> nat option" where
  "parse_digits acc [] = Some acc"
| "parse_digits acc (c # cs) =
     (case digit_val c of None \<Rightarrow> None | Some d \<Rightarrow> parse_digits (10 * acc + d) cs)"

definition ParseUint31 :: "string \<Rightarrow> nat option" where
  "ParseUint31 s = (if s = [] then None else
     case parse_digits 0 s of None \<Rightarrow> None | Some v \<Rightarrow> if v < 2 ^ 31 then Some v else None)"

section \<open>Sending\<close>

definition msgSeparator :: string where
  "msgSeparator = '']]>]]>''"

definition msgSeparatorV11 :: string where
  "msgSeparatorV11 = [CHR 0x0A] @ ''##'' @ [CHR 0x0A]"

text \<open>The bytes that \<open>transportBasicIO.Send\<close> writes for one message.\<close>

definition Send_frame :: "string \<Rightarrow> string \<Rightarrow> string" where
  "Send_frame version data =
     (let separator = (if version = ''v1.1'' then msgSeparatorV11 else msgSeparator);
          header = (if version = ''v1.1'' then [CHR 0x0A] @ ''#'' @ show_nat (length data) @ [CHR 0x0A] else [])
      in header @ data @ separator)"

section \<open>Waiting for a separator\<close>

text \<open>
  \<open>WaitForFunc\<close> over the reads that the connection delivers. Its argument looks for the end of a
  message in the bytes it is given and returns the offset, \<open>None\<close> for the source's -1, or an error.
  The state of the loop is what was already written to \<open>out\<close> and the window \<open>buf[0:pos]\<close>, which
  holds the bytes of the last read; the result is an error or the message, or the loop still waits.
\<close>

datatype wait_result = Waiting string string | Done "gerror + string"

type_synonym find_end = "string \<Rightarrow> gerror + nat option"

definition WaitForFunc_step :: "find_end \<Rightarrow> string \<Rightarrow> string \<Rightarrow> read \<Rightarrow> wait_result" where
  "WaitForFunc_step f out win r = (case r of
     ReadErr err \<Rightarrow> Done (Inl err)
   | ReadEOF \<Rightarrow> Done (Inl (GoError ''WaitForFunc failed''))
   | ReadData bs \<Rightarrow>
       (if bs = [] then Waiting out win
        else case f (win @ bs) of
            Inl err \<Rightarrow> Done (Inl err)
          | Inr (Some end') \<Rightarrow> Done (Inr (out @ take end' (win @ bs)))
          | Inr None \<Rightarrow> Waiting (if win \<noteq> [] then out @ win else out) bs))"

fun WaitForFunc :: "find_end \<Rightarrow> string \<Rightarrow> string \<Rightarrow> read list \<Rightarrow> wait_result" where
  "WaitForFunc f out win [] = Waiting out win"
| "WaitForFunc f out win (r # rs) = (case WaitForFunc_step f out win r of
      Done x \<Rightarrow> Done x
    | Waiting out' win' \<Rightarrow> WaitForFunc f out' win' rs)"

text \<open>\<open>WaitForBytes\<close> is the loop with the search for a separator, and one turn of it.\<close>

definition find_bytes :: "string \<Rightarrow> find_end" where
  "find_bytes b = (\<lambda>buf. Inr (Index buf b))"

definition WaitForBytes_step :: "string \<Rightarrow> string \<Rightarrow> string \<Rightarrow> read \<Rightarrow> wait_result" where
  "WaitForBytes_step sep = WaitForFunc_step (find_bytes sep)"

definition WaitForBytes :: "string \<Rightarrow> string \<Rightarrow> string \<Rightarrow> read list \<Rightarrow> wait_result" where
  "WaitForBytes sep = WaitForFunc (find_bytes sep)"

lemma WaitForBytes_step_run:
  "WaitForBytes_step sep out win r = (case r of
     ReadErr err \<Rightarrow> Done (Inl err)
   | ReadEOF \<Rightarrow> Done (Inl (GoError ''WaitForFunc failed''))
   | ReadData bs \<Rightarrow>
       (if bs = [] then Waiting out win
        else case Index (win @ bs) sep of
            Some end' \<Rightarrow> Done (Inr (out @ take end' (win @ bs)))
          | None \<Rightarrow> Waiting (if win \<noteq> [] then out @ win else out) bs))"
  by (simp add: WaitForBytes_step_def WaitForFunc_step_def find_bytes_def split: read.split)

lemma WaitForBytes_simps [simp]:
  "WaitForBytes sep out win [] = Waiting out win"
  "WaitForBytes sep out win (r # rs) = (case WaitForBytes_step sep out win r of
      Done x \<Rightarrow> Done x
    | Waiting out' win' \<Rightarrow> WaitForBytes sep out' win' rs)"
  by (simp_all add: WaitForBytes_def WaitForBytes_step_def split: wait_result.split)

section \<open>Chunked framing\<close>

datatype chunk_state = HeaderStart | HeaderSize | Data | EndOfChunks

text \<open>The variables that the closure of \<open>SplitChunked\<close> keeps between calls.\<close>

record split_state =
  sp_state :: chunk_state
  sp_cs :: nat
  sp_dataleft :: nat

definition split_init :: split_state where
  "split_init = \<lparr>sp_state = HeaderStart, sp_cs = 0, sp_dataleft = 0\<rparr>"

text \<open>
  The loop of the split function, from offset \<open>advance\<close> of \<open>b\<close>: the result is the offset reached,
  the token (empty for nil), whether an error was set, and the closure's variables. A return from
  the middle of the loop skips the check after it; leaving the loop does not.
\<close>

definition split_exit :: "bool \<Rightarrow> nat \<Rightarrow> string \<Rightarrow> bool \<Rightarrow> split_state \<Rightarrow> nat \<times> string \<times> bool \<times> split_state" where
  "split_exit atEOF advance token err st =
     (advance, token, (if atEOF \<and> sp_dataleft st > 0 then True else err), st)"

function split_loop :: "string \<Rightarrow> bool \<Rightarrow> nat \<Rightarrow> split_state \<Rightarrow> nat \<times> string \<times> bool \<times> split_state" where
  "split_loop b atEOF advance st =
     (if \<not> advance < length b then split_exit atEOF advance [] False st
      else let cur = drop advance b in
      if length cur < 4 \<and> \<not> atEOF then (advance, [], False, st)
      else case sp_state st of
        HeaderStart \<Rightarrow>
          if HasPrefix cur ([CHR 0x0A] @ ''#'') then
            (if length cur < 4 then (advance, [], True, st)
             else let r = cur ! 2 in
               if r = CHR ''#'' then split_loop b atEOF (advance + 3) (st\<lparr>sp_state := EndOfChunks\<rparr>)
               else if r \<in> set ''123456789'' then split_loop b atEOF (advance + 2) (st\<lparr>sp_state := HeaderSize\<rparr>)
               else split_exit atEOF advance [] True st)
          else split_exit atEOF advance [] True st
      | HeaderSize \<Rightarrow>
          (case Index cur [CHR 0x0A] of
             Some idx \<Rightarrow>
               if idx < 1 \<or> idx > 10 then
                 (if length cur < 11 \<and> \<not> atEOF then (advance, [], False, st)
                  else split_exit atEOF advance [] True st)
               else (case ParseUint31 (take idx cur) of
                   None \<Rightarrow> split_exit atEOF advance [] True st
                 | Some csizeVal \<Rightarrow>
                     split_loop b atEOF (advance + idx + 1)
                       (st\<lparr>sp_dataleft := csizeVal, sp_state := Data\<rparr>))
           | None \<Rightarrow>
               (if length cur < 11 \<and> \<not> atEOF then (advance, [], False, st)
                else split_exit atEOF advance [] True st))
      | Data \<Rightarrow>
          (let rsize = min (length cur) (sp_dataleft st);
               token = take rsize cur;
               left = sp_dataleft st - rsize;
               st' = (if left < 1 then st\<lparr>sp_dataleft := left, sp_state := HeaderStart, sp_cs := sp_cs st + 1\<rparr>
                      else st\<lparr>sp_dataleft := left\<rparr>)
           in if rsize > 0 then (advance + rsize, token, False, st')
              else split_loop b atEOF advance st')
      | EndOfChunks \<Rightarrow>
          (if cur ! 0 = CHR 0x0A \<and> sp_cs st > 0
           then split_loop b atEOF (advance + 1) (st\<lparr>sp_state := HeaderStart\<rparr>)
           else split_exit atEOF advance [] True st))"
  by pat_completeness auto
termination
  by (relation "measure (\<lambda>(b, _, advance, st). 2 * (length b - advance) + (if sp_state st = Data then 1 else 0))")
    (auto simp: min_def split: if_splits)

declare split_loop.simps [simp del]

definition SplitChunked :: "split_state \<Rightarrow> string \<Rightarrow> bool \<Rightarrow> nat \<times> string \<times> bool \<times> split_state" where
  "SplitChunked st b atEOF = split_loop b atEOF 0 st"

text \<open>One turn of the loop, state by state.\<close>

lemma split_loop_stop:
  "length b \<le> advance \<Longrightarrow> split_loop b atEOF advance st = split_exit atEOF advance [] False st"
  by (subst split_loop.simps) simp

lemma split_loop_short:
  "advance < length b \<Longrightarrow> length b - advance < 4 \<Longrightarrow> split_loop b False advance st = (advance, [], False, st)"
  by (subst split_loop.simps) simp

definition loop_ready :: "string \<Rightarrow> bool \<Rightarrow> nat \<Rightarrow> bool" where
  "loop_ready b atEOF advance \<longleftrightarrow> advance < length b \<and> (4 \<le> length b - advance \<or> atEOF)"

lemma split_loop_HeaderStart:
  assumes "loop_ready b atEOF advance" "sp_state st = HeaderStart"
  shows "split_loop b atEOF advance st =
    (let cur = drop advance b in
     if HasPrefix cur ([CHR 0x0A] @ ''#'') then
       (if length cur < 4 then (advance, [], True, st)
        else let r = cur ! 2 in
          if r = CHR ''#'' then split_loop b atEOF (advance + 3) (st\<lparr>sp_state := EndOfChunks\<rparr>)
          else if r \<in> set ''123456789'' then split_loop b atEOF (advance + 2) (st\<lparr>sp_state := HeaderSize\<rparr>)
          else split_exit atEOF advance [] True st)
     else split_exit atEOF advance [] True st)"
  using assms by (subst split_loop.simps) (auto simp: loop_ready_def Let_def)

lemma split_loop_HeaderSize:
  assumes "loop_ready b atEOF advance" "sp_state st = HeaderSize"
  shows "split_loop b atEOF advance st =
    (let cur = drop advance b;
         bad = (if length cur < 11 \<and> \<not> atEOF then (advance, [], False, st)
                else split_exit atEOF advance [] True st)
     in case Index cur [CHR 0x0A] of
          None \<Rightarrow> bad
        | Some idx \<Rightarrow> if idx < 1 \<or> idx > 10 then bad
            else (case ParseUint31 (take idx cur) of
                None \<Rightarrow> split_exit atEOF advance [] True st
              | Some n \<Rightarrow> split_loop b atEOF (advance + idx + 1) (st\<lparr>sp_dataleft := n, sp_state := Data\<rparr>)))"
  using assms by (subst split_loop.simps) (auto simp: loop_ready_def Let_def split: option.split)

lemma split_loop_Data:
  assumes "loop_ready b atEOF advance" "sp_state st = Data"
  shows "split_loop b atEOF advance st =
    (let rsize = min (length b - advance) (sp_dataleft st);
         left = sp_dataleft st - rsize;
         st' = (if left < 1 then st\<lparr>sp_dataleft := left, sp_state := HeaderStart, sp_cs := sp_cs st + 1\<rparr>
                else st\<lparr>sp_dataleft := left\<rparr>)
     in if rsize > 0 then (advance + rsize, take rsize (drop advance b), False, st')
        else split_loop b atEOF advance st')"
  using assms by (subst split_loop.simps) (auto simp: loop_ready_def Let_def)

lemma split_loop_EndOfChunks:
  assumes "loop_ready b atEOF advance" "sp_state st = EndOfChunks"
  shows "split_loop b atEOF advance st =
    (if drop advance b ! 0 = CHR 0x0A \<and> sp_cs st > 0
     then split_loop b atEOF (advance + 1) (st\<lparr>sp_state := HeaderStart\<rparr>)
     else split_exit atEOF advance [] True st)"
  using assms by (subst split_loop.simps) (auto simp: loop_ready_def Let_def)

text \<open>The offset only grows, stays inside the buffer, and grows when there is a token.\<close>

definition split_progress :: "nat \<Rightarrow> nat \<Rightarrow> nat \<times> string \<times> bool \<times> split_state \<Rightarrow> bool" where
  "split_progress n advance r \<longleftrightarrow> (case r of (adv, token, err, st') \<Rightarrow>
     advance \<le> adv \<and> adv \<le> n \<and> (token \<noteq> [] \<longrightarrow> advance < adv))"

lemma split_progress_trans:
  "split_progress n a' r \<Longrightarrow> a \<le> a' \<Longrightarrow> split_progress n a r"
  by (auto simp: split_progress_def)

lemma split_progress_exit [simp]:
  "a \<le> n \<Longrightarrow> split_progress n a (split_exit e a [] x st)"
  "a \<le> n \<Longrightarrow> split_progress n a (a, [], x, st)"
  by (auto simp: split_progress_def split_exit_def)

lemma Index_single_less: "Index s [c] = Some i \<Longrightarrow> i < length s \<and> s ! i = c"
  by (induction s arbitrary: i) (auto split: if_splits)

lemma split_loop_progress:
  "advance \<le> length b \<Longrightarrow> split_progress (length b) advance (split_loop b atEOF advance st)"
proof (induction "2 * (length b - advance) + (if sp_state st = Data then 1 else 0)"
    arbitrary: advance st atEOF rule: less_induct)
  case less
  have IH: "split_progress (length b) advance (split_loop b atEOF' advance' st')"
    if "advance \<le> advance'" "advance' \<le> length b"
      "2 * (length b - advance') + (if sp_state st' = Data then 1 else 0)
       < 2 * (length b - advance) + (if sp_state st = Data then 1 else 0)" for advance' st' atEOF'
    using less.hyps[OF that(3) that(2)] that(1) by (rule split_progress_trans)
  show ?case
  proof (cases "loop_ready b atEOF advance")
    case False
    then show ?thesis
      using less.prems by (cases "advance < length b") (auto simp: loop_ready_def split_loop_short split_loop_stop)
  next
    case ready: True
    then have lt: "advance < length b" by (simp add: loop_ready_def)
    show ?thesis
    proof (cases "sp_state st")
      case HeaderStart
      with ready lt show ?thesis
        by (auto simp: split_loop_HeaderStart Let_def intro!: IH)
    next
      case HeaderSize
      then show ?thesis
      proof (cases "Index (drop advance b) [CHR 0x0A]")
        case None
        with HeaderSize ready lt show ?thesis by (simp add: split_loop_HeaderSize Let_def)
      next
        case (Some idx)
        with Index_single_less[OF Some] HeaderSize ready lt show ?thesis
          by (auto simp: split_loop_HeaderSize Let_def intro!: IH split: option.split)
      qed
    next
      case Data
      show ?thesis
      proof (cases "sp_dataleft st = 0")
        case True
        with Data lt show ?thesis
          unfolding split_loop_Data[OF ready Data] by (simp add: Let_def) (rule IH, simp_all)
      next
        case False
        with lt show ?thesis
          unfolding split_loop_Data[OF ready Data]
          by (simp add: Let_def split_progress_def)
      qed
    next
      case EndOfChunks
      with ready lt show ?thesis
        by (auto simp: split_loop_EndOfChunks intro!: IH)
    qed
  qed
qed


subsection \<open>The scanner\<close>

text \<open>
  \<open>bufio.Scanner\<close> over a \<open>bytes.Reader\<close>, as \<open>Chunked\<close> sets it up: a buffer of 16 bytes that may grow
  to 32. \<open>sc_win\<close> is \<open>buf[start:end]\<close>, \<open>sc_rest\<close> what the reader has left, \<open>sc_err\<close> that a read
  reported an error (the end of the input).
\<close>

record scanner =
  sc_start :: nat
  sc_buflen :: nat
  sc_win :: string
  sc_rest :: string
  sc_err :: bool
  sc_split :: split_state

definition maxTokenSize :: nat where
  "maxTokenSize = 32"

definition scan_shift :: "scanner \<Rightarrow> scanner" where
  "scan_shift sc = (let end' = sc_start sc + length (sc_win sc) in
     if sc_start sc > 0 \<and> (end' = sc_buflen sc \<or> sc_start sc > sc_buflen sc div 2)
     then sc\<lparr>sc_start := 0\<rparr> else sc)"

definition scan_grow :: "scanner \<Rightarrow> scanner option" where
  "scan_grow sc = (if sc_start sc + length (sc_win sc) = sc_buflen sc then
       (if sc_buflen sc \<ge> maxTokenSize then None
        else let newSize = (if sc_buflen sc * 2 = 0 then 4096 else sc_buflen sc * 2)
          in Some (sc\<lparr>sc_buflen := min newSize maxTokenSize, sc_start := 0\<rparr>))
     else Some sc)"

definition scan_read :: "scanner \<Rightarrow> scanner" where
  "scan_read sc = (let n = min (sc_buflen sc - (sc_start sc + length (sc_win sc))) (length (sc_rest sc)) in
     if n = 0 then sc\<lparr>sc_err := True\<rparr>
     else sc\<lparr>sc_win := sc_win sc @ take n (sc_rest sc), sc_rest := drop n (sc_rest sc)\<rparr>)"

definition scan_measure :: "scanner \<Rightarrow> nat" where
  "scan_measure sc = 2 * length (sc_rest sc) + length (sc_win sc) + (if sc_err sc then 0 else 1)"

text \<open>
  \<open>Scan\<close> and the loop of \<open>Chunked\<close> around it: tokens are appended to \<open>got\<close>; an error of the split
  function, a token that does not fit or the end of the input ends the loop, and \<open>Chunked\<close> returns
  what it has without looking at the scanner's error.
\<close>

function scan_loop :: "scanner \<Rightarrow> string \<Rightarrow> string" where
  "scan_loop sc got =
     (let (advance, token, err, st') =
        (if sc_win sc \<noteq> [] \<or> sc_err sc then SplitChunked (sc_split sc) (sc_win sc) (sc_err sc)
         else (0, [], False, sc_split sc));
        sc1 = sc\<lparr>sc_start := sc_start sc + advance, sc_win := drop advance (sc_win sc), sc_split := st'\<rparr>
      in if err then got
         else if token \<noteq> [] then scan_loop sc1 (got @ token)
         else if sc_err sc1 then got
         else case scan_grow (scan_shift sc1) of
             None \<Rightarrow> got
           | Some sc2 \<Rightarrow> scan_loop (scan_read sc2) got)"
  by pat_completeness auto

lemma SplitChunked_progress:
  "SplitChunked st b e = (adv, token, err, st') \<Longrightarrow> adv \<le> length b \<and> (token \<noteq> [] \<longrightarrow> 0 < adv)"
  using split_loop_progress[of 0 b e st] by (auto simp: SplitChunked_def split_progress_def)

lemma scan_read_measure: "\<not> sc_err sc \<Longrightarrow> scan_measure (scan_read sc) < scan_measure sc"
  by (auto simp: scan_measure_def scan_read_def Let_def min_def)

lemma scan_refill_fields:
  "scan_grow (scan_shift sc) = Some sc' \<Longrightarrow>
   sc_rest sc' = sc_rest sc \<and> sc_win sc' = sc_win sc \<and> sc_err sc' = sc_err sc"
  by (auto simp: scan_grow_def scan_shift_def Let_def split: if_splits)

termination scan_loop
proof (relation "measure (\<lambda>(sc, got). scan_measure sc)", goal_cases)
  case 1
  then show ?case by simp
next
  case (2 sc got r a b t c e d sc1)
  then have eq: "SplitChunked (sc_split sc) (sc_win sc) (sc_err sc) = (a, t, e, d)"
    by (auto split: if_splits)
  show ?case
    using 2 SplitChunked_progress[OF eq] by (auto simp: scan_measure_def)
next
  case (3 sc got r a b t c e d sc1 sc2)
  have "scan_measure (scan_read sc2) < scan_measure sc2"
    using 3 scan_refill_fields[of sc1 sc2] by (intro scan_read_measure) auto
  also have "scan_measure sc2 \<le> scan_measure sc"
    using 3 scan_refill_fields[of sc1 sc2] by (auto simp: scan_measure_def)
  finally show ?case by simp
qed

declare scan_loop.simps [simp del]

definition Chunked :: "string \<Rightarrow> string" where
  "Chunked b = scan_loop \<lparr>sc_start = 0, sc_buflen = 16, sc_win = [], sc_rest = b, sc_err = False,
     sc_split = split_init\<rparr> []"

section \<open>Receiving\<close>

text \<open>
  \<open>Receive\<close> over the reads it makes: in version 1.1 the message up to the end-of-chunks mark is
  collected first and then unchunked.
\<close>

definition rx_separator :: "string \<Rightarrow> string" where
  "rx_separator version = (if version = ''v1.1'' then msgSeparatorV11 else msgSeparator)"

definition rx_decode :: "string \<Rightarrow> string \<Rightarrow> string" where
  "rx_decode version b = (if version = ''v1.1'' then Chunked b else b)"

definition Receive :: "string \<Rightarrow> read list \<Rightarrow> wait_result" where
  "Receive version rs = (case WaitForBytes (rx_separator version) [] [] rs of
     Done (Inr b) \<Rightarrow> Done (Inr (rx_decode version b))
   | x \<Rightarrow> x)"

section \<open>Finding the end of a message\<close>

text \<open>
  The separator first occurs right after the payload. Then a search in any window of the stream
  that starts before the separator finds it exactly when the window reaches its end.
\<close>

lemma take_drop_window:
  "S = out @ w @ rest \<Longrightarrow> n \<le> length w - j \<Longrightarrow> j \<le> length w \<Longrightarrow>
   take n (drop j w) = take n (drop (length out + j) S)"
  by simp

lemma first_occurrence:
  assumes "Index (data @ sep) sep = Some (length data)" "i < length data"
  shows "take (length sep) (drop i (data @ sep @ tail)) \<noteq> sep"
proof -
  have "take (length sep) (drop i (data @ sep @ tail)) = take (length sep) (drop i (data @ sep))"
    using assms(2) by simp
  then show ?thesis using assms by (simp add: Index_Some_iff HasPrefix_take)
qed

lemma Index_window:
  assumes first: "Index (data @ sep) sep = Some (length data)"
    and stream: "data @ sep @ tail = out @ w @ rest"
    and out: "length out \<le> length data"
    and reach: "length data + length sep \<le> length (out @ w)"
  shows "Index w sep = Some (length data - length out)"
proof -
  have w: "take (length sep) (drop j w) = take (length sep) (drop (length out + j) (data @ sep @ tail))"
    if "j \<le> length data - length out" for j
    by (rule take_drop_window[OF stream]) (use that out reach in auto)
  have "HasPrefix (drop (length data - length out) w) sep"
    using w[of "length data - length out"] out by (simp add: HasPrefix_take)
  moreover have "\<not> HasPrefix (drop j w) sep" if "j < length data - length out" for j
    using w[of j] first_occurrence[OF first, of "length out + j"] that by (simp add: HasPrefix_take)
  ultimately show ?thesis using out reach by (simp add: Index_Some_iff)
qed

lemma Index_window_None:
  assumes first: "Index (data @ sep) sep = Some (length data)"
    and stream: "data @ sep @ tail = out @ w @ rest"
    and short: "length (out @ w) < length data + length sep" and "sep \<noteq> []"
  shows "Index w sep = None"
  unfolding Index_None_iff
proof (intro allI impI notI)
  fix j assume j: "j \<le> length w" and p: "HasPrefix (drop j w) sep"
  then have len: "length sep \<le> length w - j"
    by (metis HasPrefix_iff length_append length_drop le_add1)
  have i: "length out + j < length data" using len short j by simp
  have "take (length sep) (drop (length out + j) (data @ sep @ tail)) = sep"
    using take_drop_window[OF stream len j] p by (simp add: HasPrefix_take)
  with first_occurrence[OF first i] show False by blast
qed

text \<open>
  Fragmentation: the reads deliver non-empty pieces, each but the last at least as long as the
  separator less one byte, and the last one delivers the end of the separator.
\<close>

definition fragments :: "string \<Rightarrow> string \<Rightarrow> string list \<Rightarrow> bool" where
  "fragments sep stream cs \<longleftrightarrow> cs \<noteq> [] \<and> [] \<notin> set cs \<and>
     (\<forall>c \<in> set (butlast cs). length sep \<le> length c + 1) \<and>
     (\<exists>tail. concat cs = stream @ tail \<and> length tail < length (last cs))"

lemma WaitForBytes_finds_gen:
  assumes first: "Index (data @ sep) sep = Some (length data)" and sep: "sep \<noteq> []"
    and "data @ sep @ tail = out @ win @ concat cs" "cs \<noteq> []" "[] \<notin> set cs"
    and "\<forall>c \<in> set (butlast cs). length sep \<le> length c + 1"
    and "length tail < length (last cs)"
    and "out \<noteq> [] \<longrightarrow> length sep \<le> length win + 1"
  shows "WaitForBytes sep out win (map ReadData cs @ later) = Done (Inr data)"
  using assms(3-)
proof (induction cs arbitrary: out win)
  case Nil
  then show ?case by simp
next
  case (Cons c cs)
  have stream: "data @ sep @ tail = out @ (win @ c) @ concat cs" using Cons.prems(1) by simp
  have len: "length data + length sep + length tail = length out + length win + length c + length (concat cs)"
    using arg_cong[OF stream, of length] by simp
  have c: "c \<noteq> []" using Cons.prems by auto
  show ?case
  proof (cases "cs = []")
    case True
    have out: "length out \<le> length data"
      using Cons.prems(5,6) len sep True c by (cases "out = []") auto
    have "Index (win @ c) sep = Some (length data - length out)"
      by (rule Index_window[OF first stream out]) (use len True Cons.prems(5) in auto)
    moreover have "out @ take (length data - length out) (win @ c) = data"
    proof -
      have "out @ take (length data - length out) (win @ c)
          = take (length data) (out @ (win @ c) @ concat cs)" using out len True by simp
      also have "\<dots> = data" unfolding stream[symmetric] by simp
      finally show ?thesis .
    qed
    ultimately show ?thesis using True c by (simp add: WaitForBytes_step_run)
  next
    case False
    have ll: "length (last cs) \<le> length (concat cs)"
      using False by (metis append_butlast_last_id concat_append concat.simps le_add2 length_append append_Nil2)
    have short: "length (out @ win @ c) < length data + length sep"
      using len ll Cons.prems(5) False by simp
    have none: "Index (win @ c) sep = None"
      by (rule Index_window_None[OF first stream]) (use short sep in auto)
    have "WaitForBytes sep (if win \<noteq> [] then out @ win else out) c (map ReadData cs @ later) = Done (Inr data)"
    proof (rule Cons.IH)
      show "data @ sep @ tail = (if win \<noteq> [] then out @ win else out) @ c @ concat cs"
        using stream by simp
    qed (use Cons.prems False in \<open>auto simp: butlast.simps\<close>)
    then show ?thesis using c none by (simp add: WaitForBytes_step_run)
  qed
qed

lemma WaitForBytes_finds:
  assumes "Index (data @ sep) sep = Some (length data)" "sep \<noteq> []" "fragments sep (data @ sep) cs"
  shows "WaitForBytes sep [] [] (map ReadData cs @ later) = Done (Inr data)"
proof -
  obtain tail where "concat cs = (data @ sep) @ tail" "length tail < length (last cs)"
    using assms(3) by (auto simp: fragments_def)
  then show ?thesis
    using assms by (intro WaitForBytes_finds_gen[where tail = tail]) (auto simp: fragments_def)
qed

lemma Index_short: "length w < length sep \<Longrightarrow> Index w sep = None"
  unfolding Index_None_iff by (auto simp: HasPrefix_take dest!: arg_cong[of _ _ length])

text \<open>
  A message that is delivered to its last byte is found exactly when the last two reads, which are
  what the window then holds, are together at least as long as the separator.
\<close>

lemma WaitForBytes_two_reads:
  assumes first: "Index (data @ sep) sep = Some (length data)" and sep: "sep \<noteq> []"
    and "data @ sep = out @ win @ concat cs" "cs \<noteq> []" "[] \<notin> set cs"
  defines "w \<equiv> \<lambda>win cs. (if length cs = 1 then win else last (butlast cs)) @ last cs"
  shows "if length (w win cs) < length sep
    then \<exists>o' w'. WaitForBytes sep out win (map ReadData cs) = Waiting o' w' \<and> o' @ w' = data @ sep
    else WaitForBytes sep out win (map ReadData cs) = Done (Inr data)"
  using assms(3-5)
proof (induction cs arbitrary: out win)
  case (Cons c cs)
  have c: "c \<noteq> []" using Cons.prems(3) by auto
  have stream: "data @ sep @ [] = out @ (win @ c) @ concat cs" using Cons.prems(1) by simp
  have len: "length data + length sep = length out + length win + length c + length (concat cs)"
    using arg_cong[OF stream, of length] by simp
  show ?case
  proof (cases "cs = []")
    case True
    show ?thesis
    proof (cases "length (win @ c) < length sep")
      case short: True
      then show ?thesis using True c Cons.prems(1) Index_short[OF short] by (auto simp: w_def WaitForBytes_step_run)
    next
      case False
      have out: "length out \<le> length data" using False len True by simp
      have "Index (win @ c) sep = Some (length data - length out)"
        by (rule Index_window[OF first stream out]) (use len True in simp)
      moreover have "out @ take (length data - length out) (win @ c) = data"
        using arg_cong[OF stream, of "take (length data)"] out True by (simp add: take_append)
      ultimately show ?thesis using False True c by (simp add: w_def WaitForBytes_step_run)
    qed
  next
    case False
    have "concat cs \<noteq> []" using False Cons.prems(3) by (cases cs) auto
    then have "Index (win @ c) sep = None"
      by (intro Index_window_None[OF first stream]) (use len sep in \<open>auto simp: length_greater_0_conv[symmetric] simp del: length_greater_0_conv\<close>)
    then have step: "WaitForBytes sep out win (map ReadData (c # cs)) =
        WaitForBytes sep (if win \<noteq> [] then out @ win else out) c (map ReadData cs)"
      using c by (simp add: WaitForBytes_step_run)
    have "w win (c # cs) = w c cs" using False by (cases cs) (auto simp: w_def)
    then show ?thesis
      unfolding step using Cons.IH[of "if win \<noteq> [] then out @ win else out" c] Cons.prems False by auto
  qed
qed simp

end
