(* ===== verification/Chunking.thy ===== *)
theory Chunking
  imports Framing
begin

text \<open>
  Correctness of the chunked framing of NETCONF 1.1: a message that was encoded in chunks is
  decoded back by \<open>Chunked\<close>, whatever the chunks are and however the scanner's 16-byte buffer cuts
  the input, and what \<open>Send\<close> frames is what \<open>Receive\<close> returns.
\<close>

section \<open>Decimal round trip\<close>

lemma show_nat_nonempty [simp]: "show_nat n \<noteq> []"
  by (subst show_nat.simps) simp

lemma digit_char_val: "d < 10 \<Longrightarrow> digit_val (digit_char d) = Some d"
proof -
  assume "d < 10"
  then have "d \<in> {0,1,2,3,4,5,6,7,8,9}" by auto
  then show ?thesis by (auto simp: digit_char_def digit_val_def)
qed

lemma digit_char_set: "d < 10 \<Longrightarrow> digit_char d \<in> set ''0123456789''"
  unfolding digit_char_def by (rule nth_mem) simp

lemma digit_char_nonzero: "0 < d \<Longrightarrow> d < 10 \<Longrightarrow> digit_char d \<in> set ''123456789''"
proof -
  assume "0 < d" "d < 10"
  then have "d \<in> {1,2,3,4,5,6,7,8,9}" by auto
  then show ?thesis by (auto simp: digit_char_def)
qed

lemma parse_digits_append:
  "parse_digits acc (xs @ ys) =
     (case parse_digits acc xs of None \<Rightarrow> None | Some v \<Rightarrow> parse_digits v ys)"
  by (induction xs arbitrary: acc) (auto split: option.split)

lemma parse_show_nat: "parse_digits 0 (show_nat n) = Some n"
proof (induction n rule: show_nat.induct)
  case (1 n)
  then show ?case
    by (subst show_nat.simps) (auto simp: parse_digits_append digit_char_val)
qed

lemma show_nat_digits: "set (show_nat n) \<subseteq> set ''0123456789''"
proof (induction n rule: show_nat.induct)
  case (1 n)
  show ?case
  proof (cases "n < 10")
    case True
    then show ?thesis using digit_char_set by (subst show_nat.simps) auto
  next
    case False
    then show ?thesis
      using 1 digit_char_set[of "n mod 10"] by (subst show_nat.simps) auto
  qed
qed

lemma show_nat_hd: "0 < n \<Longrightarrow> hd (show_nat n) \<in> set ''123456789''"
proof (induction n rule: show_nat.induct)
  case (1 n)
  show ?case
  proof (cases "n < 10")
    case True
    then show ?thesis using 1 digit_char_nonzero by (subst show_nat.simps) auto
  next
    case False
    then show ?thesis using 1 by (subst show_nat.simps) (simp add: hd_append)
  qed
qed

lemma show_nat_length: "n < 10 ^ k \<Longrightarrow> 0 < k \<Longrightarrow> length (show_nat n) \<le> k"
proof (induction k arbitrary: n)
  case 0
  then show ?case by simp
next
  case (Suc k)
  show ?case
  proof (cases "n < 10")
    case True
    then show ?thesis by (subst show_nat.simps) simp
  next
    case False
    then have "n div 10 < 10 ^ k" "0 < k" using Suc.prems by (auto intro: Nat.gr0I)
    with False Suc.IH[of "n div 10"] show ?thesis by (subst show_nat.simps) simp
  qed
qed

lemma ParseUint31_show_nat: "n < 2 ^ 31 \<Longrightarrow> ParseUint31 (show_nat n) = Some n"
  by (simp add: ParseUint31_def parse_show_nat)

lemma show_nat_no_newline: "CHR 0x0A \<notin> set (show_nat n)"
  using show_nat_digits[of n] by auto

section \<open>Unchunking a chunked message\<close>

definition chunk_ok :: "string \<Rightarrow> bool" where
  "chunk_ok c \<longleftrightarrow> c \<noteq> [] \<and> length c < 2 ^ 31"

fun chunk_encode :: "string list \<Rightarrow> string" where
  "chunk_encode [] = []"
| "chunk_encode (c # cs) =
     [CHR 0x0A] @ ''#'' @ show_nat (length c) @ [CHR 0x0A] @ c @ chunk_encode cs"

text \<open>
  \<open>pending st R out\<close>: with \<open>R\<close> still to read, the split function in state \<open>st\<close> has \<open>out\<close> still to
  deliver.
\<close>

definition pending :: "split_state \<Rightarrow> string \<Rightarrow> string \<Rightarrow> bool" where
  "pending st R out \<longleftrightarrow> (\<exists>cs. list_all chunk_ok cs \<and>
     (case sp_state st of
        HeaderStart \<Rightarrow> sp_dataleft st = 0 \<and> R = chunk_encode cs \<and> out = concat cs
      | HeaderSize \<Rightarrow> \<exists>c. chunk_ok c \<and> sp_dataleft st = 0 \<and>
          R = show_nat (length c) @ [CHR 0x0A] @ c @ chunk_encode cs \<and> out = c @ concat cs
      | Data \<Rightarrow> \<exists>d. d \<noteq> [] \<and> sp_dataleft st = length d \<and>
          R = d @ chunk_encode cs \<and> out = d @ concat cs
      | EndOfChunks \<Rightarrow> False))"

text \<open>What one call of the split function achieves from offset \<open>a\<close> of the window \<open>b\<close>.\<close>

definition split_ok :: "string \<Rightarrow> bool \<Rightarrow> string \<Rightarrow> string \<Rightarrow> nat \<times> string \<times> bool \<times> split_state \<Rightarrow> bool" where
  "split_ok b atEOF rest out r \<longleftrightarrow> (case r of (adv, token, err, st') \<Rightarrow>
     \<not> err \<and> adv \<le> length b \<and>
     (\<exists>out'. out = token @ out' \<and> pending st' (drop adv b @ rest) out' \<and>
        (token = [] \<longrightarrow> (if atEOF then drop adv b = [] else length b - adv < 11))))"

lemma split_ok_wait:
  "pending st (drop a b @ rest) out \<Longrightarrow> a \<le> length b \<Longrightarrow> length b - a < 11 \<Longrightarrow>
   split_ok b False rest out (a, [], False, st)"
  by (simp add: split_ok_def)

lemma pending_nonempty:
  "pending st R out \<Longrightarrow> sp_state st \<noteq> HeaderStart \<Longrightarrow> R \<noteq> []"
  by (cases "sp_state st") (auto simp: pending_def)

lemma split_ok_not_ready:
  assumes "pending st (drop a b @ rest) out" "sp_state st \<noteq> HeaderStart" "a \<le> length b"
    "atEOF \<longrightarrow> rest = []" "\<not> loop_ready b atEOF a"
  shows "split_ok b atEOF rest out (split_loop b atEOF a st)"
proof -
  have "\<not> atEOF" using pending_nonempty[OF assms(1,2)] assms(4,5) by (auto simp: loop_ready_def)
  then show ?thesis
    using assms by (cases "a < length b")
      (auto simp: loop_ready_def split_loop_short split_loop_stop split_exit_def intro!: split_ok_wait)
qed

lemma split_ok_Data:
  assumes "pending st (drop a b @ rest) out" "sp_state st = Data" "a \<le> length b" "atEOF \<longrightarrow> rest = []"
  shows "split_ok b atEOF rest out (split_loop b atEOF a st)"
proof (cases "loop_ready b atEOF a")
  case False
  with assms show ?thesis by (intro split_ok_not_ready) auto
next
  case ready: True
  then have a: "a < length b" by (simp add: loop_ready_def)
  obtain d cs where d: "d \<noteq> []" "sp_dataleft st = length d" "list_all chunk_ok cs"
    "drop a b @ rest = d @ chunk_encode cs" "out = d @ concat cs"
    using assms(1,2) by (auto simp: pending_def)
  let ?r = "min (length b - a) (length d)"
  have r: "0 < ?r" using a d(1) by simp
  have tok: "take ?r (drop a b) = take ?r d"
    using arg_cong[OF d(4), of "take ?r"] by simp
  have rest': "drop (a + ?r) b @ rest = drop ?r d @ chunk_encode cs"
    using arg_cong[OF d(4), of "drop ?r"] by (simp add: add.commute)
  have out': "out = take ?r d @ (drop ?r d @ concat cs)" using d(5) by simp
  show ?thesis
  proof (cases "length d \<le> length b - a")
    case True
    then have "pending (st\<lparr>sp_dataleft := 0, sp_state := HeaderStart, sp_cs := sp_cs st + 1\<rparr>)
        (drop (a + ?r) b @ rest) (drop ?r d @ concat cs)"
      unfolding rest' using d(3) by (auto simp: pending_def)
    with True a d(1,2) out' tok show ?thesis
      unfolding split_loop_Data[OF ready assms(2)]
      by (auto simp: split_ok_def Let_def intro!: exI[of _ "concat cs"])
  next
    case False
    then have "pending (st\<lparr>sp_dataleft := length d - ?r\<rparr>) (drop (a + ?r) b @ rest) (drop ?r d @ concat cs)"
      unfolding rest' using d(3) assms(2) by (auto simp: pending_def)
    with False a d(1,2) out' tok show ?thesis
      unfolding split_loop_Data[OF ready assms(2)]
      by (auto simp: split_ok_def Let_def intro!: exI[of _ "drop ?r d @ concat cs"])
  qed
qed

lemma Index_newline_here:
  "CHR 0x0A \<notin> set ds \<Longrightarrow> Index (ds @ CHR 0x0A # r) [CHR 0x0A] = Some (length ds)"
  by (induction ds) auto

lemma Index_newline_absent: "CHR 0x0A \<notin> set ds \<Longrightarrow> Index ds [CHR 0x0A] = None"
  by (induction ds) auto

lemma split_ok_HeaderSize:
  assumes "pending st (drop a b @ rest) out" "sp_state st = HeaderSize" "a \<le> length b" "atEOF \<longrightarrow> rest = []"
  shows "split_ok b atEOF rest out (split_loop b atEOF a st)"
proof (cases "loop_ready b atEOF a")
  case False
  with assms show ?thesis by (intro split_ok_not_ready) auto
next
  case ready: True
  obtain c cs where c: "chunk_ok c" "list_all chunk_ok cs" "out = c @ concat cs" "sp_dataleft st = 0"
    "drop a b @ rest = show_nat (length c) @ [CHR 0x0A] @ c @ chunk_encode cs"
    using assms(1,2) by (auto simp: pending_def)
  let ?ds = "show_nat (length c)" and ?cur = "drop a b"
  have len: "length ?ds \<le> 10" using c(1) by (intro show_nat_length) (auto simp: chunk_ok_def)
  show ?thesis
  proof (cases "length ?cur \<le> length ?ds")
    case True
    have "?cur = take (length ?cur) ?ds"
      using arg_cong[OF c(5), of "take (length ?cur)"] True by simp
    then have "CHR 0x0A \<notin> set ?cur" using show_nat_no_newline[of "length c"] by (metis in_set_takeD)
    then have "Index ?cur [CHR 0x0A] = None" by (rule Index_newline_absent)
    moreover have "\<not> atEOF"
    proof
      assume atEOF
      with c(5) assms(4) have "length ?cur = length (?ds @ [CHR 0x0A] @ c @ chunk_encode cs)" by simp
      with True show False by simp
    qed
    ultimately show ?thesis
      using True len assms unfolding split_loop_HeaderSize[OF ready assms(2)]
      by (auto simp: Let_def intro!: split_ok_wait)
  next
    case False
    obtain r where r: "?cur = ?ds @ CHR 0x0A # r"
    proof -
      have "take (Suc (length ?ds)) ?cur = ?ds @ [CHR 0x0A]"
        using arg_cong[OF c(5), of "take (Suc (length ?ds))"] False by simp
      then show ?thesis
        using that[of "drop (Suc (length ?ds)) ?cur"] append_take_drop_id[of "Suc (length ?ds)" ?cur] by simp
    qed
    let ?a = "a + length ?ds + 1"
      and ?st = "st\<lparr>sp_dataleft := length c, sp_state := Data\<rparr>"
    have idx: "Index ?cur [CHR 0x0A] = Some (length ?ds)"
      unfolding r using show_nat_no_newline by (rule Index_newline_here)
    have "ParseUint31 (take (length ?ds) ?cur) = Some (length c)"
      using c(1) by (simp add: r ParseUint31_show_nat chunk_ok_def)
    then have eq: "split_loop b atEOF a st = split_loop b atEOF ?a ?st"
      using idx len unfolding split_loop_HeaderSize[OF ready assms(2)] by (simp add: Let_def)
    have "drop ?a b = r" using arg_cong[OF r, of "drop (length ?ds + 1)"] by (simp add: add.commute)
    then have "pending ?st (drop ?a b @ rest) out"
      using c r by (auto simp: pending_def chunk_ok_def)
    then show ?thesis unfolding eq
      by (rule split_ok_Data) (use False assms in auto)
  qed
qed

lemma split_ok_HeaderStart:
  assumes "pending st (drop a b @ rest) out" "sp_state st = HeaderStart" "a \<le> length b" "atEOF \<longrightarrow> rest = []"
  shows "split_ok b atEOF rest out (split_loop b atEOF a st)"
proof (cases "loop_ready b atEOF a")
  case False
  have "sp_dataleft st = 0" using assms(1,2) by (auto simp: pending_def)
  with False assms show ?thesis
    by (cases "a < length b")
      (auto simp: loop_ready_def split_loop_short split_loop_stop split_exit_def split_ok_def)
next
  case ready: True
  then have a: "a < length b" by (simp add: loop_ready_def)
  obtain cs0 where cs0: "list_all chunk_ok cs0" "out = concat cs0" "sp_dataleft st = 0"
    "drop a b @ rest = chunk_encode cs0"
    using assms(1,2) by (auto simp: pending_def)
  with a obtain c cs where cs: "cs0 = c # cs" "chunk_ok c" "list_all chunk_ok cs"
    by (cases cs0) auto
  let ?cur = "drop a b" and ?ds = "show_nat (length c)"
  have R: "?cur @ rest = [CHR 0x0A] @ ''#'' @ ?ds @ [CHR 0x0A] @ c @ chunk_encode cs"
    using cs0(4) cs(1) by simp
  obtain d0 dr where ds: "?ds = d0 # dr" by (cases ?ds) auto
  have c1: "0 < length c" using cs(2) by (simp add: chunk_ok_def)
  have "4 \<le> length ?cur"
  proof (cases atEOF)
    case True
    have "4 \<le> length ([CHR 0x0A] @ ''#'' @ ?ds @ [CHR 0x0A] @ c @ chunk_encode cs)"
      using c1 by (cases c) simp_all
    with True assms(4) R show ?thesis by simp
  next
    case False
    with ready show ?thesis by (simp add: loop_ready_def)
  qed
  then have "take 3 ?cur = take 3 (?cur @ rest)" by simp
  also have "\<dots> = [CHR 0x0A, CHR ''#'', hd ?ds]" unfolding R ds by (simp add: numeral_eq_Suc)
  finally have t3: "take 3 ?cur = [CHR 0x0A, CHR ''#'', hd ?ds]" .
  have pre: "HasPrefix ?cur ([CHR 0x0A] @ ''#'')"
    using arg_cong[OF t3, of "take 2"] by (simp add: HasPrefix_take numeral_2_eq_2)
  have third: "?cur ! 2 = hd ?ds" using arg_cong[OF t3, of "\<lambda>x. x ! 2"] by simp
  have hd: "hd ?ds \<in> set ''123456789''" using show_nat_hd[OF c1] .
  then have neq: "hd ?ds \<noteq> CHR ''#''" by auto
  have eq: "split_loop b atEOF a st = split_loop b atEOF (a + 2) (st\<lparr>sp_state := HeaderSize\<rparr>)"
    unfolding split_loop_HeaderStart[OF ready assms(2)] Let_def third
    using pre hd neq \<open>4 \<le> length ?cur\<close> by simp
  have "drop (a + 2) b @ rest = ?ds @ [CHR 0x0A] @ c @ chunk_encode cs"
    using arg_cong[OF R, of "drop 2"] \<open>4 \<le> length ?cur\<close> by (simp add: add.commute)
  then have "pending (st\<lparr>sp_state := HeaderSize\<rparr>) (drop (a + 2) b @ rest) out"
    using cs cs0 by (auto simp: pending_def)
  then show ?thesis unfolding eq
    by (rule split_ok_HeaderSize) (use \<open>4 \<le> length ?cur\<close> assms in auto)
qed

lemma SplitChunked_ok:
  assumes "pending st (b @ rest) out" "atEOF \<longrightarrow> rest = []"
  shows "split_ok b atEOF rest out (SplitChunked st b atEOF)"
proof -
  have "pending st (drop 0 b @ rest) out" using assms(1) by simp
  then show ?thesis unfolding SplitChunked_def
    using assms(2) split_ok_Data[of st 0 b rest out atEOF] split_ok_HeaderSize[of st 0 b rest out atEOF]
      split_ok_HeaderStart[of st 0 b rest out atEOF]
    by (cases "sp_state st") (auto simp: pending_def)
qed

text \<open>The scanner keeps its 16-byte buffer: what it cannot split yet is always shorter than that.\<close>

definition scan_inv :: "scanner \<Rightarrow> bool" where
  "scan_inv sc \<longleftrightarrow> sc_buflen sc = 16 \<and> sc_start sc + length (sc_win sc) \<le> 16 \<and> (sc_err sc \<longrightarrow> sc_rest sc = [])"

lemma scan_refill_ok:
  assumes "scan_inv sc" "length (sc_win sc) < 11" "\<not> sc_err sc"
  obtains sc' where "scan_grow (scan_shift sc) = Some sc'" "scan_inv (scan_read sc')"
    "sc_win (scan_read sc') @ sc_rest (scan_read sc') = sc_win sc @ sc_rest sc"
    "sc_split (scan_read sc') = sc_split sc"
proof -
  let ?s = "scan_shift sc"
  have s: "sc_buflen ?s = 16" "sc_start ?s + length (sc_win ?s) < 16" "sc_win ?s = sc_win sc"
    "sc_rest ?s = sc_rest sc" "sc_split ?s = sc_split sc" "\<not> sc_err ?s"
    using assms by (auto simp: scan_shift_def scan_inv_def Let_def)
  then have "scan_grow ?s = Some ?s" by (simp add: scan_grow_def)
  then show ?thesis
    by (rule that) (use s in \<open>auto simp: scan_read_def scan_inv_def Let_def min_def split: if_splits\<close>)
qed

lemma scan_loop_delivers:
  "scan_inv sc \<Longrightarrow> pending (sc_split sc) (sc_win sc @ sc_rest sc) out \<Longrightarrow> scan_loop sc got = got @ out"
proof (induction "scan_measure sc" arbitrary: sc got out rule: less_induct)
  case less
  obtain adv token err st' where r:
    "(if sc_win sc \<noteq> [] \<or> sc_err sc then SplitChunked (sc_split sc) (sc_win sc) (sc_err sc)
      else (0, [], False, sc_split sc)) = (adv, token, err, st')"
    by (cases rule: prod_cases4)
  let ?sc = "sc\<lparr>sc_start := sc_start sc + adv, sc_win := drop adv (sc_win sc), sc_split := st'\<rparr>"
  have "split_ok (sc_win sc) (sc_err sc) (sc_rest sc) out (adv, token, err, st')"
  proof (cases "sc_win sc \<noteq> [] \<or> sc_err sc")
    case True
    with r SplitChunked_ok[of "sc_split sc" "sc_win sc" "sc_rest sc" out "sc_err sc"] less.prems
    show ?thesis by (auto simp: scan_inv_def)
  next
    case False
    with r less.prems show ?thesis by (auto simp: split_ok_def)
  qed
  then obtain out' where ok: "\<not> err" "adv \<le> length (sc_win sc)" "out = token @ out'"
    "pending st' (drop adv (sc_win sc) @ sc_rest sc) out'"
    "token = [] \<longrightarrow> (if sc_err sc then drop adv (sc_win sc) = [] else length (sc_win sc) - adv < 11)"
    by (auto simp: split_ok_def)
  have inv: "scan_inv ?sc" using less.prems(1) ok(2) by (auto simp: scan_inv_def)
  have step: "scan_loop sc got = (if token \<noteq> [] then scan_loop ?sc (got @ token)
      else if sc_err sc then got
      else case scan_grow (scan_shift ?sc) of None \<Rightarrow> got | Some sc2 \<Rightarrow> scan_loop (scan_read sc2) got)"
    using r ok(1) by (subst scan_loop.simps) (simp add: Let_def)
  show ?case
  proof (cases "token = []")
    case False
    then have "0 < adv" using r SplitChunked_progress by (auto split: if_splits)
    then have "scan_measure ?sc < scan_measure sc" using ok(2) by (simp add: scan_measure_def)
    from less.hyps[OF this inv, of out' "got @ token"] False ok step show ?thesis by simp
  next
    case empty: True
    show ?thesis
    proof (cases "sc_err sc")
      case True
      then have "out' = []" using ok(4,5) empty less.prems(1)
        by (cases "sp_state st'") (auto simp: pending_def scan_inv_def dest!: sym[of "[]"] elim!: chunk_encode.elims)
      with True empty ok(3) step show ?thesis by simp
    next
      case False
      then obtain sc2 where sc2: "scan_grow (scan_shift ?sc) = Some sc2" "scan_inv (scan_read sc2)"
        "sc_win (scan_read sc2) @ sc_rest (scan_read sc2) = drop adv (sc_win sc) @ sc_rest sc"
        "sc_split (scan_read sc2) = st'"
        using scan_refill_ok[OF inv] ok(5) empty by auto
      have "scan_measure (scan_read sc2) < scan_measure sc2"
        using scan_refill_fields[OF sc2(1)] False by (intro scan_read_measure) simp
      also have "\<dots> \<le> scan_measure sc" using scan_refill_fields[OF sc2(1)] by (simp add: scan_measure_def)
      finally have "scan_loop (scan_read sc2) got = got @ out'"
        using sc2 ok(4) by (intro less.hyps) auto
      with False empty ok(3) step sc2(1) show ?thesis by simp
    qed
  qed
qed

lemma Chunked_encode: "list_all chunk_ok cs \<Longrightarrow> Chunked (chunk_encode cs) = concat cs"
  unfolding Chunked_def
  by (subst scan_loop_delivers[where out = "concat cs"])
    (auto simp: scan_inv_def pending_def split_init_def)

section \<open>What is sent is what is received\<close>

text \<open>
  The condition on a payload: in the framed message the separator occurs at the end and nowhere
  before. XML text satisfies it unless it holds the separator itself.
\<close>

definition separator_last :: "string \<Rightarrow> string \<Rightarrow> bool" where
  "separator_last version data \<longleftrightarrow>
     Index (Send_frame version data) (rx_separator version) =
       Some (length (Send_frame version data) - length (rx_separator version))"

lemma Send_frame_parts:
  obtains body where "Send_frame version data = body @ rx_separator version"
    and "version = ''v1.1'' \<longrightarrow> body = chunk_encode [data]" and "version \<noteq> ''v1.1'' \<longrightarrow> body = data"
  by (cases "version = ''v1.1''") (auto simp: Send_frame_def rx_separator_def)

text \<open>
  C23: a message that \<open>Send\<close> frames is returned unchanged by \<open>Receive\<close>, in both protocol versions,
  for every way the reads may cut the bytes into pieces not shorter than the separator less one
  byte, provided the separator does not occur inside the framed payload and, in version 1.1, the
  payload is not empty and shorter than \<open>2 ^ 31\<close> bytes.
\<close>

theorem Receive_Send:
  assumes "separator_last version data"
    and "version = ''v1.1'' \<longrightarrow> chunk_ok data"
    and "fragments (rx_separator version) (Send_frame version data) cs"
  shows "Receive version (map ReadData cs @ later) = Done (Inr data)"
proof -
  obtain body where body: "Send_frame version data = body @ rx_separator version"
    "version = ''v1.1'' \<longrightarrow> body = chunk_encode [data]" "version \<noteq> ''v1.1'' \<longrightarrow> body = data"
    by (rule Send_frame_parts)
  have "WaitForBytes (rx_separator version) [] [] (map ReadData cs @ later) = Done (Inr body)"
    using assms(1,3) body(1)
    by (intro WaitForBytes_finds)
      (auto simp: separator_last_def rx_separator_def msgSeparator_def msgSeparatorV11_def)
  moreover have "rx_decode version body = data"
    using assms(2) body(2,3) Chunked_encode[of "[data]"] by (auto simp: rx_decode_def)
  ultimately show ?thesis by (simp add: Receive_def)
qed

theorem Receive_Send_witness:
  "Receive ''v1.1'' (map ReadData [take 9 (Send_frame ''v1.1'' ''<hello/>''), drop 9 (Send_frame ''v1.1'' ''<hello/>'')] @ [])
     = Done (Inr ''<hello/>'')"
  by (rule Receive_Send)
    (simp_all add: separator_last_def Send_frame_def rx_separator_def msgSeparatorV11_def show_nat.simps
      digit_char_def chunk_ok_def fragments_def)

text \<open>
  C38: whether a framed message that has been delivered to its last byte is received depends on its last two
  reads. For every message, in both protocol versions, and every way its bytes are cut into two non-empty
  reads or more: if the last two reads together are at least as long as the separator, the message is
  returned; if they are shorter, so that the separator lies over three reads or more, it is missed, and
  the receiver still waits although it has all the bytes. (As before, the separator does not occur inside
  the framed payload, and in version 1.1 the payload is not empty and shorter than \<open>2 ^ 31\<close> bytes.)
\<close>

theorem WaitForBytes_misses_split_separator:
  assumes "separator_last version data" "version = ''v1.1'' \<longrightarrow> chunk_ok data"
    and "concat (cs @ [a, b]) = Send_frame version data" "[] \<notin> set (cs @ [a, b])"
  shows "if length a + length b < length (rx_separator version)
    then \<exists>out win. Receive version (map ReadData (cs @ [a, b])) = Waiting out win \<and> out @ win = Send_frame version data
    else Receive version (map ReadData (cs @ [a, b])) = Done (Inr data)"
proof -
  let ?sep = "rx_separator version" and ?rs = "map ReadData (cs @ [a, b])"
  obtain body where body: "Send_frame version data = body @ ?sep"
    "version = ''v1.1'' \<longrightarrow> body = chunk_encode [data]" "version \<noteq> ''v1.1'' \<longrightarrow> body = data"
    by (rule Send_frame_parts)
  have first: "Index (body @ ?sep) ?sep = Some (length body)" using assms(1) body(1) by (simp add: separator_last_def)
  have ne: "?sep \<noteq> []" by (simp add: rx_separator_def msgSeparator_def msgSeparatorV11_def)
  have "if length (a @ b) < length ?sep
      then \<exists>o' w'. WaitForBytes ?sep [] [] ?rs = Waiting o' w' \<and> o' @ w' = body @ ?sep
      else WaitForBytes ?sep [] [] ?rs = Done (Inr body)"
    using WaitForBytes_two_reads[OF first ne, of "[]" "[]" "cs @ [a, b]"] assms(3,4) body(1) by (auto simp: butlast_append split: if_splits)
  moreover have "rx_decode version body = data"
    using assms(2) body(2,3) Chunked_encode[of "[data]"] by (auto simp: rx_decode_def)
  ultimately show ?thesis using body(1) by (auto simp: Receive_def split: if_splits)
qed

theorem WaitForBytes_misses_split_separator_witness:
  "\<exists>out win. Receive ''v1.0'' (map ReadData ([''<ok/>'', '']]>''] @ ['']]'', ''>''])) = Waiting out win \<and> out @ win = Send_frame ''v1.0'' ''<ok/>''"
  using WaitForBytes_misses_split_separator[of "''v1.0''" "''<ok/>''" "[''<ok/>'', '']]>'']" "'']]''" "''>''"]
  by (simp add: separator_last_def Send_frame_def rx_separator_def msgSeparator_def)

text \<open>
  C24: a message that the peer cut into any number of chunks is put together again: unchunking the encoded
  chunks gives their concatenation, provided that no chunk is empty and each is shorter than \<open>2 ^ 31\<close>
  bytes. NETCONF 1.1 allows chunks of up to \<open>2 ^ 32 - 1\<close> bytes; the longer ones are outside what the
  splitter parses.
\<close>

theorem Chunked_concat: "list_all chunk_ok cs \<Longrightarrow> Chunked (chunk_encode cs) = concat cs"
  by (rule Chunked_encode)

theorem Chunked_concat_witness: "Chunked (chunk_encode [''<rpc-'', ''reply/>'']) = ''<rpc-reply/>''"
  using Chunked_concat[of "[''<rpc-'', ''reply/>'']"] by (simp add: chunk_ok_def)

lemma split_loop_grows:
  assumes "a \<le> length b" "split_loop b e a st = (adv, token, err, st')"
  shows "a \<le> adv"
  using split_loop_progress[OF assms(1), of e st] assms(2) by (simp add: split_progress_def)

lemma HeaderStart_consumes:
  assumes "sp_state st = HeaderStart" "b \<noteq> []" "split_loop b True 0 st = (adv, token, False, st')"
  shows "0 < adv"
proof -
  have ready: "loop_ready b True 0" using assms(2) by (simp add: loop_ready_def)
  show ?thesis
    using assms(3) split_loop_grows[of 2 b True "st\<lparr>sp_state := HeaderSize\<rparr>" adv token False st']
      split_loop_grows[of 3 b True "st\<lparr>sp_state := EndOfChunks\<rparr>" adv token False st']
    unfolding split_loop_HeaderStart[OF ready assms(1)]
    by (auto simp: Let_def split_exit_def numeral_2_eq_2 numeral_3_eq_3 split: if_splits)
qed

lemma SplitChunked_consumes:
  assumes "b \<noteq> []" "split_loop b True 0 st = (adv, token, False, st')"
  shows "0 < adv"
proof -
  have ready: "loop_ready b True 0" using assms(1) by (simp add: loop_ready_def)
  show ?thesis
  proof (cases "sp_state st")
    case HeaderStart then show ?thesis using HeaderStart_consumes assms by blast
  next
    case HeaderSize
    obtain idx n where idx: "Index b [CHR 0x0A] = Some idx"
      and run: "split_loop b True (idx + 1) (st\<lparr>sp_dataleft := n, sp_state := Data\<rparr>) = (adv, token, False, st')"
      using assms(2) unfolding split_loop_HeaderSize[OF ready HeaderSize]
      by (auto simp: Let_def split_exit_def split: option.splits if_splits)
    show ?thesis using split_loop_grows[OF _ run] Index_single_less[OF idx] by simp
  next
    case Data
    show ?thesis
    proof (cases "sp_dataleft st = 0")
      case True
      then show ?thesis using assms unfolding split_loop_Data[OF ready Data]
        by (auto simp: Let_def intro: HeaderStart_consumes[rotated -1])
    next
      case False
      then show ?thesis using assms unfolding split_loop_Data[OF ready Data] by (auto simp: Let_def)
    qed
  next
    case EndOfChunks
    have "split_loop b True 1 (st\<lparr>sp_state := HeaderStart\<rparr>) = (adv, token, False, st')"
      using assms(2) unfolding split_loop_EndOfChunks[OF ready EndOfChunks] by (auto simp: split_exit_def split: if_splits)
    from split_loop_grows[OF _ this] assms(1) show ?thesis by (cases b) auto
  qed
qed

text \<open>
  C25: the split function of the chunk decoder keeps the rules on which the termination of the loop in
  \<open>Chunked\<close> rests: it never claims more bytes than it was given, a token it returns has consumed some,
  and at the end of the input every call on a rest that is not empty consumes some of it or reports an
  error. So each turn of the loop shortens the input or ends it.
\<close>

theorem SplitChunked_advances:
  assumes "SplitChunked st b atEOF = (advance, token, err, st')"
  shows "advance \<le> length b \<and> (token \<noteq> [] \<longrightarrow> 0 < advance) \<and> (atEOF \<and> b \<noteq> [] \<and> \<not> err \<longrightarrow> 0 < advance)"
  using SplitChunked_progress[OF assms] SplitChunked_consumes[of b st advance token st'] assms
  by (auto simp: SplitChunked_def)

theorem SplitChunked_advances_witness:
  "\<exists>advance token err st'. SplitChunked split_init ([CHR 0x0A] @ ''#1'' @ [CHR 0x0A] @ ''x'') True = (advance, token, err, st') \<and>
     advance \<le> 5 \<and> \<not> err \<and> 0 < advance"
proof -
  let ?b = "[CHR 0x0A] @ ''#1'' @ [CHR 0x0A] @ ''x''"
  obtain advance token err st' where r: "SplitChunked split_init ?b True = (advance, token, err, st')"
    by (cases "SplitChunked split_init ?b True") auto
  have "\<not> err" using r
    by (simp add: SplitChunked_def split_init_def split_loop.simps ParseUint31_def digit_val_def split_exit_def Let_def)
  with SplitChunked_advances[OF r] r show ?thesis by auto
qed

end
