(* ===== verification/Transport_SSH.thy ===== *)
theory Transport_SSH
  imports Messages Chunking
begin

text \<open>
  The SSH transport (\<open>netconf/transport\_ssh.go\<close>): dialling with and without a timeout, setting the
  NETCONF subsystem up, writing and reading framed messages, closing. A result that a Go function
  names in its signature keeps its shadowing: where an inner \<open>err :=\<close> hides the outer error, the model
  returns the inner one.
\<close>

definition sshDefaultPort :: nat where
  "sshDefaultPort = 830"

definition sshNetconfSubsystem :: string where
  "sshNetconfSubsystem = ''netconf''"

definition zero_Transport :: Transport where
  "zero_Transport = \<lparr>tp_version = [], tp_sshClient = None, tp_sshSession = None, tp_ReadWriteCloser = None\<rparr>"

section \<open>Reading and writing\<close>

definition Transport_Send :: "'w env \<Rightarrow> Transport \<Rightarrow> string \<Rightarrow> ('w, gerror option) op" where
  "Transport_Send e t data = (case tp_ReadWriteCloser t of None \<Rightarrow> nil_deref
     | Some h \<Rightarrow> (let dataInfo = Send_frame (tp_version t) data in
         gthen (emit (Sent h dataInfo)) (ext (conn_Write e h dataInfo))))"

text \<open>A blocking \<open>Receive\<close>: it blocks for ever if its reads never complete a message nor fail.\<close>

definition Transport_Receive :: "'w env \<Rightarrow> Transport \<Rightarrow> ('w, gerror + string) op" where
  "Transport_Receive e t = (case tp_ReadWriteCloser t of None \<Rightarrow> nil_deref
     | Some h \<Rightarrow> gbind (ext (conn_Reads e h)) (\<lambda>rs.
         case Receive (tp_version t) rs of Done x \<Rightarrow> ret x | Waiting _ _ \<Rightarrow> abort Blocked))"

section \<open>Closing\<close>

definition ssh_client_close :: "'w env \<Rightarrow> Transport \<Rightarrow> ('w, gerror option) op" where
  "ssh_client_close e t = (case tp_sshClient t of None \<Rightarrow> nil_deref | Some c \<Rightarrow> ext (ssh_Client_Close e c))"

definition TransportSSH_Close :: "'w env \<Rightarrow> Transport \<Rightarrow> ('w, gerror option) op" where
  "TransportSSH_Close e t =
     gbind (case tp_sshSession t of None \<Rightarrow> ret None | Some ss \<Rightarrow> ext (ssh_Session_Close e ss)) (\<lambda>err.
       case err of
         Some _ \<Rightarrow> ssh_client_close e t
       | None \<Rightarrow> (case tp_sshClient t of
             Some c \<Rightarrow> ext (ssh_Client_Close e c)
           | None \<Rightarrow> ret (Some (GoError ''no connection to close''))))"

section \<open>Dialling\<close>

definition setupSession :: "'w env \<Rightarrow> Transport \<Rightarrow> ('w, Transport \<times> gerror option) op" where
  "setupSession e t = (case tp_sshClient t of None \<Rightarrow> nil_deref | Some c \<Rightarrow>
     gbind (ext (ssh_NewSession e c)) (\<lambda>r. case r of
       Inl err \<Rightarrow> ret (t\<lparr>tp_sshSession := None\<rparr>, Some err)
     | Inr ss \<Rightarrow> (let t1 = t\<lparr>tp_sshSession := Some ss\<rparr> in
         gbind (ext (ssh_StdinPipe e ss)) (\<lambda>err1. case err1 of Some x \<Rightarrow> ret (t1, Some x) | None \<Rightarrow>
         gbind (ext (ssh_StdoutPipe e ss)) (\<lambda>err2. case err2 of Some x \<Rightarrow> ret (t1, Some x) | None \<Rightarrow>
           (let t2 = t1\<lparr>tp_ReadWriteCloser := Some ss\<rparr> in
            gbind (ext (ssh_RequestSubsystem e ss sshNetconfSubsystem)) (\<lambda>err3. ret (t2, err3))))))))"

definition default_port :: "string \<Rightarrow> string" where
  "default_port target =
     (if \<not> Contains target '':'' then target @ '':'' @ show_nat sshDefaultPort else target)"

definition TransportSSH_Dial :: "'w env \<Rightarrow> Transport \<Rightarrow> string \<Rightarrow> ClientConfig \<Rightarrow> ('w, Transport \<times> gerror option) op" where
  "TransportSSH_Dial e t target config =
     gbind (ext (ssh_Dial e ''tcp'' (default_port target) config)) (\<lambda>r. case r of
       Inl err \<Rightarrow> ret (t\<lparr>tp_sshClient := None\<rparr>, Some err)
     | Inr c \<Rightarrow> setupSession e (t\<lparr>tp_sshClient := Some c\<rparr>))"

definition connToTransport :: "'w env \<Rightarrow> handle \<Rightarrow> ClientConfig \<Rightarrow> ('w, gerror + Transport) op" where
  "connToTransport e conn config =
     gbind (ext (ssh_NewClientConn e conn config)) (\<lambda>r. case r of
       Inl err \<Rightarrow> ret (Inl err)
     | Inr c \<Rightarrow> gbind (setupSession e (zero_Transport\<lparr>tp_sshClient := Some c\<rparr>)) (\<lambda>(t, err).
         case err of Some x \<Rightarrow> ret (Inl x) | None \<Rightarrow> ret (Inr t)))"

section \<open>Frame\<close>

lemmas Transport_defs = Transport_Send_def Transport_Receive_def ssh_client_close_def
  TransportSSH_Close_def setupSession_def TransportSSH_Dial_def connToTransport_def

lemma keeps_wait_result [go_pres]:
  "(\<And>x. keeps I (f x)) \<Longrightarrow> (\<And>a b. keeps I (g a b)) \<Longrightarrow>
   keeps I (case r of Done x \<Rightarrow> f x | Waiting a b \<Rightarrow> g a b)"
  by (cases r) auto

text \<open>
  The transport changes the world and, when it sends, the trace; nothing else of the operator.
\<close>

lemma keeps_Transport [go_pres]:
  assumes "\<And>s w. I s \<Longrightarrow> I (s\<lparr>world := w\<rparr>)"
  shows "keeps I (Transport_Receive e t)" "keeps I (ssh_client_close e t)" "keeps I (TransportSSH_Close e t)"
    "keeps I (setupSession e t)" "keeps I (TransportSSH_Dial e t tgt cfg)" "keeps I (connToTransport e h cfg)"
  unfolding Transport_defs by (intro go_pres assms; assumption)+

lemma keeps_Transport_Send [go_pres]:
  assumes "\<And>s w. I s \<Longrightarrow> I (s\<lparr>world := w\<rparr>)" "\<And>s x. I s \<Longrightarrow> I (s\<lparr>trace := trace s @ [x]\<rparr>)"
  shows "keeps I (Transport_Send e t d)"
  unfolding Transport_defs by (intro go_pres assms; assumption)+

lemma Transport_Send_returns:
  assumes "tp_ReadWriteCloser t = Some h"
  obtains err w where "Transport_Send e t d s =
    (Ret err, s\<lparr>trace := trace s @ [Sent h (Send_frame (tp_version t) d)], world := w\<rparr>)"
proof -
  obtain err w where "conn_Write e h (Send_frame (tp_version t) d) (world s) = (err, w)" by fastforce
  then show ?thesis
    using assms that[of err w] by (simp add: Transport_Send_def emit_def ext_def Let_def)
qed

end
