(* ===== verification/Netconf_Session.thy ===== *)
theory Netconf_Session
  imports Transport_SSH
begin

text \<open>
  NETCONF sessions (\<open>netconf/session.go\<close>, \<open>netconf/operations.go\<close>, the dispatching half of
  \<open>netconf/events.go\<close>, the two dialling functions of \<open>netconf/transport\_ssh.go\<close>) and the delivery of
  notifications (\<open>SendToKafka\<close> of \<open>controllers/common.go\<close> and the two subscription callbacks).

  A caller of \<open>SyncRPC\<close> registers a callback, sends the request and waits; while it waits the session's
  listener goroutine processes the reads the world delivers in that time, one message after the other.
  The wait ends with the reply that was put into the caller's channel, or with a timeout. When both are
  ready at the same moment, the \<open>select\<close> of the program may take either; the model takes the reply. The
  entry \<open>Sent\<close> of the trace records the call of \<open>Write\<close>, also of one that returns an error.
\<close>

section \<open>Delivering notifications\<close>

definition SendToKafka :: "'w env \<Rightarrow> string \<Rightarrow> KafkaSink \<Rightarrow> ('w, gerror option) op" where
  "SendToKafka e message kafkaSync =
     gbind (ext (kafka_DialLeader e (ks_TransportType kafkaSync) (ks_Broker kafkaSync) (ks_Topic kafkaSync)
       (ks_Partition kafkaSync))) (\<lambda>r. case r of
         Inl err \<Rightarrow> abort (Fatal (''failed to dial leader:'' @ Error err))
       | Inr conn \<Rightarrow>
         gbind (ext (kafka_SetWriteDeadline e conn 10000000000)) (\<lambda>err1. case err1 of
             Some x \<Rightarrow> ret (Some (GoError (''timeout writing message '' @ Error x)))
           | None \<Rightarrow>
         gbind (ext (kafka_WriteMessages e conn message)) (\<lambda>err2. case err2 of
             Some x \<Rightarrow> ret (Some (GoError (''failed to write messages '' @ Error x)))
           | None \<Rightarrow> gthen (emit (KafkaMessage kafkaSync message))
         (gbind (ext (kafka_Close e conn)) (\<lambda>err3. case err3 of
             Some x \<Rightarrow> ret (Some (GoError (''failed to close writer '' @ Error x)))
           | None \<Rightarrow> ret None)))))"

text \<open>\<open>recorder.Eventf(obj, type, reason, format)\<close> with a format and no operands.\<close>

definition Eventf :: "'w env \<Rightarrow> string \<Rightarrow> 'spec cr \<Rightarrow> string \<Rightarrow> string \<Rightarrow> string \<Rightarrow> ('w, unit) op" where
  "Eventf e recorder obj eventtype reason messageFmt =
     emit (Event recorder (om_Namespace (cr_Meta obj)) (om_Name (cr_Meta obj)) eventtype reason
       (fmt_Sprintf e messageFmt))"

text \<open>The closure of \<open>CreateSubscriptionReconciler.manageOperatorLogic\<close>.\<close>

definition createSubscription_callback ::
    "'w env \<Rightarrow> string \<Rightarrow> CreateSubscription \<Rightarrow> event \<Rightarrow> ('w, unit) op" where
  "createSubscription_callback e recorder obj ev =
     (case event_Notification ev of
        None \<Rightarrow> nil_deref
      | Some notification \<Rightarrow>
          if ks_Enabled (cs_KafkaSink (cr_Spec obj)) then
            gthen (SendToKafka e (no_RawReply notification) (cs_KafkaSink (cr_Spec obj))) (ret ())
          else Eventf e recorder obj ''Normal'' ''NewCreateSubscriptionNotification''
                 (no_RawReply notification))"

text \<open>The closure of \<open>EstablishSubscriptionReconciler.manageOperatorLogic\<close>.\<close>

definition establishSubscription_callback ::
    "'w env \<Rightarrow> string \<Rightarrow> EstablishSubscription \<Rightarrow> event \<Rightarrow> ('w, unit) op" where
  "establishSubscription_callback e recorder obj ev =
     (case event_Notification ev of
        None \<Rightarrow> nil_deref
      | Some notification \<Rightarrow>
          if ks_Enabled (es_KafkaSink (cr_Spec obj)) then
            gthen (SendToKafka e (no_RawReply notification) (es_KafkaSink (cr_Spec obj))) (ret ())
          else Eventf e recorder obj ''Normal'' ''NewEstablishSubscriptionNotification''
                 (no_RawReply notification))"

text \<open>The closure of \<open>SyncRPC\<close>: it sends the reply into a channel of capacity one.\<close>

definition syncRPC_callback :: "nat \<Rightarrow> event \<Rightarrow> ('w, unit) op" where
  "syncRPC_callback ch ev =
     (case event_RPCReply ev of
        None \<Rightarrow> nil_deref
      | Some r \<Rightarrow> gbind (gets chans) (\<lambda>c.
          if c ch \<noteq> None then abort Blocked
          else modify (\<lambda>s. s\<lparr>chans := (chans s)(ch \<mapsto> r)\<rparr>)))"

fun run_callback :: "'w env \<Rightarrow> callback \<Rightarrow> event \<Rightarrow> ('w, unit) op" where
  "run_callback e (CbReply ch) ev = syncRPC_callback ch ev"
| "run_callback e (CbCreateSubscription recorder obj) ev = createSubscription_callback e recorder obj ev"
| "run_callback e (CbEstablishSubscription recorder obj) ev = establishSubscription_callback e recorder obj ev"

section \<open>Dispatching\<close>

definition on_Listener :: "(callback Dispatcher \<Rightarrow> callback Dispatcher) \<Rightarrow> Session \<Rightarrow> Session" where
  "on_Listener f x = x\<lparr>se_Listener := f (se_Listener x)\<rparr>"

definition Dispatch :: "'w env \<Rightarrow> sref \<Rightarrow> string \<Rightarrow> nat \<Rightarrow> event_value \<Rightarrow> ('w, unit) op" where
  "Dispatch e sid eventID eventType value =
     gbind (session_at (Some sid)) (\<lambda>x.
       case callbacks (se_Listener x) eventID of
         None \<Rightarrow> ret ()
       | Some callback \<Rightarrow>
           gthen (run_callback e callback \<lparr>ev_eventID = eventID, ev_value = value\<rparr>)
             (gbind (EventType_String eventType) (\<lambda>t.
                if t = ''rpc-reply'' then update_session sid (on_Listener (Remove eventID))
                else ret ())))"

section \<open>The listener\<close>

text \<open>What the loop body of \<open>listen\<close> does with the result of one \<open>Receive\<close>.\<close>

definition listen_message :: "'w env \<Rightarrow> sref \<Rightarrow> gerror + string \<Rightarrow> ('w, unit) op" where
  "listen_message e sid received = (case received of
     Inl err \<Rightarrow> ret ()
   | Inr rawXML \<Rightarrow>
       if Contains rawXML ''<rpc-reply'' then
         (case NewRPCReply e rawXML of
            Inl err \<Rightarrow> ret ()
          | Inr rpcReply \<Rightarrow> Dispatch e sid (re_MessageID rpcReply) 0 (ReplyValue rpcReply))
       else if Contains rawXML ''<notification'' then
         (case NewNotification e rawXML of
            Inl err \<Rightarrow> ret ()
          | Inr notification \<Rightarrow>
              if GetSubscriptionID notification = [] then
                Dispatch e sid NetconfNotificationStreamHandler 1 (NotificationValue notification)
              else Dispatch e sid (GetSubscriptionID notification) 1 (NotificationValue notification))
       else ret ())"

text \<open>
  One read of the listener goroutine. A read that completes a \<open>Receive\<close> is handled; then the loop
  condition is tested and the next \<open>Receive\<close> starts afresh. A read that completes nothing only moves
  the window.
\<close>

definition listen_read :: "'w env \<Rightarrow> sref \<Rightarrow> read \<Rightarrow> ('w, unit) op" where
  "listen_read e sid r =
     gbind (session_at (Some sid)) (\<lambda>x.
       if \<not> se_listening x then ret ()
       else (let v = tp_version (se_Transport x) in
         case WaitForBytes_step (rx_separator v) (se_rx_out x) (se_rx_win x) r of
           Waiting out win \<Rightarrow> update_session sid (\<lambda>y. y\<lparr>se_rx_out := out, se_rx_win := win\<rparr>)
         | Done res \<Rightarrow>
             gthen (listen_message e sid (case res of Inl err \<Rightarrow> Inl err | Inr b \<Rightarrow> Inr (rx_decode v b)))
               (update_session sid (\<lambda>y. y\<lparr>se_rx_out := [], se_rx_win := [], se_listening := \<not> se_IsClosed y\<rparr>))))"

section \<open>Synchronous RPCs\<close>

definition xml_Header :: string where
  "xml_Header = ''<?xml version='' @ [CHR 0x22] @ ''1.0'' @ [CHR 0x22] @ '' encoding='' @ [CHR 0x22] @
     ''UTF-8'' @ [CHR 0x22] @ ''?>'' @ [CHR 0x0A]"

definition marshall :: "'w env \<Rightarrow> RPCMethod \<Rightarrow> gerror + string" where
  "marshall e operation = (case xml_Marshal e operation of Inl err \<Rightarrow> Inl err
     | Inr request \<Rightarrow> Inr (xml_Header @ request))"

text \<open>\<open>time.Duration(timeout) * time.Second\<close>, in nanoseconds.\<close>

definition Duration_seconds :: "32 word \<Rightarrow> 64 word" where
  "Duration_seconds t = scast t * 1000000000"

text \<open>Registering a callback for the reply and sending the request; the reply arrives at the callback.\<close>

definition AsyncRPC :: "'w env \<Rightarrow> sref option \<Rightarrow> RPCMethod \<Rightarrow> callback \<Rightarrow> ('w, gerror option) op" where
  "AsyncRPC e session operation callback = (case marshall e operation of
     Inl err \<Rightarrow> ret (Some err)
   | Inr request \<Rightarrow> (case session of None \<Rightarrow> nil_deref | Some sid \<Rightarrow>
       gbind (session_at session) (\<lambda>x.
       gthen (update_session sid (on_Listener (Register (GetMessageID operation) callback)))
       (gbind (Transport_Send e (se_Transport x) request) (\<lambda>err. case err of
          Some er \<Rightarrow> ret (Some er)
        | None \<Rightarrow> ret None)))))"

definition await_reply :: "'w env \<Rightarrow> sref \<Rightarrow> handle \<Rightarrow> 32 word \<Rightarrow> ('w, unit) op" where
  "await_reply e sid h timeout =
     gbind (ext (wait_Reads e h (Duration_seconds timeout))) (\<lambda>rs. go_each (listen_read e sid) rs)"

definition SyncRPC ::
    "'w env \<Rightarrow> sref option \<Rightarrow> RPCMethod \<Rightarrow> 32 word \<Rightarrow> ('w, RPCReply option \<times> gerror option) op" where
  "SyncRPC e session operation timeout = (case marshall e operation of
     Inl err \<Rightarrow> ret (None, Some err)
   | Inr request \<Rightarrow>
       gbind (gets next_chan) (\<lambda>reply.
       gthen (modify (\<lambda>s. s\<lparr>next_chan := Suc reply\<rparr>))
       (case session of None \<Rightarrow> nil_deref | Some sid \<Rightarrow>
       gbind (session_at session) (\<lambda>x.
       gthen (update_session sid (on_Listener (Register (GetMessageID operation) (CbReply reply))))
       (gbind (Transport_Send e (se_Transport x) request) (\<lambda>err. case err of
          Some er \<Rightarrow> ret (None, Some er)
        | None \<Rightarrow> (case tp_ReadWriteCloser (se_Transport x) of None \<Rightarrow> nil_deref | Some h \<Rightarrow>
            gthen (await_reply e sid h timeout)
              (gbind (gets chans) (\<lambda>c. case c reply of
                 Some res \<Rightarrow> gthen (modify (\<lambda>s. s\<lparr>chans := (chans s)(reply := None)\<rparr>)) (ret (Some res, None))
               | None \<Rightarrow> ret (None, Some (GoError ''timeout while executing request'')))))))))))"

section \<open>Notification streams\<close>

text \<open>How \<open>fmt\<close> prints a slice of \<open>RPCError\<close> structs, and a nil error, with the verb \<open>%s\<close>.\<close>

definition fmt_RPCError :: "RPCError \<Rightarrow> string" where
  "fmt_RPCError x = ''{'' @ er_Type x @ '' '' @ er_Tag x @ '' '' @ er_Severity x @ '' '' @ er_Path x @
     '' '' @ er_Message x @ '' '' @ er_Info x @ ''}''"

fun fmt_join :: "string list \<Rightarrow> string" where
  "fmt_join [] = []"
| "fmt_join [x] = x"
| "fmt_join (x # xs) = x @ '' '' @ fmt_join xs"

definition fmt_RPCErrors :: "RPCError list \<Rightarrow> string" where
  "fmt_RPCErrors xs = ''['' @ fmt_join (map fmt_RPCError xs) @ '']''"

definition CreateNotificationStream ::
    "'w env \<Rightarrow> sref option \<Rightarrow> 32 word \<Rightarrow> string \<Rightarrow> string \<Rightarrow> string \<Rightarrow> callback \<Rightarrow> ('w, gerror option) op" where
  "CreateNotificationStream e session timeout stopTime startTime stream callback =
     gbind (session_at session) (\<lambda>x.
       if se_IsNotificationStreamCreated x then
         ret (Some (GoError (''there is already an active notification stream subscription. '' @
           ''A session can only support one notification stream at the time'')))
       else (case session of None \<Rightarrow> nil_deref | Some sid \<Rightarrow>
         gthen (update_session sid (on_Listener (Register NetconfNotificationStreamHandler callback)))
         (gbind (NewCreateSubscription e stopTime startTime stream) (\<lambda>sub.
          gbind (SyncRPC e session sub timeout) (\<lambda>(rpc, err).
            case (rpc, err) of
              (None, Some _) \<Rightarrow> nil_deref
            | (None, None) \<Rightarrow> nil_deref
            | (Some r, Some x) \<Rightarrow> ret (Some (GoError (''fail to create notification stream with errors: '' @
                fmt_RPCErrors (re_Errors r) @ ''. Error: '' @ Error x)))
            | (Some r, None) \<Rightarrow>
                if length (re_Errors r) \<noteq> 0 then
                  ret (Some (GoError (''fail to create notification stream with errors: '' @
                    fmt_RPCErrors (re_Errors r) @ ''. Error: %!s(<nil>)'')))
                else gthen (update_session sid (\<lambda>y. y\<lparr>se_IsNotificationStreamCreated := True\<rparr>)) (ret None))))))"

section \<open>Opening and closing\<close>

definition ReceiveHello :: "'w env \<Rightarrow> Transport \<Rightarrow> ('w, Hello \<times> gerror option) op" where
  "ReceiveHello e t = gbind (Transport_Receive e t) (\<lambda>r. case r of
     Inl err \<Rightarrow> ret (\<lparr>he_Capabilities = [], he_SessionID = 0\<rparr>, Some err)
   | Inr val \<Rightarrow> ret (xml_Unmarshal_Hello e val))"

definition alloc_session :: "Session \<Rightarrow> ('w, sref) op" where
  "alloc_session x = gbind (gets next_sref) (\<lambda>i.
     gthen (modify (\<lambda>s. s\<lparr>next_sref := Suc i, heap := (heap s)(i \<mapsto> x)\<rparr>)) (ret i))"

definition NewSession :: "'w env \<Rightarrow> Transport \<Rightarrow> ('w, sref) op" where
  "NewSession e t = gbind (ReceiveHello e t) (\<lambda>(serverHello, _).
     alloc_session \<lparr>se_Transport = t, se_SessionID = he_SessionID serverHello,
       se_Capabilities = he_Capabilities serverHello, se_IsClosed = False,
       se_Listener = Dispatcher_init, se_IsNotificationStreamCreated = False,
       se_listening = False, se_rx_out = [], se_rx_win = []\<rparr>)"

definition SetVersion :: "string \<Rightarrow> Session \<Rightarrow> Session" where
  "SetVersion v x = x\<lparr>se_Transport := (se_Transport x)\<lparr>tp_version := v\<rparr>\<rparr>"

definition SendHello :: "'w env \<Rightarrow> sref option \<Rightarrow> Hello \<Rightarrow> ('w, gerror option) op" where
  "SendHello e session hello = (case xml_Marshal_Hello e hello of
     Inl err \<Rightarrow> ret (Some err)
   | Inr val \<Rightarrow>
       gbind (session_at session) (\<lambda>x. case session of None \<Rightarrow> nil_deref | Some sid \<Rightarrow>
       gbind (Transport_Send e (se_Transport x) (xml_Header @ val)) (\<lambda>err.
       gthen (update_session sid (SetVersion
         (if list_ex (\<lambda>capability. Contains capability NetconfVersion11) (se_Capabilities x)
          then ''v1.1'' else ''v1.0'')))
       (gthen (update_session sid (\<lambda>y. y\<lparr>se_listening := True, se_rx_out := [], se_rx_win := []\<rparr>))
       (ret err)))))"

definition Session_Close :: "'w env \<Rightarrow> sref \<Rightarrow> ('w, gerror option) op" where
  "Session_Close e sid =
     gbind (session_at (Some sid)) (\<lambda>x.
       gthen (update_session sid (\<lambda>y. y\<lparr>se_IsClosed := True\<rparr>)) (TransportSSH_Close e (se_Transport x)))"

definition DialSSH :: "'w env \<Rightarrow> string \<Rightarrow> ClientConfig \<Rightarrow> ('w, sref option \<times> gerror option) op" where
  "DialSSH e target config =
     gbind (TransportSSH_Dial e zero_Transport target config) (\<lambda>(t, err). case err of
       Some _ \<Rightarrow> gbind (TransportSSH_Close e t) (\<lambda>err'. case err' of
           Some x \<Rightarrow> ret (None, Some x)
         | None \<Rightarrow> ret (None, None))
     | None \<Rightarrow> gbind (NewSession e t) (\<lambda>i. ret (Some i, None)))"

text \<open>
  The keep-alive goroutine starts with \<open>time.NewTicker(timeout / 2)\<close>, which panics on an interval that
  is not positive; its requests change nothing the program reads.
\<close>

definition DialSSHTimeout ::
    "'w env \<Rightarrow> string \<Rightarrow> ClientConfig \<Rightarrow> 64 word \<Rightarrow> ('w, sref option \<times> gerror option) op" where
  "DialSSHTimeout e target config timeout =
     gbind (ext (net_DialTimeout e ''tcp'' target timeout)) (\<lambda>r. case r of
       Inl err \<Rightarrow> ret (None, Some err)
     | Inr bareConn \<Rightarrow>
         gbind (connToTransport e bareConn config) (\<lambda>r'. case r' of
           Inl err \<Rightarrow> ret (None, Some err)
         | Inr t \<Rightarrow>
             if sint timeout < 2 then abort (Panic ''non-positive interval for NewTicker'')
             else gbind (NewSession e t) (\<lambda>i. ret (Some i, None))))"

end
