(* ===== verification/Session_Laws.thy ===== *)
theory Session_Laws
  imports Netconf_Session
begin

text \<open>
  What the controllers rely on when they use a session. The locale \<open>stable\<close> collects the state
  predicates that neither a listener nor the world can disturb, and \<open>stable_send\<close> those that sending
  a request cannot disturb either; the lemmas that a whole RPC keeps such a predicate are proved once,
  and interpreted for the session table, for the transport of a session, for the heap's shape and for
  the list of requests sent so far.
\<close>

section \<open>Requests sent\<close>

fun is_Sent :: "effect \<Rightarrow> bool" where
  "is_Sent (Sent h d) = True"
| "is_Sent _ = False"

definition sends :: "'w ostate \<Rightarrow> effect list" where
  "sends s = filter is_Sent (trace s)"

text \<open>A change of a session object that keeps what was fixed when the session was opened.\<close>

definition mild :: "(Session \<Rightarrow> Session) \<Rightarrow> bool" where
  "mild f \<longleftrightarrow> (\<forall>x. se_Transport (f x) = se_Transport x \<and> se_Capabilities (f x) = se_Capabilities x \<and>
     se_SessionID (f x) = se_SessionID x)"

lemma mild_intros [simp]:
  "mild (on_Listener f)"
  "mild (\<lambda>y. y\<lparr>se_rx_out := a, se_rx_win := b\<rparr>)"
  "mild (\<lambda>y. y\<lparr>se_rx_out := a, se_rx_win := b, se_listening := \<not> se_IsClosed y\<rparr>)"
  "mild (\<lambda>y. y\<lparr>se_IsNotificationStreamCreated := c\<rparr>)"
  "mild (\<lambda>y. y\<lparr>se_IsClosed := c\<rparr>)"
  by (simp_all add: mild_def on_Listener_def)

section \<open>Predicates a listener cannot disturb\<close>

locale quiet =
  fixes I :: "'w ostate \<Rightarrow> bool"
  assumes st_world: "I s \<Longrightarrow> I (s\<lparr>world := w\<rparr>)"
    and st_note: "I s \<Longrightarrow> \<not> is_Sent x \<Longrightarrow> I (s\<lparr>trace := trace s @ [x]\<rparr>)"
begin

lemma keeps_ext_st: "keeps I (ext f)"
  by (rule keeps_ext) (rule st_world)

lemma keeps_note_st: "\<not> is_Sent x \<Longrightarrow> keeps I (emit x)"
  by (rule keeps_emit) (rule st_note)

lemmas quiet_rules = keeps_ret keeps_abort keeps_nil_deref keeps_gets keeps_gbind keeps_gthen keeps_if
  keeps_option keeps_sum keeps_prod keeps_let keeps_go_each keeps_session_at keeps_wait_result
  keeps_ext_st keeps_note_st

lemma keeps_SendToKafka: "keeps I (SendToKafka e m k)"
  unfolding SendToKafka_def by (intro quiet_rules) simp

lemma keeps_Eventf: "keeps I (Eventf e r obj a b c)"
  unfolding Eventf_def by (intro quiet_rules) simp

lemma keeps_subscription_callbacks:
  "keeps I (createSubscription_callback e r cs ev)"
  "keeps I (establishSubscription_callback e r es ev)"
  unfolding createSubscription_callback_def establishSubscription_callback_def
  by (intro quiet_rules keeps_SendToKafka keeps_Eventf)+

end

locale stable = quiet +
  assumes st_chans: "I s \<Longrightarrow> I (s\<lparr>chans := c\<rparr>)"
    and st_next_chan: "I s \<Longrightarrow> I (s\<lparr>next_chan := n\<rparr>)"
    and st_session: "I s \<Longrightarrow> mild f \<Longrightarrow> I (s\<lparr>heap := (heap s)(i := map_option f (heap s i))\<rparr>)"
begin

lemma keeps_update_session_st: "mild f \<Longrightarrow> keeps I (update_session i f)"
  unfolding update_session_def by (rule keeps_modify) (rule st_session)

lemmas st_rules = quiet_rules keeps_update_session_st

lemma keeps_run_callback: "keeps I (run_callback e cb ev)"
proof (cases cb)
  case (CbReply ch)
  then show ?thesis
    by (simp add: syncRPC_callback_def) (intro st_rules keeps_modify st_chans; assumption)
qed (simp_all add: keeps_subscription_callbacks)

lemma keeps_Dispatch: "keeps I (Dispatch e sid i t v)"
  unfolding Dispatch_def EventType_String_def by (intro st_rules keeps_run_callback) simp

lemma keeps_listen_message: "keeps I (listen_message e sid m)"
  unfolding listen_message_def by (intro st_rules keeps_Dispatch)

lemma keeps_listen_read: "keeps I (listen_read e sid r)"
  unfolding listen_read_def Let_def
  by (intro st_rules keeps_listen_message) simp_all

lemma keeps_await_reply: "keeps I (await_reply e sid h t)"
  unfolding await_reply_def by (intro st_rules keeps_listen_read)

end

text \<open>Predicates that also allow the program to send.\<close>

locale stable_send = stable +
  assumes st_sent: "I s \<Longrightarrow> I (s\<lparr>trace := trace s @ [Sent h d]\<rparr>)"
begin

lemma keeps_Transport_Send_st: "keeps I (Transport_Send e t d)"
proof (rule keeps_Transport_Send)
  fix s and x :: effect
  assume "I s"
  then show "I (s\<lparr>trace := trace s @ [x]\<rparr>)" by (cases x) (auto intro: st_sent st_note)
qed (rule st_world)

lemma keeps_SyncRPC: "keeps I (SyncRPC e r oper t)"
  unfolding SyncRPC_def
  by (intro st_rules keeps_Transport_Send_st keeps_await_reply keeps_modify st_next_chan st_chans; (assumption | simp))

lemma keeps_AsyncRPC: "keeps I (AsyncRPC e r oper cb)"
  unfolding AsyncRPC_def by (intro st_rules keeps_Transport_Send_st; simp)

lemma keeps_CreateNotificationStream: "keeps I (CreateNotificationStream e r t a b c cb)"
  unfolding CreateNotificationStream_def
  by (intro st_rules keeps_SyncRPC keeps_New(10) st_world; (assumption | simp))

end

text \<open>The shape of the heap: the table holds no dangling reference and references are fresh.\<close>

definition heap_wf :: "'w ostate \<Rightarrow> bool" where
  "heap_wf s \<longleftrightarrow> (\<forall>k i. Sessions s k = Some i \<longrightarrow> heap s i \<noteq> None) \<and> (\<forall>i. heap s i \<noteq> None \<longrightarrow> i < next_sref s)"

lemma map_option_upd: "(m(i := map_option f (m i))) j = (if j = i then map_option f (m j) else m j)"
  by simp

interpretation tbl: stable_send "\<lambda>s. Sessions s = X" for X
  by unfold_locales auto

interpretation snt: stable "\<lambda>s. sends s = X" for X
  by unfold_locales (auto simp: sends_def)

interpretation trp: stable_send "\<lambda>s. map_option se_Transport (heap s i) = T" for i T
  by unfold_locales (auto simp: mild_def option.map_comp o_def)

interpretation wfh: stable_send heap_wf
  by unfold_locales (auto simp: heap_wf_def)

section \<open>Results\<close>

text \<open>\<open>yields P m\<close>: every value that \<open>m\<close> returns satisfies \<open>P\<close>.\<close>

definition yields :: "('a \<Rightarrow> bool) \<Rightarrow> ('s, 'a) go \<Rightarrow> bool" where
  "yields P m \<longleftrightarrow> (\<forall>s a t. m s = (Ret a, t) \<longrightarrow> P a)"

named_theorems go_yields

lemma yieldsD: "yields P m \<Longrightarrow> m s = (Ret a, t) \<Longrightarrow> P a"
  by (auto simp: yields_def)

lemma yields_ret [go_yields]: "P a \<Longrightarrow> yields P (ret a)"
  by (simp add: yields_def)

lemma yields_abort [go_yields]: "yields P (abort x)" "yields P nil_deref"
  by (simp_all add: yields_def)

lemma yields_gbind [go_yields]: "(\<And>a. yields P (f a)) \<Longrightarrow> yields P (gbind m f)"
  by (auto simp: yields_def elim!: gbind_RetE)

lemma yields_gthen [go_yields]: "yields P n \<Longrightarrow> yields P (gthen m n)"
  by (auto simp: gthen_def intro: yields_gbind)

lemma yields_cases [go_yields]:
  "yields P m \<Longrightarrow> yields P n \<Longrightarrow> yields P (if b then m else n)"
  "yields P m \<Longrightarrow> (\<And>x. yields P (f x)) \<Longrightarrow> yields P (case y of None \<Rightarrow> m | Some x \<Rightarrow> f x)"
  "(\<And>x. yields P (g x)) \<Longrightarrow> (\<And>x. yields P (h x)) \<Longrightarrow> yields P (case z of Inl x \<Rightarrow> g x | Inr x \<Rightarrow> h x)"
  "(\<And>a b. yields P (k a b)) \<Longrightarrow> yields P (case p of (a, b) \<Rightarrow> k a b)"
  by (cases y; cases z; cases p; simp)+

text \<open>A synchronous RPC returns a reply or an error, never both and never neither.\<close>

lemma SyncRPC_reply_xor_error: "yields (\<lambda>(reply, err). reply = None \<longleftrightarrow> err \<noteq> None) (SyncRPC e r oper t)"
  unfolding SyncRPC_def by (intro go_yields) auto

section \<open>One RPC sends one request\<close>

text \<open>
  The state in which the caller waits: the request is written and its callback is registered under the
  message identifier, on a channel of its own; and what happens from there.
\<close>

definition rpc_sent :: "sref \<Rightarrow> Session \<Rightarrow> handle \<Rightarrow> RPCMethod \<Rightarrow> string \<Rightarrow> 'w \<Rightarrow> 'w ostate \<Rightarrow> 'w ostate" where
  "rpc_sent sid x h oper req w s = s\<lparr>next_chan := Suc (next_chan s),
     heap := (heap s)(sid \<mapsto> on_Listener (Register (GetMessageID oper) (CbReply (next_chan s))) x),
     trace := trace s @ [Sent h (Send_frame (tp_version (se_Transport x)) req)], world := w\<rparr>"

definition rpc_wait :: "'w env \<Rightarrow> sref \<Rightarrow> handle \<Rightarrow> 32 word \<Rightarrow> nat \<Rightarrow> ('w, RPCReply option \<times> gerror option) op" where
  "rpc_wait e sid h t ch = gthen (await_reply e sid h t) (gbind (gets chans) (\<lambda>c. case c ch of
      Some res \<Rightarrow> gthen (modify (\<lambda>s. s\<lparr>chans := (chans s)(ch := None)\<rparr>)) (ret (Some res, None))
    | None \<Rightarrow> ret (None, Some (GoError ''timeout while executing request''))))"

lemma Transport_Send_run:
  assumes "tp_ReadWriteCloser t = Some h" and "conn_Write e h (Send_frame (tp_version t) d) (world s) = (err, w)"
  shows "Transport_Send e t d s = (Ret err, s\<lparr>trace := trace s @ [Sent h (Send_frame (tp_version t) d)], world := w\<rparr>)"
  using assms by (simp add: Transport_Send_def emit_def ext_def Let_def)

lemma SyncRPC_run:
  assumes x: "heap s sid = Some x" and h: "tp_ReadWriteCloser (se_Transport x) = Some h"
    and m: "marshall e oper = Inr req"
    and w: "conn_Write e h (Send_frame (tp_version (se_Transport x)) req) (world s) = (err, w)"
  shows "SyncRPC e (Some sid) oper t s = (case err of
      Some er \<Rightarrow> (Ret (None, Some er), rpc_sent sid x h oper req w s)
    | None \<Rightarrow> rpc_wait e sid h t (next_chan s) (rpc_sent sid x h oper req w s))"
proof -
  let ?s = "s\<lparr>next_chan := Suc (next_chan s),
     heap := (heap s)(sid \<mapsto> on_Listener (Register (GetMessageID oper) (CbReply (next_chan s))) x)\<rparr>"
  have "Transport_Send e (se_Transport x) req ?s = (Ret err, rpc_sent sid x h oper req w s)"
    using Transport_Send_run[OF h, of e req ?s] w by (simp add: rpc_sent_def)
  then show ?thesis
    using x h m
    by (cases err) (simp_all add: SyncRPC_def update_session_def gthen_def rpc_wait_def
        gbind_def[where m = "Transport_Send e (se_Transport x) req"])
qed

lemma SyncRPC_open:
  assumes "heap s sid = Some x" "tp_ReadWriteCloser (se_Transport x) = Some h" "marshall e oper = Inr req"
  obtains (failed) er w where
      "SyncRPC e (Some sid) oper t s = (Ret (None, Some er), rpc_sent sid x h oper req w s)"
  | (waits) w where
      "SyncRPC e (Some sid) oper t s = rpc_wait e sid h t (next_chan s) (rpc_sent sid x h oper req w s)"
proof -
  obtain err w where "conn_Write e h (Send_frame (tp_version (se_Transport x)) req) (world s) = (err, w)" by fastforce
  from SyncRPC_run[OF assms this, of t] show ?thesis using that by (cases err) auto
qed

text \<open>A synchronous RPC is an asynchronous one whose callback fills a new channel, and a wait on that channel.\<close>

lemma AsyncRPC_run:
  assumes x: "heap s sid = Some x" and h: "tp_ReadWriteCloser (se_Transport x) = Some h"
    and m: "marshall e oper = Inr req"
    and w: "conn_Write e h (Send_frame (tp_version (se_Transport x)) req) (world s) = (err, w)"
  shows "AsyncRPC e (Some sid) oper cb s = (Ret err, s\<lparr>heap := (heap s)(sid \<mapsto> on_Listener (Register (GetMessageID oper) cb) x),
     trace := trace s @ [Sent h (Send_frame (tp_version (se_Transport x)) req)], world := w\<rparr>)"
  using x m Transport_Send_run[OF h, of e req "s\<lparr>heap := (heap s)(sid \<mapsto> on_Listener (Register (GetMessageID oper) cb) x)\<rparr>"] w
  by (cases err) (simp_all add: AsyncRPC_def update_session_def gthen_def
      gbind_def[where m = "Transport_Send e (se_Transport x) req"])

lemma SyncRPC_via_AsyncRPC:
  assumes x: "heap s sid = Some x" "tp_ReadWriteCloser (se_Transport x) = Some h" "marshall e oper = Inr req"
  shows "SyncRPC e (Some sid) oper t s =
    gbind (AsyncRPC e (Some sid) oper (CbReply (next_chan s))) (\<lambda>err. case err of
        Some er \<Rightarrow> ret (None, Some er)
      | None \<Rightarrow> rpc_wait e sid h t (next_chan s)) (s\<lparr>next_chan := Suc (next_chan s)\<rparr>)"
proof -
  obtain err w where w: "conn_Write e h (Send_frame (tp_version (se_Transport x)) req) (world s) = (err, w)" by fastforce
  have "AsyncRPC e (Some sid) oper (CbReply (next_chan s)) (s\<lparr>next_chan := Suc (next_chan s)\<rparr>) =
      (Ret err, rpc_sent sid x h oper req w s)"
    using AsyncRPC_run[of "s\<lparr>next_chan := Suc (next_chan s)\<rparr>", OF _ x(2,3)] x(1) w by (simp add: rpc_sent_def)
  then show ?thesis using SyncRPC_run[OF x w, of t] by (cases err) (simp_all add: gbind_def)
qed

lemma keeps_rpc_wait:
  assumes "keeps I (await_reply e sid h t)" "\<And>s c. I s \<Longrightarrow> I (s\<lparr>chans := c\<rparr>)"
  shows "keeps I (rpc_wait e sid h t ch)"
  unfolding rpc_wait_def by (intro go_pres assms; assumption)

text \<open>
  With a session in the heap and a request that can be marshalled, the session's transport gets
  exactly that request, framed for the session's version, however the RPC ends.
\<close>

lemma SyncRPC_sends:
  assumes x: "heap s sid = Some x" and h: "tp_ReadWriteCloser (se_Transport x) = Some h"
    and m: "marshall e oper = Inr req"
  shows "sends (snd (SyncRPC e (Some sid) oper t s)) =
    sends s @ [Sent h (Send_frame (tp_version (se_Transport x)) req)]"
proof -
  have s3: "sends (rpc_sent sid x h oper req w s) = sends s @ [Sent h (Send_frame (tp_version (se_Transport x)) req)]" for w
    by (simp add: sends_def rpc_sent_def)
  from x h m show ?thesis
  proof (cases rule: SyncRPC_open[where t = t])
    case (failed er w)
    then show ?thesis by (simp add: s3)
  next
    case (waits w)
    have "keeps (\<lambda>u. sends u = sends (rpc_sent sid x h oper req w s)) (rpc_wait e sid h t (next_chan s))"
      by (intro keeps_rpc_wait snt.keeps_await_reply) (simp add: sends_def)
    from keepsD[OF this, of "rpc_sent sid x h oper req w s"] show ?thesis by (simp add: waits s3)
  qed
qed

lemma SyncRPC_marshal_error:
  "marshall e oper = Inl err \<Longrightarrow> SyncRPC e r oper t = ret (None, Some err)"
  by (simp add: SyncRPC_def)

lemma SyncRPC_nil_session:
  "marshall e oper = Inr req \<Longrightarrow> fst (SyncRPC e None oper t s) =
     Abort (Panic ''invalid memory address or nil pointer dereference'')"
  by (simp add: SyncRPC_def gthen_def)

section \<open>Timeouts\<close>

text \<open>
  Converting a timeout of a resource into nanoseconds never wraps: for every 32-bit number of
  seconds the 64-bit product is the mathematical one, negative timeouts included.
\<close>

lemma Duration_seconds_exact: "sint (Duration_seconds t) = sint t * 1000000000"
proof -
  have b: "- (2 ^ 31) \<le> sint t" "sint t < 2 ^ 31"
    using sint_greater_eq[of t] sint_less[of t] by simp_all
  have "Duration_seconds t = word_of_int (sint t * 1000000000)"
    by (simp add: Duration_seconds_def)
  then have "sint (Duration_seconds t) = signed_take_bit 63 (sint t * 1000000000)"
    by (simp only: sint_sbintrunc') simp
  also have "\<dots> = sint t * 1000000000"
    using b by (intro signed_take_bit_int_eq_self) auto
  finally show ?thesis .
qed

end
