(* ===== verification/Rpc_Completion.thy ===== *)
theory Rpc_Completion
  imports Session_Laws Chunking
begin

text \<open>
  Completion of an RPC: the listener goroutine puts a message together from whatever pieces its reads
  deliver and hands it to the waiting caller. The theorems say when a call of \<open>SyncRPC\<close> does return a
  reply, and when it gives up, so that what the other theories show of replies is not vacuous.
\<close>

section \<open>A message in pieces\<close>

lemma WaitForBytes_append:
  "WaitForBytes sep out win (rs @ rs') = (case WaitForBytes sep out win rs of
     Done x \<Rightarrow> Done x | Waiting out' win' \<Rightarrow> WaitForBytes sep out' win' rs')"
  by (induction rs arbitrary: out win) (auto split: wait_result.split)

text \<open>Before the separator is complete, the receiver waits.\<close>

lemma WaitForBytes_short:
  assumes "Index (data @ sep) sep = Some (length data)" and "sep \<noteq> []"
    and "data @ sep @ tail = out @ win @ concat cs @ rest"
    and "length (out @ win @ concat cs) < length data + length sep"
  shows "\<exists>out' win'. WaitForBytes sep out win (map ReadData cs) = Waiting out' win'"
  using assms(3,4)
proof (induction cs arbitrary: out win)
  case Nil
  then show ?case by simp
next
  case (Cons c cs)
  have "Index (win @ c) sep = None"
    by (rule Index_window_None[OF assms(1), of tail out "win @ c" "concat cs @ rest"])
      (use Cons.prems assms(2) in auto)
  then show ?case
    using Cons.IH[of out win] Cons.IH[of "if win \<noteq> [] then out @ win else out" c] Cons.prems
    by (auto simp: WaitForBytes_step_run)
qed

text \<open>The pieces of a framed message: all but the last leave the receiver waiting, the last completes it.\<close>

lemma fragments_complete:
  assumes "separator_last v raw" and "v = ''v1.1'' \<longrightarrow> chunk_ok raw"
    and "fragments (rx_separator v) (Send_frame v raw) cs"
  obtains out win body where
    "WaitForBytes (rx_separator v) [] [] (map ReadData (butlast cs)) = Waiting out win"
    "WaitForBytes_step (rx_separator v) out win (ReadData (last cs)) = Done (Inr body)" "rx_decode v body = raw"
proof -
  let ?sep = "rx_separator v"
  obtain body where body: "Send_frame v raw = body @ ?sep"
    "v = ''v1.1'' \<longrightarrow> body = chunk_encode [raw]" "v \<noteq> ''v1.1'' \<longrightarrow> body = raw"
    by (rule Send_frame_parts)
  have sep: "?sep \<noteq> []" by (simp add: rx_separator_def msgSeparator_def msgSeparatorV11_def)
  have first: "Index (body @ ?sep) ?sep = Some (length body)"
    using assms(1) body(1) by (simp add: separator_last_def)
  have found: "WaitForBytes ?sep [] [] (map ReadData cs) = Done (Inr body)"
    using WaitForBytes_finds[OF first sep, of cs "[]"] assms(3) body(1) by simp
  obtain tail where tail: "concat cs = body @ ?sep @ tail" "length tail < length (last cs)"
    using assms(3) body(1) by (auto simp: fragments_def)
  have cs: "cs = butlast cs @ [last cs]" using assms(3) by (simp add: fragments_def)
  have cc: "concat cs = concat (butlast cs) @ last cs" by (subst cs) simp
  have len: "length (concat (butlast cs)) < length body + length ?sep"
    using arg_cong[OF trans[OF cc[symmetric] tail(1)], of length] tail(2) by simp
  obtain out win where wait: "WaitForBytes ?sep [] [] (map ReadData (butlast cs)) = Waiting out win"
    using WaitForBytes_short[OF first sep, of tail "[]" "[]" "butlast cs" "last cs"] tail(1) cc len by auto
  have "WaitForBytes ?sep out win [ReadData (last cs)] = Done (Inr body)"
    using found wait by (subst (asm) cs) (simp add: WaitForBytes_append)
  then have step: "WaitForBytes_step ?sep out win (ReadData (last cs)) = Done (Inr body)"
    by (simp split: wait_result.splits)
  have "rx_decode v body = raw"
    using assms(2) body(2,3) Chunked_encode[of "[raw]"] by (auto simp: rx_decode_def)
  with wait step show ?thesis by (rule that)
qed

section \<open>The listener between two messages\<close>

text \<open>A listener that runs on an open session and has consumed all it has read.\<close>

definition idle :: "Session \<Rightarrow> bool" where
  "idle x \<longleftrightarrow> se_listening x \<and> \<not> se_IsClosed x \<and> se_rx_out x = [] \<and> se_rx_win x = []"

lemma idle_on_Listener [simp]: "idle (on_Listener f x) = idle x"
  by (simp add: idle_def on_Listener_def)

lemma listen_waits:
  assumes "heap s i = Some x" "se_listening x"
    and "WaitForBytes (rx_separator (tp_version (se_Transport x))) (se_rx_out x) (se_rx_win x) rs = Waiting out win"
  shows "go_each (listen_read e i) rs s = (Ret (), s\<lparr>heap := (heap s)(i \<mapsto> x\<lparr>se_rx_out := out, se_rx_win := win\<rparr>)\<rparr>)"
  using assms
proof (induction rs arbitrary: s x)
  case Nil
  then show ?case by (cases s; cases x) auto
next
  case (Cons r rs)
  let ?sep = "rx_separator (tp_version (se_Transport x))"
  obtain o1 w1 where step: "WaitForBytes_step ?sep (se_rx_out x) (se_rx_win x) r = Waiting o1 w1"
    and more: "WaitForBytes ?sep o1 w1 rs = Waiting out win"
    using Cons.prems(3) by (auto split: wait_result.splits)
  let ?x = "x\<lparr>se_rx_out := o1, se_rx_win := w1\<rparr>"
  have "listen_read e i r s = (Ret (), s\<lparr>heap := (heap s)(i \<mapsto> ?x)\<rparr>)"
    using Cons.prems(1,2) step by (simp add: listen_read_def update_session_def)
  then have "go_each (listen_read e i) (r # rs) s = go_each (listen_read e i) rs (s\<lparr>heap := (heap s)(i \<mapsto> ?x)\<rparr>)"
    by (simp add: gthen_def gbind_def)
  also have "\<dots> = (Ret (), (s\<lparr>heap := (heap s)(i \<mapsto> ?x)\<rparr>)\<lparr>heap := ((heap s)(i \<mapsto> ?x))(i \<mapsto> ?x\<lparr>se_rx_out := out, se_rx_win := win\<rparr>)\<rparr>)"
    by (subst Cons.IH[of _ ?x]) (use Cons.prems(2) more in simp_all)
  finally show ?case by (simp del: fun_upd_apply)
qed

text \<open>
  A message that arrives in pieces is handed over once, when its last piece is there, and then the
  listener is ready for the next one.
\<close>

lemma listen_receives:
  assumes x: "heap s i = Some x" "idle x" and v: "v = tp_version (se_Transport x)"
    and "separator_last v raw" "v = ''v1.1'' \<longrightarrow> chunk_ok raw"
    and frag: "fragments (rx_separator v) (Send_frame v raw) cs"
  obtains out win where "go_each (listen_read e i) (map ReadData cs) s =
    gthen (listen_message e i (Inr raw))
      (update_session i (\<lambda>y. y\<lparr>se_rx_out := [], se_rx_win := [], se_listening := \<not> se_IsClosed y\<rparr>))
      (s\<lparr>heap := (heap s)(i \<mapsto> x\<lparr>se_rx_out := out, se_rx_win := win\<rparr>)\<rparr>)"
proof -
  obtain out win body where
    wait: "WaitForBytes (rx_separator v) [] [] (map ReadData (butlast cs)) = Waiting out win"
    and step: "WaitForBytes_step (rx_separator v) out win (ReadData (last cs)) = Done (Inr body)"
    and dec: "rx_decode v body = raw"
    by (rule fragments_complete[OF assms(4-6)])
  let ?x = "x\<lparr>se_rx_out := out, se_rx_win := win\<rparr>"
  let ?s = "s\<lparr>heap := (heap s)(i \<mapsto> ?x)\<rparr>"
  have cs: "map ReadData cs = map ReadData (butlast cs) @ [ReadData (last cs)]"
    using frag by (metis append_butlast_last_id fragments_def list.simps(8,9) map_append)
  have l: "se_listening x" using x(2) by (simp add: idle_def)
  have "go_each (listen_read e i) (map ReadData (butlast cs)) s = (Ret (), ?s)"
    by (rule listen_waits) (use x wait v in \<open>auto simp: idle_def\<close>)
  then have "go_each (listen_read e i) (map ReadData cs) s = listen_read e i (ReadData (last cs)) ?s"
    by (simp only: cs go_each_append go_each.simps)
      (simp add: gthen_def gbind_def split: prod.split outcome.split)
  also have "\<dots> = gthen (listen_message e i (Inr raw))
      (update_session i (\<lambda>y. y\<lparr>se_rx_out := [], se_rx_win := [], se_listening := \<not> se_IsClosed y\<rparr>)) ?s"
    using l v step dec by (simp add: listen_read_def)
  finally show ?thesis by (rule that)
qed

text \<open>A reply wakes up the caller whose channel is registered under its message identifier.\<close>

lemma Dispatch_to_caller:
  assumes "heap s i = Some x" "callbacks (se_Listener x) (re_MessageID r) = Some (CbReply ch)" "chans s ch = None"
  shows "Dispatch e i (re_MessageID r) 0 (ReplyValue r) s =
    (Ret (), s\<lparr>chans := (chans s)(ch \<mapsto> r), heap := (heap s)(i \<mapsto> on_Listener (Remove (re_MessageID r)) x)\<rparr>)"
  using assms by (simp add: Dispatch_def syncRPC_callback_def event_RPCReply_def gthen_def gbind_def update_session_def)

lemma listen_reply:
  assumes x: "heap s i = Some x" "idle x" and v: "v = tp_version (se_Transport x)"
    and frame: "separator_last v raw" "v = ''v1.1'' \<longrightarrow> chunk_ok raw" "fragments (rx_separator v) (Send_frame v raw) cs"
    and reply: "Contains raw ''<rpc-reply''" "NewRPCReply e raw = Inr r"
    and cb: "callbacks (se_Listener x) (re_MessageID r) = Some (CbReply ch)" "chans s ch = None"
  shows "go_each (listen_read e i) (map ReadData cs) s =
    (Ret (), s\<lparr>chans := (chans s)(ch \<mapsto> r), heap := (heap s)(i \<mapsto> on_Listener (Remove (re_MessageID r)) x)\<rparr>)"
proof -
  obtain out win where run: "go_each (listen_read e i) (map ReadData cs) s =
    gthen (listen_message e i (Inr raw))
      (update_session i (\<lambda>y. y\<lparr>se_rx_out := [], se_rx_win := [], se_listening := \<not> se_IsClosed y\<rparr>))
      (s\<lparr>heap := (heap s)(i \<mapsto> x\<lparr>se_rx_out := out, se_rx_win := win\<rparr>)\<rparr>)"
    by (rule listen_receives[OF x v frame])
  let ?s = "s\<lparr>heap := (heap s)(i \<mapsto> x\<lparr>se_rx_out := out, se_rx_win := win\<rparr>)\<rparr>"
  let ?x = "on_Listener (Remove (re_MessageID r)) (x\<lparr>se_rx_out := out, se_rx_win := win\<rparr>)"
  let ?f = "\<lambda>y. y\<lparr>se_rx_out := [], se_rx_win := [], se_listening := \<not> se_IsClosed y\<rparr>"
  have m: "listen_message e i (Inr raw) = Dispatch e i (re_MessageID r) 0 (ReplyValue r)"
    using reply by (simp add: listen_message_def)
  have d: "Dispatch e i (re_MessageID r) 0 (ReplyValue r) ?s =
    (Ret (), ?s\<lparr>chans := (chans ?s)(ch \<mapsto> r), heap := (heap ?s)(i \<mapsto> ?x)\<rparr>)"
    by (rule Dispatch_to_caller) (use cb in simp_all)
  have "go_each (listen_read e i) (map ReadData cs) s =
      (Ret (), s\<lparr>chans := (chans s)(ch \<mapsto> r), heap := (heap s)(i \<mapsto> ?f ?x)\<rparr>)"
    unfolding run m gthen_def gbind_Ret[where m = "Dispatch e i (re_MessageID r) 0 (ReplyValue r)", OF d] by (simp add: update_session_def fun_upd_same del: fun_upd_apply)
  moreover have "?f ?x = on_Listener (Remove (re_MessageID r)) x"
    using x(2) by (cases x) (simp add: on_Listener_def idle_def)
  ultimately show ?thesis by (simp only:)
qed

text \<open>
  A \<open>Receive\<close> ends with the read that completes the message: what this read holds after the separator is
  dropped.
\<close>

lemma listen_drops_rest:
  assumes x: "heap s i = Some x" "idle x" and v: "v = tp_version (se_Transport x)"
    and frame: "separator_last v raw" "v = ''v1.1'' \<longrightarrow> chunk_ok raw"
  shows "listen_read e i (ReadData (Send_frame v raw @ rest)) s = listen_read e i (ReadData (Send_frame v raw)) s"
proof -
  have ne: "Send_frame v raw \<noteq> []" by (simp add: Send_frame_def msgSeparator_def msgSeparatorV11_def)
  have "\<exists>body. WaitForBytes_step (rx_separator v) [] [] (ReadData (Send_frame v raw @ r)) = Done (Inr body) \<and> rx_decode v body = raw" for r
  proof -
    have "fragments (rx_separator v) (Send_frame v raw) [Send_frame v raw @ r]" using ne by (simp add: fragments_def)
    then obtain out win body where "WaitForBytes (rx_separator v) [] [] (map ReadData (butlast [Send_frame v raw @ r])) = Waiting out win"
      "WaitForBytes_step (rx_separator v) out win (ReadData (last [Send_frame v raw @ r])) = Done (Inr body)" "rx_decode v body = raw"
      by (rule fragments_complete[OF frame])
    then show ?thesis by simp
  qed
  from this[of rest] this[of "[]"] x v show ?thesis by (auto simp: listen_read_def idle_def)
qed

text \<open>Once the connection has ended every \<open>Receive\<close> fails at once, and the listener starts the next one.\<close>

lemma listen_spins:
  assumes "heap s i = Some x" "idle x"
  shows "go_each (listen_read e i) (replicate n ReadEOF) s = (Ret (), s)"
proof (induction n)
  case (Suc n)
  have "(heap s)(i := map_option (\<lambda>y. y\<lparr>se_rx_out := [], se_rx_win := [], se_listening := \<not> se_IsClosed y\<rparr>) (heap s i)) = heap s"
    using assms by (cases x) (auto simp: idle_def fun_eq_iff)
  then have "listen_read e i ReadEOF s = (Ret (), s)"
    using assms by (simp add: listen_read_def WaitForBytes_step_run idle_def listen_message_def update_session_def del: fun_upd_apply)
  with Suc show ?case by (simp add: gthen_def gbind_def)
qed simp

section \<open>A device that answers\<close>

text \<open>
  What the world does for one RPC, with \<open>u\<close> the world before and \<open>w\<close> the world after: the request
  can be marshalled and written, and while the caller waits the listener's reads deliver the framed text
  of a reply to it, in pieces of any kind that \<open>fragments\<close> allows.
\<close>

definition device_answers ::
    "'w env \<Rightarrow> Transport \<Rightarrow> RPCMethod \<Rightarrow> 32 word \<Rightarrow> handle \<Rightarrow> string \<Rightarrow> RPCReply \<Rightarrow> 'w \<Rightarrow> 'w \<Rightarrow> bool" where
  "device_answers e t oper timeout h req r u w \<longleftrightarrow> tp_ReadWriteCloser t = Some h \<and> marshall e oper = Inr req \<and>
     (\<exists>v raw cs. conn_Write e h (Send_frame (tp_version t) req) u = (None, v) \<and>
        wait_Reads e h (Duration_seconds timeout) v = (map ReadData cs, w) \<and>
        separator_last (tp_version t) raw \<and> (tp_version t = ''v1.1'' \<longrightarrow> chunk_ok raw) \<and>
        fragments (rx_separator (tp_version t)) (Send_frame (tp_version t) raw) cs \<and>
        Contains raw ''<rpc-reply'' \<and> NewRPCReply e raw = Inr r) \<and> re_MessageID r = GetMessageID oper"

text \<open>The state after an answered RPC: the request is sent, and the caller's callback and channel are gone.\<close>

definition rpc_answered :: "sref \<Rightarrow> Session \<Rightarrow> handle \<Rightarrow> RPCMethod \<Rightarrow> string \<Rightarrow> 'w \<Rightarrow> 'w ostate \<Rightarrow> 'w ostate" where
  "rpc_answered i x h oper req w s = s\<lparr>next_chan := Suc (next_chan s),
     heap := (heap s)(i \<mapsto> on_Listener (Remove (GetMessageID oper)) x),
     trace := trace s @ [Sent h (Send_frame (tp_version (se_Transport x)) req)], world := w\<rparr>"

lemma Remove_Register [simp]: "Remove k (Register k c d) = Remove k d"
  by (simp add: Remove_def Register_def)

lemma answered_rpc:
  assumes x: "heap s i = Some x" "idle x" and free: "chans s (next_chan s) = None"
    and d: "device_answers e (se_Transport x) oper t h req r (world s) w"
  shows "SyncRPC e (Some i) oper t s = (Ret (Some r, None), rpc_answered i x h oper req w s)"
proof -
  let ?T = "se_Transport x" and ?x = "on_Listener (Register (GetMessageID oper) (CbReply (next_chan s))) x"
  obtain v raw cs where d: "tp_ReadWriteCloser ?T = Some h" "marshall e oper = Inr req"
    "conn_Write e h (Send_frame (tp_version ?T) req) (world s) = (None, v)"
    "wait_Reads e h (Duration_seconds t) v = (map ReadData cs, w)"
    "separator_last (tp_version ?T) raw" "tp_version ?T = ''v1.1'' \<longrightarrow> chunk_ok raw"
    "fragments (rx_separator (tp_version ?T)) (Send_frame (tp_version ?T) raw) cs"
    "Contains raw ''<rpc-reply''" "NewRPCReply e raw = Inr r" "re_MessageID r = GetMessageID oper"
    using d by (auto simp: device_answers_def)
  let ?s = "(rpc_sent i x h oper req v s)\<lparr>world := w\<rparr>"
  have listen: "go_each (listen_read e i) (map ReadData cs) ?s = (Ret (), ?s\<lparr>chans := (chans ?s)(next_chan s \<mapsto> r),
      heap := (heap ?s)(i \<mapsto> on_Listener (Remove (re_MessageID r)) ?x)\<rparr>)"
    by (rule listen_reply[OF _ _ _ d(5-9)]) (use x free d(10) in \<open>simp_all add: rpc_sent_def on_Listener_def idle_def\<close>)
  have "await_reply e i h t (rpc_sent i x h oper req v s) = (Ret (), ?s\<lparr>chans := (chans ?s)(next_chan s \<mapsto> r),
      heap := (heap ?s)(i \<mapsto> on_Listener (Remove (re_MessageID r)) ?x)\<rparr>)"
    using listen d(4) by (simp add: await_reply_def rpc_sent_def)
  moreover have "(chans s)(next_chan s := None) = chans s" using free by (simp add: fun_upd_idem)
  ultimately show ?thesis
    unfolding SyncRPC_run[OF x(1) d(1-3)] rpc_wait_def option.case
    by (simp add: gthen_def gbind_def[where m = "await_reply e i h t"] d(10) rpc_answered_def rpc_sent_def on_Listener_def)
qed

text \<open>A device that stays silent: the caller gives up with an error, and its callback stays registered.\<close>

lemma unanswered_rpc:
  assumes x: "heap s i = Some x" and free: "chans s (next_chan s) = None"
    and h: "tp_ReadWriteCloser (se_Transport x) = Some h" and m: "marshall e oper = Inr req"
    and w: "conn_Write e h (Send_frame (tp_version (se_Transport x)) req) (world s) = (None, v)"
    and silent: "wait_Reads e h (Duration_seconds t) v = ([], w)"
  shows "SyncRPC e (Some i) oper t s =
    (Ret (None, Some (GoError ''timeout while executing request'')), rpc_sent i x h oper req w s)"
proof -
  have "await_reply e i h t (rpc_sent i x h oper req v s) = (Ret (), rpc_sent i x h oper req w s)"
    using silent by (simp add: await_reply_def rpc_sent_def)
  then show ?thesis
    using free unfolding SyncRPC_run[OF x h m w] rpc_wait_def option.case
    by (simp add: gthen_def gbind_def[where m = "await_reply e i h t"] rpc_sent_def)
qed

end
