(* ===== verification/Example_World.thy ===== *)
theory Example_World
  imports Rpc_Completion
begin

text \<open>
  One concrete world on which the properties are applied: an API server that holds one resource of
  every kind, a device that answers every request within the timeout with a positive reply, and a
  Kafka broker that accepts everything. The random source returns zeros, so every request has the same
  identifier. The operator has one open session, that of the mount point \<open>ns/m\<close>.
\<close>

definition example_id :: string where
  "example_id = ''00000000-0000-4000-8000-000000000000''"

definition example_reply :: RPCReply where
  "example_reply = \<lparr>re_MessageID = example_id, re_Errors = [], re_Data = ''data'', re_Ok = True,
     re_RawReply = [], re_SubscriptionID = ''7''\<rparr>"

definition example_notification :: Notification where
  "example_notification = \<lparr>no_EventTime = ''now'', no_EventData = ''up'', no_SubscriptionIDCisco = [],
     no_SubscriptionID = ''7'', no_RawReply = [], no_Data = ''up''\<rparr>"

definition example_meta :: ObjectMeta where
  "example_meta = \<lparr>om_Name = ''m'', om_Namespace = ''ns'', om_Generation = 1, om_Finalizers = [],
     om_DeletionTimestamp = None\<rparr>"

definition example_cr :: "'spec \<Rightarrow> 'spec cr" where
  "example_cr spec = \<lparr>cr_Meta = example_meta, cr_Spec = spec, cr_RPCStatus = zero_RPCStatus\<lparr>st_Status := ''success''\<rparr>\<rparr>"

definition example_client :: "'spec cr \<Rightarrow> ('w, 'spec) client" where
  "example_client obj = \<lparr>k_Get = (\<lambda>nn w. (Inr obj, w)), k_Update = (\<lambda>_ w. (None, w)),
     k_StatusUpdate = (\<lambda>_ w. (None, w))\<rparr>"

definition example_MountPoint :: MountPoint where
  "example_MountPoint = example_cr \<lparr>mp_Target = ''device'', mp_Username = ''admin'', mp_Password = ''secret'',
     mp_Timeout = 0, mp_AdditionalCapabilities = []\<rparr>"

definition example_dep :: DependsOn where
  "example_dep = \<lparr>dep_Kind = ''Lock'', dep_Name = ''m''\<rparr>"

definition example_Lock :: Lock where
  "example_Lock = example_cr \<lparr>lk_MountPoint = ''m'', lk_Timeout = 1, lk_Target = ''running''\<rparr>"

definition example_Unlock :: Unlock where
  "example_Unlock = example_cr \<lparr>ul_MountPoint = ''m'', ul_Timeout = 1, ul_Target = ''running'',
     ul_DependsOn = example_dep\<rparr>"

definition example_Commit :: Commit where
  "example_Commit = example_cr \<lparr>cm_MountPoint = ''m'', cm_Timeout = 1, cm_DependsOn = example_dep\<rparr>"

definition example_EditConfig :: EditConfig where
  "example_EditConfig = example_cr \<lparr>ec_MountPoint = ''m'', ec_Timeout = 1, ec_Operation = ''merge'',
     ec_Target = ''running'', ec_XML = ''<a/>'', ec_DependsOn = example_dep, ec_Lock = True,
     ec_Commit = True, ec_Unlock = True\<rparr>"

definition example_Get :: Get where
  "example_Get = example_cr \<lparr>gt_MountPoint = ''m'', gt_Timeout = 1, gt_FilterType = ''subtree'',
     gt_FilterXML = ''<a/>''\<rparr>"

definition example_GetConfig :: GetConfig where
  "example_GetConfig = example_cr \<lparr>gc_MountPoint = ''m'', gc_Timeout = 1, gc_Target = ''running''\<rparr>"

definition example_RPC :: RPC where
  "example_RPC = example_cr \<lparr>rp_MountPoint = ''m'', rp_Timeout = 1, rp_XML = ''<a/>''\<rparr>"

definition example_CreateSubscription :: CreateSubscription where
  "example_CreateSubscription = example_cr \<lparr>cs_MountPoint = ''m'', cs_Timeout = 1, cs_Stream = ''NETCONF'',
     cs_StartTime = [], cs_StopTime = [], cs_KafkaSink = zero_KafkaSink\<rparr>"

definition example_EstablishSubscription :: EstablishSubscription where
  "example_EstablishSubscription = example_cr \<lparr>es_MountPoint = ''m'', es_Timeout = 1, es_XML = ''<a/>'',
     es_KafkaSink = zero_KafkaSink\<rparr>"

definition steady_env :: "'w env" where
  "steady_env = \<lparr>xml_Marshal = (\<lambda>_. Inr ''<rpc/>''), xml_Marshal_Hello = (\<lambda>_. Inr ''<hello/>''),
     xml_Unmarshal_Hello = (\<lambda>_. (\<lparr>he_Capabilities = [''a''], he_SessionID = 5\<rparr>, None)),
     xml_Unmarshal_RPCReply = (\<lambda>_. Inr example_reply),
     xml_Unmarshal_Notification = (\<lambda>_. Inr example_notification),
     xml_Unmarshal_any = (\<lambda>_. None), fmt_Sprintf = (\<lambda>x. x),
     rand_Read = (\<lambda>n w. (replicate n 0, w)), metav1_Now = (\<lambda>w. (0, w)),
     ssh_Dial = (\<lambda>_ _ _ w. (Inr 1, w)), net_DialTimeout = (\<lambda>_ _ _ w. (Inr 1, w)),
     ssh_NewClientConn = (\<lambda>_ _ w. (Inr 1, w)), ssh_NewSession = (\<lambda>_ w. (Inr 2, w)),
     ssh_StdinPipe = (\<lambda>_ w. (None, w)), ssh_StdoutPipe = (\<lambda>_ w. (None, w)),
     ssh_RequestSubsystem = (\<lambda>_ _ w. (None, w)), ssh_Session_Close = (\<lambda>_ w. (None, w)),
     ssh_Client_Close = (\<lambda>_ w. (None, w)), conn_Write = (\<lambda>_ _ w. (None, w)),
     conn_Reads = (\<lambda>_ w. ([ReadData (''<hello/>'' @ msgSeparator)], w)),
     wait_Reads = (\<lambda>_ _ w. ([ReadData (''<rpc-reply/>'' @ msgSeparator)], w)),
     kafka_DialLeader = (\<lambda>_ _ _ _ w. (Inr 3, w)), kafka_SetWriteDeadline = (\<lambda>_ _ w. (None, w)),
     kafka_WriteMessages = (\<lambda>_ _ w. (None, w)), kafka_Close = (\<lambda>_ w. (None, w)),
     mountpoints = example_client example_MountPoint, locks = example_client example_Lock,
     unlocks = example_client example_Unlock, commits = example_client example_Commit,
     editconfigs = example_client example_EditConfig, gets_client = example_client example_Get,
     getconfigs = example_client example_GetConfig, rpcs = example_client example_RPC,
     createsubscriptions = example_client example_CreateSubscription,
     establishsubscriptions = example_client example_EstablishSubscription\<rparr>"

text \<open>Nothing ever changes in that world, so it may be the world of one state.\<close>

definition example_env :: "unit env" where
  "example_env = steady_env"

definition example_Session :: Session where
  "example_Session = \<lparr>se_Transport = \<lparr>tp_version = ''v1.0'', tp_sshClient = Some 1, tp_sshSession = Some 2,
       tp_ReadWriteCloser = Some 2\<rparr>, se_SessionID = 5, se_Capabilities = [''a''], se_IsClosed = False,
     se_Listener = Dispatcher_init, se_IsNotificationStreamCreated = False, se_listening = True,
     se_rx_out = [], se_rx_win = []\<rparr>"

definition example_state :: "unit ostate" where
  "example_state = \<lparr>Sessions = [''ns/m'' \<mapsto> 0], heap = [0 \<mapsto> example_Session], next_sref = 1,
     chans = Map.empty, next_chan = 0, trace = [], world = ()\<rparr>"

definition example_req :: NamespacedName where
  "example_req = \<lparr>nn_Namespace = ''ns'', nn_Name = ''m''\<rparr>"

lemmas example_objects = example_MountPoint_def example_Lock_def example_Unlock_def example_Commit_def
  example_EditConfig_def example_Get_def example_GetConfig_def example_RPC_def
  example_CreateSubscription_def example_EstablishSubscription_def example_cr_def example_meta_def
  example_dep_def

lemmas example_names = GetNamespacedName_def GetMountPointNamespacedName_def NamespacedName_String_def

lemma example_env_Get [simp]:
  "k_Get (mountpoints example_env) nn w = (Inr example_MountPoint, w)"
  "k_Get (locks example_env) nn w = (Inr example_Lock, w)"
  "k_Get (unlocks example_env) nn w = (Inr example_Unlock, w)"
  "k_Get (commits example_env) nn w = (Inr example_Commit, w)"
  "k_Get (editconfigs example_env) nn w = (Inr example_EditConfig, w)"
  "k_Get (gets_client example_env) nn w = (Inr example_Get, w)"
  "k_Get (getconfigs example_env) nn w = (Inr example_GetConfig, w)"
  "k_Get (rpcs example_env) nn w = (Inr example_RPC, w)"
  "k_Get (createsubscriptions example_env) nn w = (Inr example_CreateSubscription, w)"
  "k_Get (establishsubscriptions example_env) nn w = (Inr example_EstablishSubscription, w)"
  by (simp_all add: example_env_def steady_env_def example_client_def)

lemma example_env_fields [simp]:
  "xml_Marshal example_env oper = Inr ''<rpc/>''" "xml_Marshal_Hello example_env hello = Inr ''<hello/>''"
  "xml_Unmarshal_Hello example_env txt = (\<lparr>he_Capabilities = [''a''], he_SessionID = 5\<rparr>, None)"
  "xml_Unmarshal_RPCReply example_env txt = Inr example_reply"
  "xml_Unmarshal_Notification example_env txt = Inr example_notification"
  "xml_Unmarshal_any example_env txt = None" "fmt_Sprintf example_env txt = txt"
  "rand_Read example_env n w = (replicate n 0, w)" "metav1_Now example_env w = (0, w)"
  "conn_Write example_env h d w = (None, w)"
  "wait_Reads example_env h dur w = ([ReadData (''<rpc-reply/>'' @ msgSeparator)], w)"
  by (simp_all add: example_env_def steady_env_def)

section \<open>How the example device answers\<close>

definition example_answer :: RPCReply where
  "example_answer = example_reply\<lparr>re_RawReply := ''<rpc-reply/>''\<rparr>"

text \<open>A session between two messages, on the example transport.\<close>

definition example_idle :: "Session \<Rightarrow> bool" where
  "example_idle x \<longleftrightarrow> se_Transport x = se_Transport example_Session \<and> se_listening x \<and> \<not> se_IsClosed x \<and>
     se_rx_out x = [] \<and> se_rx_win x = []"

lemma unit_world [simp]: "(s :: unit ostate)\<lparr>world := u\<rparr> = s"
  by (cases s) simp

lemma example_bytes:
  "uuid_bytes (replicate 16 0) = [0, 0, 0, 0, 0, 0, 0x40, 0, 0x80, 0, 0, 0, 0, 0, 0, 0]"
  by (simp add: uuid_bytes_def Let_def numeral_nat)

lemma uuid_example [simp]: "uuid example_env s = (Ret example_id, s)"
  by (simp add: uuid_def example_bytes[simplified] example_bytes Let_def hex_def hex_byte_def hex_digits_def example_id_def)

lemma example_device:
  assumes "GetMessageID oper = example_id"
  shows "device_answers example_env (se_Transport example_Session) oper t 2 (xml_Header @ ''<rpc/>'') example_answer u ()"
proof -
  have "fragments (rx_separator ''v1.0'') (Send_frame ''v1.0'' ''<rpc-reply/>'') [''<rpc-reply/>'' @ msgSeparator]"
    by (simp add: fragments_def Send_frame_def)
  moreover have "separator_last ''v1.0'' ''<rpc-reply/>''"
    by (simp add: separator_last_def Send_frame_def rx_separator_def msgSeparator_def)
  moreover have "Contains ''<rpc-reply/>'' ''<rpc-reply''" by (simp add: Contains_def)
  moreover have "NewRPCReply example_env ''<rpc-reply/>'' = Inr example_answer"
    by (simp add: NewRPCReply_def example_answer_def)
  ultimately show ?thesis
    using assms unfolding device_answers_def
    by (auto simp: example_Session_def marshall_def example_answer_def example_reply_def simp del: append.simps
        intro!: exI[of _ "''<rpc-reply/>''"] exI[of _ "[''<rpc-reply/>'' @ msgSeparator]"])
qed

lemma example_answers:
  assumes x: "heap s i = Some x" "example_idle x" and oper: "GetMessageID oper = example_id"
    and ch: "chans s (next_chan s) = None"
  shows "SyncRPC example_env (Some i) oper t s = (Ret (Some example_answer, None),
    s\<lparr>next_chan := Suc (next_chan s), heap := (heap s)(i \<mapsto> on_Listener (Remove example_id \<circ> Register example_id (CbReply (next_chan s))) x),
      trace := trace s @ [Sent 2 (Send_frame ''v1.0'' (xml_Header @ ''<rpc/>''))]\<rparr>)"
proof -
  have T: "se_Transport x = se_Transport example_Session" using x(2) by (simp add: example_idle_def)
  have "idle x" using x(2) by (simp add: example_idle_def idle_def)
  from answered_rpc[OF x(1) this ch, of example_env oper t] example_device[OF oper, of t] T oper
  show ?thesis by (simp add: rpc_answered_def example_Session_def on_Listener_def del: append.simps)
qed

end
