(* ===== verification/Reply_Channels.thy ===== *)
theory Reply_Channels
  imports Example_World
begin

text \<open>
  The channels between \<open>SyncRPC\<close> and the listener: every registered reply callback owns an empty
  channel of its own. From this invariant, which every operation keeps, a reply that is returned
  answers the request it was waited for, and the listener never blocks on a full channel.
\<close>

section \<open>Reply channels\<close>

text \<open>
  A registered reply callback owns its channel: nobody else has it, it is empty, and its number was
  handed out before.
\<close>

definition reply_cb :: "'w ostate \<Rightarrow> sref \<Rightarrow> string \<Rightarrow> nat \<Rightarrow> bool" where
  "reply_cb s i k ch \<longleftrightarrow> (\<exists>x. heap s i = Some x \<and> callbacks (se_Listener x) k = Some (CbReply ch))"

definition chan_inv :: "'w ostate \<Rightarrow> bool" where
  "chan_inv s \<longleftrightarrow>
     (\<forall>i k ch. reply_cb s i k ch \<longrightarrow> ch < next_chan s \<and> chans s ch = None) \<and>
     (\<forall>ch. chans s ch \<noteq> None \<longrightarrow> ch < next_chan s) \<and>
     (\<forall>i k j l ch. reply_cb s i k ch \<longrightarrow> reply_cb s j l ch \<longrightarrow> i = j \<and> k = l)"

text \<open>\<open>chan_for ch mid\<close>: only replies with the identifier \<open>mid\<close> can reach channel \<open>ch\<close>.\<close>

definition chan_for :: "nat \<Rightarrow> string \<Rightarrow> 'w ostate \<Rightarrow> bool" where
  "chan_for ch mid s \<longleftrightarrow> (\<forall>i k. reply_cb s i k ch \<longrightarrow> k = mid) \<and>
     (\<forall>r. chans s ch = Some r \<longrightarrow> re_MessageID r = mid)"

lemma EventType_is_notification:
  "gbind (EventType_String 1) (\<lambda>t. if t = ''rpc-reply'' then m else n) = n"
  by simp

text \<open>What neither the world nor a note in the trace nor the listener's own variables can disturb.\<close>

locale chan_pred = quiet +
  assumes cp_listener: "I s \<Longrightarrow> (\<And>x. se_Listener (f x) = se_Listener x) \<Longrightarrow>
      I (s\<lparr>heap := (heap s)(i := map_option f (heap s i))\<rparr>)"
    and cp_reply: "I s \<Longrightarrow> heap s i = Some x \<Longrightarrow> callbacks (se_Listener x) (re_MessageID r) = Some (CbReply ch) \<Longrightarrow>
      I (s\<lparr>chans := (chans s)(ch \<mapsto> r), heap := (heap s)(i \<mapsto> on_Listener (Remove (re_MessageID r)) x)\<rparr>)"
    and cp_free: "I s \<Longrightarrow> heap s i = Some x \<Longrightarrow> callbacks (se_Listener x) k = Some (CbReply ch) \<Longrightarrow> chans s ch = None"
begin

lemma keeps_Dispatch_reply: "keeps I (Dispatch e i (re_MessageID r) 0 (ReplyValue r))"
proof (rule keepsI)
  fix s assume s: "I s"
  show "I (snd (Dispatch e i (re_MessageID r) 0 (ReplyValue r) s))"
  proof (cases "heap s i")
    case None
    with s show ?thesis by (simp add: Dispatch_def session_at_def gbind_def)
  next
    case x: (Some x)
    show ?thesis
    proof (cases "callbacks (se_Listener x) (re_MessageID r)")
      case None
      with x s show ?thesis by (simp add: Dispatch_def)
    next
      case cb: (Some cb)
      show ?thesis
      proof (cases cb)
        case (CbReply ch)
        with cb cp_free[OF s x] have "chans s ch = None" by simp
        with x cb CbReply cp_reply[OF s x, of r ch] show ?thesis
          by (simp add: Dispatch_def syncRPC_callback_def event_RPCReply_def gthen_def gbind_def update_session_def)
      qed (use x cb s in \<open>simp_all add: Dispatch_def createSubscription_callback_def
          establishSubscription_callback_def event_Notification_def gthen_def\<close>)
    qed
  qed
qed

lemma Dispatch_reply_not_blocked:
  assumes "I s"
  shows "fst (Dispatch e i (re_MessageID r) 0 (ReplyValue r) s) \<noteq> Abort Blocked"
proof (cases "heap s i")
  case None
  then show ?thesis by (simp add: Dispatch_def session_at_def gbind_def)
next
  case x: (Some x)
  show ?thesis
  proof (cases "callbacks (se_Listener x) (re_MessageID r)")
    case None
    with x show ?thesis by (simp add: Dispatch_def)
  next
    case cb: (Some cb)
    show ?thesis
    proof (cases cb)
      case (CbReply ch)
      with cb cp_free[OF assms x] have "chans s ch = None" by simp
      with x cb CbReply show ?thesis
        by (simp add: Dispatch_def syncRPC_callback_def event_RPCReply_def gthen_def gbind_def update_session_def)
    qed (use x cb in \<open>simp_all add: Dispatch_def createSubscription_callback_def
        establishSubscription_callback_def event_Notification_def gthen_def\<close>)
  qed
qed

lemma keeps_Dispatch_notification: "keeps I (Dispatch e i k 1 (NotificationValue n))"
proof -
  have *: "keeps I (run_callback e cb \<lparr>ev_eventID = k, ev_value = NotificationValue n\<rparr>)" for cb
    by (cases cb) (simp_all add: syncRPC_callback_def event_RPCReply_def keeps_nil_deref keeps_subscription_callbacks)
  show ?thesis unfolding Dispatch_def EventType_is_notification by (intro quiet_rules *)
qed

lemma keeps_listen_message: "keeps I (listen_message e i m)"
  unfolding listen_message_def
  by (intro quiet_rules keeps_Dispatch_reply keeps_Dispatch_notification)

lemma keeps_listener_update:
  "(\<And>x. se_Listener (f x) = se_Listener x) \<Longrightarrow> keeps I (update_session i f)"
  unfolding update_session_def by (intro keeps_modify cp_listener)

lemma keeps_listen_read: "keeps I (listen_read e i r)"
  unfolding listen_read_def Let_def
  by (intro quiet_rules keeps_listen_message keeps_listener_update) simp_all

lemma keeps_await_reply: "keeps I (await_reply e i h t)"
  unfolding await_reply_def by (intro quiet_rules keeps_listen_read)

end

lemma reply_cb_fields [simp]:
  "reply_cb (s\<lparr>world := w\<rparr>) = reply_cb s"
  "reply_cb (s\<lparr>trace := tr\<rparr>) = reply_cb s"
  "reply_cb (s\<lparr>chans := c\<rparr>) = reply_cb s"
  "reply_cb (s\<lparr>next_chan := n\<rparr>) = reply_cb s"
  "reply_cb (s\<lparr>Sessions := S\<rparr>) = reply_cb s"
  by (simp_all add: reply_cb_def fun_eq_iff)

lemma reply_cb_same_listener:
  "(\<And>x. se_Listener (f x) = se_Listener x) \<Longrightarrow>
   reply_cb (s\<lparr>heap := (heap s)(i := map_option f (heap s i))\<rparr>) = reply_cb s"
  by (auto simp: reply_cb_def fun_eq_iff)

lemma reply_cb_removed:
  "heap s i = Some x \<Longrightarrow>
   reply_cb (s\<lparr>heap := (heap s)(i \<mapsto> on_Listener (Remove k) x)\<rparr>) j l ch \<longleftrightarrow> reply_cb s j l ch \<and> \<not> (j = i \<and> l = k)"
  by (auto simp: reply_cb_def on_Listener_def)

lemma reply_cbI: "heap s i = Some x \<Longrightarrow> callbacks (se_Listener x) k = Some (CbReply ch) \<Longrightarrow> reply_cb s i k ch"
  by (auto simp: reply_cb_def)

lemma chan_inv_step:
  assumes "chan_inv s" "heap s i = Some x" "callbacks (se_Listener x) k = Some (CbReply ch)"
  shows "chan_inv (s\<lparr>chans := (chans s)(ch \<mapsto> r), heap := (heap s)(i \<mapsto> on_Listener (Remove k) x)\<rparr>)"
proof -
  let ?t = "s\<lparr>chans := (chans s)(ch \<mapsto> r)\<rparr>"
  have cb: "reply_cb s i k ch" using assms(2,3) by (rule reply_cbI)
  have rc: "reply_cb (?t\<lparr>heap := (heap ?t)(i \<mapsto> on_Listener (Remove k) x)\<rparr>) j l c \<longleftrightarrow>
      reply_cb s j l c \<and> \<not> (j = i \<and> l = k)" for j l c
    using reply_cb_removed[of ?t i x k j l c] assms(2) by simp
  show ?thesis using assms(1) cb unfolding chan_inv_def
    using rc by (auto simp: fun_upd_apply)
qed

interpretation chn: chan_pred chan_inv
proof unfold_locales
  fix s :: "'a ostate" and f :: "Session \<Rightarrow> Session" and i
  assume "chan_inv s" "\<And>x. se_Listener (f x) = se_Listener x"
  then show "chan_inv (s\<lparr>heap := (heap s)(i := map_option f (heap s i))\<rparr>)"
    unfolding chan_inv_def by (simp add: reply_cb_same_listener)
next
  fix s :: "'a ostate" and i x k ch
  assume "chan_inv s" "heap s i = Some x" "callbacks (se_Listener x) k = Some (CbReply ch)"
  then show "chans s ch = None" unfolding chan_inv_def by (blast intro: reply_cbI)
qed (simp_all add: chan_inv_step, simp_all add: chan_inv_def)

interpretation chf: chan_pred "\<lambda>s. chan_inv s \<and> chan_for ch mid s" for ch mid
proof unfold_locales
  fix s :: "'a ostate" and f :: "Session \<Rightarrow> Session" and i
  assume *: "chan_inv s \<and> chan_for ch mid s" "\<And>x. se_Listener (f x) = se_Listener x"
  then show "chan_inv (s\<lparr>heap := (heap s)(i := map_option f (heap s i))\<rparr>) \<and>
     chan_for ch mid (s\<lparr>heap := (heap s)(i := map_option f (heap s i))\<rparr>)"
    using chn.cp_listener by (auto simp: chan_for_def reply_cb_same_listener)
next
  fix s :: "'a ostate" and i x c and r :: RPCReply
  assume *: "chan_inv s \<and> chan_for ch mid s" "heap s i = Some x"
    "callbacks (se_Listener x) (re_MessageID r) = Some (CbReply c)"
  let ?t = "s\<lparr>chans := (chans s)(c \<mapsto> r)\<rparr>"
  have cb: "reply_cb s i (re_MessageID r) c" using *(2,3) by (rule reply_cbI)
  have sub: "reply_cb (?t\<lparr>heap := (heap ?t)(i \<mapsto> on_Listener (Remove (re_MessageID r)) x)\<rparr>) j l c' \<Longrightarrow>
      reply_cb s j l c'" for j l c'
    using reply_cb_removed[of ?t i x "re_MessageID r" j l c'] *(2) by simp
  have "chan_for ch mid (?t\<lparr>heap := (heap ?t)(i \<mapsto> on_Listener (Remove (re_MessageID r)) x)\<rparr>)"
    unfolding chan_for_def
  proof (intro conjI allI impI)
    show "k = mid" if "reply_cb (?t\<lparr>heap := (heap ?t)(i \<mapsto> on_Listener (Remove (re_MessageID r)) x)\<rparr>) j k ch" for j k
      using sub[OF that] *(1) by (auto simp: chan_for_def)
  qed (use *(1) cb in \<open>auto simp: chan_for_def split: if_splits\<close>)
  moreover have "chan_inv (s\<lparr>chans := (chans s)(c \<mapsto> r), heap := (heap s)(i \<mapsto> on_Listener (Remove (re_MessageID r)) x)\<rparr>)"
    using * chn.cp_reply by blast
  ultimately show "chan_inv (s\<lparr>chans := (chans s)(c \<mapsto> r), heap := (heap s)(i \<mapsto> on_Listener (Remove (re_MessageID r)) x)\<rparr>) \<and>
     chan_for ch mid (s\<lparr>chans := (chans s)(c \<mapsto> r), heap := (heap s)(i \<mapsto> on_Listener (Remove (re_MessageID r)) x)\<rparr>)"
    by simp
next
  fix s :: "'a ostate" and i x k c
  assume "chan_inv s \<and> chan_for ch mid s" "heap s i = Some x" "callbacks (se_Listener x) k = Some (CbReply c)"
  then show "chans s c = None" using chn.cp_free by blast
qed (simp_all add: chan_inv_def chan_for_def)

section \<open>A reply answers its request\<close>

lemma reply_cb_registered:
  "heap s i = Some x \<Longrightarrow>
   reply_cb (s\<lparr>heap := (heap s)(i \<mapsto> on_Listener (Register k cb) x)\<rparr>) j l ch \<longleftrightarrow>
     (if j = i \<and> l = k then cb = CbReply ch else reply_cb s j l ch)"
  by (auto simp: reply_cb_def on_Listener_def)

lemma reply_cb_rpc_sent:
  assumes "heap s sid = Some x"
  shows "reply_cb (rpc_sent sid x h oper req w s) j l ch \<longleftrightarrow>
    (if j = sid \<and> l = GetMessageID oper then ch = next_chan s else reply_cb s j l ch)"
proof -
  have "reply_cb (rpc_sent sid x h oper req w s) j l ch =
    reply_cb (s\<lparr>heap := (heap s)(sid \<mapsto> on_Listener (Register (GetMessageID oper) (CbReply (next_chan s))) x)\<rparr>) j l ch"
    by (simp add: rpc_sent_def reply_cb_def)
  then show ?thesis using reply_cb_registered[OF assms] by auto
qed

lemma chan_inv_fresh:
  assumes "chan_inv s" shows "\<not> reply_cb s i k (next_chan s)" "chans s (next_chan s) = None"
  using assms less_irrefl[of "next_chan s"] unfolding chan_inv_def by blast+

lemma chan_inv_rpc_sent:
  assumes "chan_inv s" "heap s sid = Some x"
  shows "chan_inv (rpc_sent sid x h oper req w s) \<and>
    chan_for (next_chan s) (GetMessageID oper) (rpc_sent sid x h oper req w s)"
proof -
  let ?t = "rpc_sent sid x h oper req w s"
  note rc = reply_cb_rpc_sent[OF assms(2), of h oper req w]
  have f: "next_chan ?t = Suc (next_chan s)" "chans ?t = chans s" by (simp_all add: rpc_sent_def)
  have a: "ch < next_chan s \<and> chans s ch = None" if "reply_cb s i k ch" for i k ch
    using assms(1) that unfolding chan_inv_def by blast
  have b: "ch < next_chan s" if "chans s ch \<noteq> None" for ch
    using assms(1) that unfolding chan_inv_def by blast
  have c: "i = j \<and> k = l" if "reply_cb s i k ch" "reply_cb s j l ch" for i j k l ch
    using assms(1) that unfolding chan_inv_def by blast
  note fresh = chan_inv_fresh[OF assms(1)]
  have "chan_inv ?t"
    unfolding chan_inv_def f rc
  proof (intro conjI allI impI)
    show "ch < Suc (next_chan s)" if "chans s ch \<noteq> None" for ch using b[OF that] by simp
  qed (use a c fresh in \<open>auto split: if_splits dest: less_SucI\<close>)
  moreover have "chan_for (next_chan s) (GetMessageID oper) ?t"
    unfolding chan_for_def f rc using fresh by (auto split: if_splits)
  ultimately show ?thesis by blast
qed

lemma chan_inv_fields [simp]:
  "chan_inv (s\<lparr>world := w\<rparr>) = chan_inv s"
  "chan_inv (s\<lparr>trace := tr\<rparr>) = chan_inv s"
  "chan_inv (s\<lparr>Sessions := S\<rparr>) = chan_inv s"
  by (simp_all add: chan_inv_def)

lemma chan_inv_take: "chan_inv s \<Longrightarrow> chan_inv (s\<lparr>chans := (chans s)(ch := None)\<rparr>)"
  by (auto simp: chan_inv_def)

lemma keeps_rpc_wait_chan: "keeps chan_inv (rpc_wait e sid h t ch)"
  unfolding rpc_wait_def
  by (intro chn.quiet_rules chn.keeps_await_reply keeps_modify chan_inv_take)

lemma SyncRPC_session_only:
  "marshall e oper = Inr req \<Longrightarrow> heap s sid = None \<Longrightarrow> snd (SyncRPC e (Some sid) oper t s) = s\<lparr>next_chan := Suc (next_chan s)\<rparr>"
  by (simp add: SyncRPC_def gthen_def session_at_def gbind_def)

lemma SyncRPC_no_pipe:
  "marshall e oper = Inr req \<Longrightarrow> heap s sid = Some x \<Longrightarrow> tp_ReadWriteCloser (se_Transport x) = None \<Longrightarrow>
   snd (SyncRPC e (Some sid) oper t s) = s\<lparr>next_chan := Suc (next_chan s),
     heap := (heap s)(sid \<mapsto> on_Listener (Register (GetMessageID oper) (CbReply (next_chan s))) x)\<rparr>"
  by (simp add: SyncRPC_def gthen_def update_session_def Transport_Send_def gbind_def[where m = nil_deref])

lemma chan_inv_next: "chan_inv s \<Longrightarrow> chan_inv (s\<lparr>next_chan := Suc (next_chan s)\<rparr>)"
  unfolding chan_inv_def by (auto dest: less_SucI)

lemma keeps_SyncRPC_chan: "keeps chan_inv (SyncRPC e r oper t)"
proof (rule keepsI)
  fix s :: "'a ostate" assume s: "chan_inv s"
  show "chan_inv (snd (SyncRPC e r oper t s))"
  proof (cases "marshall e oper")
    case (Inl err)
    with s show ?thesis by (simp add: SyncRPC_def)
  next
    case m: (Inr req)
    show ?thesis
    proof (cases r)
      case None
      with m s show ?thesis by (simp add: SyncRPC_def gthen_def chan_inv_next)
    next
      case r: (Some sid)
      show ?thesis
      proof (cases "heap s sid")
        case None
        with m s r show ?thesis by (simp add: SyncRPC_session_only chan_inv_next)
      next
        case x: (Some x)
        show ?thesis
        proof (cases "tp_ReadWriteCloser (se_Transport x)")
          case None
          have t: "chan_inv (rpc_sent sid x 0 oper req (world s) s)" using chan_inv_rpc_sent[OF s x] by blast
          show ?thesis unfolding r SyncRPC_no_pipe[OF m x None]
            using t by (simp add: rpc_sent_def)
        next
          case h: (Some h)
          from x h m show ?thesis
          proof (cases rule: SyncRPC_open[where t = t])
            case (failed er w)
            then show ?thesis using chan_inv_rpc_sent[OF s x] r by simp
          next
            case (waits w)
            have "chan_inv (rpc_sent sid x h oper req w s)" using chan_inv_rpc_sent[OF s x] by blast
            with keepsD[OF keeps_rpc_wait_chan] show ?thesis by (simp add: r waits)
          qed
        qed
      qed
    qed
  qed
qed

lemma rpc_wait_reply:
  assumes "rpc_wait e sid h t ch s = (Ret (Some r, err), s')" "chan_inv s" "chan_for ch mid s"
  shows "re_MessageID r = mid"
proof -
  obtain u where u: "await_reply e sid h t s = (Ret (), u)"
    and "(case chans u ch of
      Some res \<Rightarrow> gthen (modify (\<lambda>s. s\<lparr>chans := (chans s)(ch := None)\<rparr>)) (ret (Some res, None))
    | None \<Rightarrow> ret (None, Some (GoError ''timeout while executing request''))) u = (Ret (Some r, err), s')"
    using assms(1) unfolding rpc_wait_def gthen_def[of "await_reply e sid h t"]
    by (auto elim!: gbind_RetE)
  then have "chans u ch = Some r" by (auto simp: gthen_def split: option.splits)
  moreover have "chan_inv u \<and> chan_for ch mid u"
    using keepsD_eq[OF chf.keeps_await_reply _ u] assms(2,3) by blast
  ultimately show ?thesis by (simp add: chan_for_def)
qed

text \<open>The reply a synchronous RPC returns carries the identifier of its request.\<close>

lemma SyncRPC_reply_matches:
  assumes s: "chan_inv s" and run: "SyncRPC e (Some sid) oper t s = (Ret (Some r, err), s')"
  shows "re_MessageID r = GetMessageID oper"
proof -
  obtain req where m: "marshall e oper = Inr req"
    using run by (cases "marshall e oper") (simp_all add: SyncRPC_def)
  obtain x where x: "heap s sid = Some x"
    using run m by (cases "heap s sid") (simp_all add: SyncRPC_def gthen_def session_at_def gbind_def)
  obtain h where h: "tp_ReadWriteCloser (se_Transport x) = Some h"
    using run m x by (cases "tp_ReadWriteCloser (se_Transport x)")
      (simp_all add: SyncRPC_def gthen_def update_session_def Transport_Send_def gbind_def[where m = nil_deref])
  from x h m show ?thesis
  proof (cases rule: SyncRPC_open[where t = t])
    case (failed er w)
    with run show ?thesis by simp
  next
    case (waits w)
    with run chan_inv_rpc_sent[OF s x] show ?thesis by (auto intro: rpc_wait_reply)
  qed
qed

section \<open>The listener never blocks on a reply\<close>

definition unblocked :: "('s \<Rightarrow> bool) \<Rightarrow> ('s, 'a) go \<Rightarrow> bool" where
  "unblocked I m \<longleftrightarrow> (\<forall>s. I s \<longrightarrow> fst (m s) \<noteq> Abort Blocked)"

named_theorems go_unblocked

lemma unblockedI: "(\<And>s. I s \<Longrightarrow> fst (m s) \<noteq> Abort Blocked) \<Longrightarrow> unblocked I m"
  by (simp add: unblocked_def)

lemma unblocked_basic [go_unblocked]:
  "unblocked I (ret a)" "x \<noteq> Blocked \<Longrightarrow> unblocked I (abort x)" "unblocked I nil_deref" "unblocked I (gets f)"
  "unblocked I (modify g)" "unblocked J (ext k)" "unblocked J (emit z)" "unblocked J (update_session i h)"
  by (simp_all add: unblocked_def ext_def emit_def update_session_def split: prod.split)

lemma unblocked_gbind [go_unblocked]:
  assumes "unblocked I m" "keeps I m" "\<And>a. unblocked I (f a)"
  shows "unblocked I (gbind m f)"
proof (rule unblockedI)
  fix s assume s: "I s"
  obtain o' t where m: "m s = (o', t)" by fastforce
  then have "I t" using keepsD_eq[OF assms(2) s] by blast
  with m s assms(1,3) show "fst (gbind m f s) \<noteq> Abort Blocked"
    by (cases o') (auto simp: gbind_def unblocked_def dest: spec[where x = s])
qed

lemma unblocked_gthen [go_unblocked]:
  "unblocked I m \<Longrightarrow> keeps I m \<Longrightarrow> unblocked I n \<Longrightarrow> unblocked I (gthen m n)"
  by (simp add: gthen_def unblocked_gbind)

lemma unblocked_cases [go_unblocked]:
  "unblocked I m \<Longrightarrow> unblocked I n \<Longrightarrow> unblocked I (if b then m else n)"
  "unblocked I m \<Longrightarrow> (\<And>x. unblocked I (f x)) \<Longrightarrow> unblocked I (case y of None \<Rightarrow> m | Some x \<Rightarrow> f x)"
  "(\<And>x. unblocked I (g x)) \<Longrightarrow> (\<And>x. unblocked I (h x)) \<Longrightarrow> unblocked I (case z of Inl x \<Rightarrow> g x | Inr x \<Rightarrow> h x)"
  by (cases y; cases z; simp)+

lemma unblocked_session_at [go_unblocked]: "unblocked I (session_at r)"
  by (auto simp: unblocked_def session_at_def gbind_def split: option.split)

lemma unblocked_subscription_callbacks:
  "unblocked chan_inv (createSubscription_callback e r cs ev)"
  "unblocked chan_inv (establishSubscription_callback e r es ev)"
  unfolding createSubscription_callback_def establishSubscription_callback_def SendToKafka_def Eventf_def
  by (intro go_unblocked chn.quiet_rules; simp)+

lemma unblocked_Dispatch_notification: "unblocked chan_inv (Dispatch e i k 1 (NotificationValue n))"
proof -
  have u: "unblocked chan_inv (run_callback e cb \<lparr>ev_eventID = k, ev_value = NotificationValue n\<rparr>)" for cb
    by (cases cb) (simp_all add: syncRPC_callback_def event_RPCReply_def go_unblocked unblocked_subscription_callbacks)
  have k: "keeps chan_inv (run_callback e cb \<lparr>ev_eventID = k, ev_value = NotificationValue n\<rparr>)" for cb
    by (cases cb) (simp_all add: syncRPC_callback_def event_RPCReply_def keeps_nil_deref chn.keeps_subscription_callbacks)
  show ?thesis unfolding Dispatch_def EventType_is_notification
    by (intro go_unblocked chn.quiet_rules u k)
qed

lemma unblocked_listen_read: "unblocked chan_inv (listen_read e sid r)"
proof -
  have "unblocked chan_inv (listen_message e sid m)" for m
    unfolding listen_message_def
    by (intro go_unblocked unblocked_Dispatch_notification unblockedI[OF chn.Dispatch_reply_not_blocked])
  then show ?thesis
    unfolding listen_read_def Let_def
    by (intro go_unblocked chn.quiet_rules) (auto split: wait_result.split intro!: go_unblocked chn.keeps_listen_message)
qed

section \<open>Properties\<close>

lemma example_chan_inv: "chan_inv example_state"
  by (simp add: chan_inv_def reply_cb_def example_state_def example_Session_def)

text \<open>
  C2: a synchronous RPC that returns gives either a reply or an error, never both and never neither;
  and a reply carries the message identifier of the request that was sent, so no caller is given
  the answer to another request.
\<close>

theorem SyncRPC_answers_request:
  assumes "chan_inv s" and "SyncRPC e (Some sid) oper t s = (Ret (reply, err), s')"
  shows "(reply = None \<longleftrightarrow> err \<noteq> None) \<and> (\<forall>r. reply = Some r \<longrightarrow> re_MessageID r = GetMessageID oper)"
  using yieldsD[OF SyncRPC_reply_xor_error assms(2)] SyncRPC_reply_matches assms by fastforce

theorem SyncRPC_answers_request_witness:
  "\<exists>t. SyncRPC example_env (Some 0) (MCommit example_id []) 1 example_state = (Ret (Some example_answer, None), t) \<and>
     re_MessageID example_answer = GetMessageID (MCommit example_id [])"
proof -
  obtain t where run: "SyncRPC example_env (Some 0) (MCommit example_id []) 1 example_state = (Ret (Some example_answer, None), t)"
    using example_answers[where i = 0 and oper = "MCommit example_id []" and t = 1 and s = example_state]
    by (simp add: example_state_def example_idle_def example_Session_def)
  from SyncRPC_answers_request[OF example_chan_inv run] run show ?thesis by blast
qed

text \<open>
  The listener goroutine is never stopped by a reply that nobody reads. From a state in which
  every registered reply callback owns an empty channel, processing any read ends in such a state
  again and never blocks on a full channel, however late or often a device answers.
\<close>

lemma listener_never_blocks:
  assumes "chan_inv s"
  shows "fst (listen_read e sid r s) \<noteq> Abort Blocked \<and> chan_inv (snd (listen_read e sid r s))"
  using unblocked_listen_read assms keepsD[OF chn.keeps_listen_read assms] by (auto simp: unblocked_def)

text \<open>Requests on one session, each made when the one before it has returned.\<close>

fun SyncRPCs :: "'w env \<Rightarrow> sref \<Rightarrow> (RPCMethod \<times> 32 word) list \<Rightarrow> ('w, (RPCReply option \<times> gerror option) list) op" where
  "SyncRPCs e i [] = ret []"
| "SyncRPCs e i ((oper, timeout) # rest) =
     gbind (SyncRPC e (Some i) oper timeout) (\<lambda>r. gbind (SyncRPCs e i rest) (\<lambda>rs. ret (r # rs)))"

text \<open>A device that answers a sequence of requests: what is asked, the text of the request and the answer.\<close>

fun device_converses ::
    "'w env \<Rightarrow> Transport \<Rightarrow> handle \<Rightarrow> ((RPCMethod \<times> 32 word) \<times> string \<times> RPCReply) list \<Rightarrow> 'w \<Rightarrow> 'w \<Rightarrow> bool" where
  "device_converses e t h [] u w \<longleftrightarrow> w = u"
| "device_converses e t h (((oper, timeout), req, r) # rest) u w \<longleftrightarrow>
     (\<exists>v. device_answers e t oper timeout h req r u v \<and> device_converses e t h rest v w)"

text \<open>
  C3: a session serves any number of requests. When the listener of an open session is between two
  messages and the device answers each request while its caller waits, with the text of a reply framed
  for the session's protocol version and cut into any pieces that \<open>fragments\<close> allows, every \<open>SyncRPC\<close>
  returns exactly the reply to its own request and no error; each request has been written once, in
  order and nothing else; and the session is between two messages again, with the same transport, no
  callback left over and its channels in order.
\<close>

theorem SyncRPCs_complete:
  assumes "chan_inv s" and "heap s i = Some x" and "idle x"
    and "device_converses e (se_Transport x) h talk (world s) w"
  shows "\<exists>u y. SyncRPCs e i (map fst talk) s = (Ret (map (\<lambda>(_, _, r). (Some r, None)) talk), u) \<and>
    trace u = trace s @ map (\<lambda>(_, req, _). Sent h (Send_frame (tp_version (se_Transport x)) req)) talk \<and>
    world u = w \<and> chan_inv u \<and> heap u i = Some y \<and> idle y \<and> se_Transport y = se_Transport x \<and>
    callbacks (se_Listener y) = callbacks (se_Listener x) |` (- (\<lambda>((oper, _), _). GetMessageID oper) ` set talk)"
  using assms
proof (induction talk arbitrary: s x)
  case Nil
  then show ?case by (intro exI[of _ s] exI[of _ x]) (simp add: restrict_map_def)
next
  case (Cons a talk)
  obtain oper t req r where a: "a = ((oper, t), req, r)" by (metis surj_pair)
  obtain v where d: "device_answers e (se_Transport x) oper t h req r (world s) v"
    "device_converses e (se_Transport x) h talk v w" using Cons.prems(4) a by auto
  let ?s = "rpc_answered i x h oper req v s" and ?x = "on_Listener (Remove (GetMessageID oper)) x"
  have "chans s (next_chan s) = None" using chan_inv_fresh[OF Cons.prems(1)] by blast
  from answered_rpc[OF Cons.prems(2,3) this d(1)]
  have run: "SyncRPC e (Some i) oper t s = (Ret (Some r, None), ?s)" .
  have s: "chan_inv ?s" "heap ?s i = Some ?x" "idle ?x" "world ?s = v" "se_Transport ?x = se_Transport x"
    using keepsD_eq[OF keeps_SyncRPC_chan Cons.prems(1) run] Cons.prems(3) by (simp_all add: rpc_answered_def) (simp add: on_Listener_def)
  obtain u y where IH: "SyncRPCs e i (map fst talk) ?s = (Ret (map (\<lambda>(_, _, r). (Some r, None)) talk), u)"
    "trace u = trace ?s @ map (\<lambda>(_, req, _). Sent h (Send_frame (tp_version (se_Transport x)) req)) talk"
    "world u = w" "chan_inv u" "heap u i = Some y" "idle y" "se_Transport y = se_Transport x"
    "callbacks (se_Listener y) = callbacks (se_Listener ?x) |` (- (\<lambda>((oper, _), _). GetMessageID oper) ` set talk)"
    using Cons.IH[OF s(1,2,3)] d(2) s(4,5) by auto
  have "SyncRPCs e i (map fst (a # talk)) s = (Ret (map (\<lambda>(_, _, r). (Some r, None)) (a # talk)), u)"
    using IH(1) by (simp add: a gbind_Ret[where m = "SyncRPC e (Some i) oper t", OF run] gbind_Ret[where m = "SyncRPCs e i (map fst talk)", OF IH(1)])
  moreover have "trace ?s = trace s @ [Sent h (Send_frame (tp_version (se_Transport x)) req)]" by (simp add: rpc_answered_def)
  moreover have "callbacks (se_Listener ?x) |` (- (\<lambda>((oper, _), _). GetMessageID oper) ` set talk) =
      callbacks (se_Listener x) |` (- (\<lambda>((oper, _), _). GetMessageID oper) ` set (a # talk))"
    by (rule ext) (auto simp: restrict_map_def a on_Listener_def Remove_def)
  ultimately show ?case using IH by (intro exI[of _ u] exI[of _ y]) (simp add: a)
qed

text \<open>A session of protocol version 1.1 whose device delivers its reply in two reads.\<close>

definition example_Session11 :: Session where
  "example_Session11 = SetVersion ''v1.1'' example_Session"

definition example_env11 :: "unit env" where
  "example_env11 = example_env\<lparr>wait_Reads := (\<lambda>_ _ w. ([ReadData (take 9 (Send_frame ''v1.1'' ''<rpc-reply/>'')),
     ReadData (drop 9 (Send_frame ''v1.1'' ''<rpc-reply/>''))], w))\<rparr>"

lemma example_device11:
  "device_answers example_env11 (se_Transport example_Session11) (MCommit example_id []) 1 2 (xml_Header @ ''<rpc/>'')
     example_answer u ()"
proof -
  let ?cs = "[take 9 (Send_frame ''v1.1'' ''<rpc-reply/>''), drop 9 (Send_frame ''v1.1'' ''<rpc-reply/>'')]"
  have "fragments (rx_separator ''v1.1'') (Send_frame ''v1.1'' ''<rpc-reply/>'') ?cs"
    by (simp add: fragments_def Send_frame_def rx_separator_def msgSeparatorV11_def show_nat.simps digit_char_def)
  moreover have "separator_last ''v1.1'' ''<rpc-reply/>''" "chunk_ok ''<rpc-reply/>''"
    by (simp_all add: separator_last_def Send_frame_def rx_separator_def msgSeparatorV11_def show_nat.simps
        digit_char_def chunk_ok_def)
  moreover have "Contains ''<rpc-reply/>'' ''<rpc-reply''" by (simp add: Contains_def)
  moreover have "NewRPCReply example_env11 ''<rpc-reply/>'' = Inr example_answer"
    by (simp add: NewRPCReply_def example_answer_def example_env11_def)
  ultimately show ?thesis
    unfolding device_answers_def
    by (auto simp: example_Session11_def SetVersion_def example_Session_def marshall_def example_answer_def example_reply_def example_env11_def
        simp del: append.simps intro!: exI[of _ "''<rpc-reply/>''"] exI[of _ ?cs])
qed

theorem SyncRPCs_complete_witness:
  "\<exists>u y. SyncRPCs example_env11 0 [(MCommit example_id [], 1), (MCommit example_id [], 1)] (example_state\<lparr>heap := [0 \<mapsto> example_Session11]\<rparr>) =
     (Ret [(Some example_answer, None), (Some example_answer, None)], u) \<and> heap u 0 = Some y \<and> idle y"
proof -
  let ?s = "example_state\<lparr>heap := [0 \<mapsto> example_Session11]\<rparr>"
  let ?t = "((MCommit example_id [], 1), xml_Header @ ''<rpc/>'', example_answer)"
  have "chan_inv ?s"
    by (simp add: chan_inv_def reply_cb_def example_state_def example_Session_def example_Session11_def SetVersion_def)
  moreover have "device_converses example_env11 (se_Transport example_Session11) 2 [?t, ?t] (world ?s) ()"
    using example_device11 by simp
  moreover have "idle example_Session11" by (simp add: idle_def example_Session11_def SetVersion_def example_Session_def)
  ultimately show ?thesis
    using SyncRPCs_complete[of ?s 0 example_Session11 example_env11 2 "[?t, ?t]" "()"] by auto
qed

text \<open>
  C39: a message that follows another one in the same read is lost. When a listener that is between two
  messages reads a complete message, it does exactly what it would do if the read ended there: whatever
  bytes follow the separator, be they a whole second message or the start of one, have no effect, because
  the buffer of \<open>WaitForFunc\<close> does not outlive the call. A reply that a device sends right behind a
  notification can be missed in this way.
\<close>

theorem following_message_is_lost:
  assumes "heap s i = Some x" and "idle x" and "separator_last (tp_version (se_Transport x)) raw"
    and "tp_version (se_Transport x) = ''v1.1'' \<longrightarrow> chunk_ok raw"
  shows "listen_read e i (ReadData (Send_frame (tp_version (se_Transport x)) raw @ rest)) s =
    listen_read e i (ReadData (Send_frame (tp_version (se_Transport x)) raw)) s"
  using assms by (intro listen_drops_rest) simp_all

theorem following_message_is_lost_witness:
  "listen_read example_env 0 (ReadData (Send_frame ''v1.0'' ''<notification/>'' @ Send_frame ''v1.0'' ''<rpc-reply/>'')) example_state =
   listen_read example_env 0 (ReadData (Send_frame ''v1.0'' ''<notification/>'')) example_state"
  using following_message_is_lost[of example_state 0 example_Session "''<notification/>''" example_env "Send_frame ''v1.0'' ''<rpc-reply/>''"]
  by (simp add: example_state_def example_Session_def idle_def separator_last_def Send_frame_def rx_separator_def msgSeparator_def)

end
