(* ===== verification/Reconciler_Base.thy ===== *)
theory Reconciler_Base
  imports Reply_Channels
begin

text \<open>
  The base of every reconciler (\<open>operator-utils\<close>: \<open>util/reconciler.go\<close>, \<open>util/finalizer.go\<close>,
  \<open>util/predicates.go\<close>, \<open>util/apis/conditions.go\<close>) and what the controller runtime does with a
  reconciler's result. A reconciler is modelled with the API client for the kind it manages and the
  name of its event recorder.
\<close>

section \<open>Finalizers\<close>

definition IsBeingDeleted :: "'spec cr \<Rightarrow> bool" where
  "IsBeingDeleted obj \<longleftrightarrow>
     (case om_DeletionTimestamp (cr_Meta obj) of None \<Rightarrow> False | Some t \<Rightarrow> t \<noteq> 0)"

fun has_finalizer :: "string list \<Rightarrow> string \<Rightarrow> bool" where
  "has_finalizer [] finalizer = False"
| "has_finalizer (fin # fins) finalizer = (if fin = finalizer then True else has_finalizer fins finalizer)"

definition HasFinalizer :: "'spec cr \<Rightarrow> string \<Rightarrow> bool" where
  "HasFinalizer obj finalizer = has_finalizer (om_Finalizers (cr_Meta obj)) finalizer"

definition AddFinalizer :: "'spec cr \<Rightarrow> string \<Rightarrow> 'spec cr" where
  "AddFinalizer obj finalizer =
     (let f = om_Finalizers (cr_Meta obj) in
      if has_finalizer f finalizer then obj else set_Finalizers (f @ [finalizer]) obj)"

text \<open>The loop of \<open>RemoveFinalizer\<close>: it deletes in place and steps back after each deletion.\<close>

function remove_finalizer :: "string \<Rightarrow> string list \<Rightarrow> nat \<Rightarrow> string list" where
  "remove_finalizer finalizer f i =
     (if i < length f then
        (if f ! i = finalizer then remove_finalizer finalizer (take i f @ drop (i + 1) f) i
         else remove_finalizer finalizer f (i + 1))
      else f)"
  by pat_completeness auto
termination
  by (relation "measures [\<lambda>(_, f, i). length f - i]") auto

declare remove_finalizer.simps [simp del]

definition RemoveFinalizer :: "'spec cr \<Rightarrow> string \<Rightarrow> 'spec cr" where
  "RemoveFinalizer obj finalizer =
     set_Finalizers (remove_finalizer finalizer (om_Finalizers (cr_Meta obj)) 0) obj"

lemma has_finalizer_iff [simp]: "has_finalizer fs f \<longleftrightarrow> f \<in> set fs"
  by (induction fs) auto

lemma remove_finalizer_filter:
  "remove_finalizer fin f i = take i f @ filter (\<lambda>x. x \<noteq> fin) (drop i f)"
proof (induction fin f i rule: remove_finalizer.induct)
  case (1 fin f i)
  show ?case
  proof (cases "i < length f")
    case True
    have d: "drop i f = f ! i # drop (Suc i) f" using True by (simp add: Cons_nth_drop_Suc)
    show ?thesis
    proof (cases "f ! i = fin")
      case eq: True
      have "remove_finalizer fin f i = remove_finalizer fin (take i f @ drop (i + 1) f) i"
        using True eq by (subst remove_finalizer.simps) simp
      also have "\<dots> = take i f @ filter (\<lambda>x. x \<noteq> fin) (drop (Suc i) f)"
        using "1.IH"(1)[OF True eq] True by simp
      finally show ?thesis using d eq by simp
    next
      case False
      have "remove_finalizer fin f i = remove_finalizer fin f (i + 1)"
        using True False by (subst remove_finalizer.simps) simp
      also have "\<dots> = take (Suc i) f @ filter (\<lambda>x. x \<noteq> fin) (drop (Suc i) f)"
        using "1.IH"(2)[OF True False] by simp
      finally show ?thesis using d False True by (simp add: take_Suc_conv_app_nth)
    qed
  next
    case False
    then show ?thesis by (subst remove_finalizer.simps) simp
  qed
qed

lemma RemoveFinalizer_filter:
  "RemoveFinalizer obj f = set_Finalizers (filter (\<lambda>x. x \<noteq> f) (om_Finalizers (cr_Meta obj))) obj"
  by (simp add: RemoveFinalizer_def remove_finalizer_filter)

lemma finalizer_laws [simp]:
  "HasFinalizer (AddFinalizer obj f) f"
  "\<not> HasFinalizer (RemoveFinalizer obj f) f"
  "g \<noteq> f \<Longrightarrow> HasFinalizer (AddFinalizer obj f) g = HasFinalizer obj g"
  "g \<noteq> f \<Longrightarrow> HasFinalizer (RemoveFinalizer obj f) g = HasFinalizer obj g"
  by (auto simp: HasFinalizer_def AddFinalizer_def RemoveFinalizer_filter Let_def)

lemma RemoveFinalizer_AddFinalizer:
  assumes "\<not> HasFinalizer obj f"
  shows "RemoveFinalizer (AddFinalizer obj f) f = obj"
proof -
  have fs: "filter (\<lambda>x. x \<noteq> f) (om_Finalizers (cr_Meta obj)) = om_Finalizers (cr_Meta obj)"
    using assms by (auto simp: HasFinalizer_def intro: filter_True)
  show ?thesis
    using assms fs by (cases obj, cases "cr_Meta obj") (simp add: HasFinalizer_def AddFinalizer_def RemoveFinalizer_filter Let_def)
qed

lemma AddFinalizer_rest [simp]:
  "cr_Spec (AddFinalizer obj f) = cr_Spec obj" "cr_RPCStatus (AddFinalizer obj f) = cr_RPCStatus obj"
  "om_Name (cr_Meta (AddFinalizer obj f)) = om_Name (cr_Meta obj)"
  "om_Namespace (cr_Meta (AddFinalizer obj f)) = om_Namespace (cr_Meta obj)"
  by (simp_all add: AddFinalizer_def Let_def)

section \<open>Conditions\<close>

fun AddOrReplaceCondition :: "Condition \<Rightarrow> Condition list \<Rightarrow> Condition list" where
  "AddOrReplaceCondition c [] = [c]"
| "AddOrReplaceCondition c (condition # conditions) =
     (if co_Type c = co_Type condition then c # conditions
      else condition # AddOrReplaceCondition c conditions)"

fun GetCondition :: "string \<Rightarrow> Condition list \<Rightarrow> Condition option" where
  "GetCondition conditionType [] = None"
| "GetCondition conditionType (condition # conditions) =
     (if co_Type condition = conditionType then Some condition else GetCondition conditionType conditions)"

text \<open>One condition per type: the list is a map keyed by the type, as the CRD declares it.\<close>

definition conditions_wf :: "Condition list \<Rightarrow> bool" where
  "conditions_wf cs \<longleftrightarrow> distinct (map co_Type cs)"

lemma AddOrReplaceCondition_types:
  "set (map co_Type (AddOrReplaceCondition c cs)) = insert (co_Type c) (set (map co_Type cs))"
  by (induction cs) auto

lemma AddOrReplaceCondition_wf: "conditions_wf cs \<Longrightarrow> conditions_wf (AddOrReplaceCondition c cs)"
proof (induction cs)
  case Nil
  then show ?case by (simp add: conditions_wf_def)
next
  case (Cons d cs)
  then show ?case
    using AddOrReplaceCondition_types[of c cs] by (auto simp: conditions_wf_def)
qed

lemma GetCondition_AddOrReplace:
  "GetCondition t (AddOrReplaceCondition c cs) = (if t = co_Type c then Some c else GetCondition t cs)"
  by (induction cs) auto

section \<open>Reconcilers and their results\<close>

record ('w, 'spec) reconciler =
  rc_client :: "('w, 'spec) client"
  rc_recorder :: string

record Result =
  rs_Requeue :: bool
  rs_RequeueAfter :: int

definition zero_Result :: Result where
  "zero_Result = \<lparr>rs_Requeue = False, rs_RequeueAfter = 0\<rparr>"

definition ReconcileError :: string where "ReconcileError = ''ReconcileError''"
definition ReconcileErrorReason :: string where "ReconcileErrorReason = ''LastReconcileCycleFailed''"
definition ReconcileSuccess :: string where "ReconcileSuccess = ''ReconcileSuccess''"
definition ReconcileSuccessReason :: string where "ReconcileSuccessReason = ''LastReconcileCycleSucceded''"
definition ConditionTrue :: string where "ConditionTrue = ''True''"

definition second :: int where
  "second = 1000000000"

text \<open>The condition is recorded in the object that is then written to the API server.\<close>

definition with_condition :: "Condition \<Rightarrow> 'spec cr \<Rightarrow> 'spec cr" where
  "with_condition c obj = obj\<lparr>cr_RPCStatus :=
     SetConditions (AddOrReplaceCondition c (GetConditions (cr_RPCStatus obj))) (cr_RPCStatus obj)\<rparr>"

definition error_condition :: "int \<Rightarrow> 'spec cr \<Rightarrow> gerror \<Rightarrow> Condition" where
  "error_condition now obj issue = \<lparr>co_Type = ReconcileError, co_Status = ConditionTrue,
     co_ObservedGeneration = om_Generation (cr_Meta obj), co_LastTransitionTime = now,
     co_Reason = ReconcileErrorReason, co_Message = Error issue\<rparr>"

definition success_condition :: "int \<Rightarrow> 'spec cr \<Rightarrow> Condition" where
  "success_condition now obj = \<lparr>co_Type = ReconcileSuccess, co_Status = ConditionTrue,
     co_ObservedGeneration = om_Generation (cr_Meta obj), co_LastTransitionTime = now,
     co_Reason = ReconcileSuccessReason, co_Message = []\<rparr>"

text \<open>Every kind embeds \<open>RPCStatus\<close>, so every object is \<open>ConditionsAware\<close>.\<close>

definition ManageErrorWithRequeue ::
    "'w env \<Rightarrow> ('w, 'spec) reconciler \<Rightarrow> 'spec cr \<Rightarrow> gerror option \<Rightarrow> int \<Rightarrow> ('w, Result \<times> gerror option) op" where
  "ManageErrorWithRequeue e r obj issue requeueAfter = (case issue of None \<Rightarrow> nil_deref | Some iss \<Rightarrow>
     gthen (emit (Event (rc_recorder r) (om_Namespace (cr_Meta obj)) (om_Name (cr_Meta obj))
       ''Warning'' ''ProcessingError'' (Error iss)))
     (gbind (ext (metav1_Now e)) (\<lambda>now.
      gbind (ext (k_StatusUpdate (rc_client r) (with_condition (error_condition now obj iss) obj))) (\<lambda>err.
        case err of
          Some x \<Rightarrow> ret (zero_Result\<lparr>rs_RequeueAfter := requeueAfter\<rparr>, Some x)
        | None \<Rightarrow> ret (zero_Result\<lparr>rs_RequeueAfter := requeueAfter\<rparr>, Some iss)))))"

definition ManageError ::
    "'w env \<Rightarrow> ('w, 'spec) reconciler \<Rightarrow> 'spec cr \<Rightarrow> gerror option \<Rightarrow> ('w, Result \<times> gerror option) op" where
  "ManageError e r obj issue = ManageErrorWithRequeue e r obj issue 0"

definition ManageSuccessWithRequeue ::
    "'w env \<Rightarrow> ('w, 'spec) reconciler \<Rightarrow> 'spec cr \<Rightarrow> int \<Rightarrow> ('w, Result \<times> gerror option) op" where
  "ManageSuccessWithRequeue e r obj requeueAfter =
     gbind (ext (metav1_Now e)) (\<lambda>now.
     gbind (ext (k_StatusUpdate (rc_client r) (with_condition (success_condition now obj) obj))) (\<lambda>err.
       ret (zero_Result\<lparr>rs_RequeueAfter := requeueAfter\<rparr>, err)))"

definition ManageSuccess ::
    "'w env \<Rightarrow> ('w, 'spec) reconciler \<Rightarrow> 'spec cr \<Rightarrow> ('w, Result \<times> gerror option) op" where
  "ManageSuccess e r obj = ManageSuccessWithRequeue e r obj 0"

lemma with_condition_rest [simp]:
  "cr_Spec (with_condition c obj) = cr_Spec obj"
  "cr_Meta (with_condition c obj) = cr_Meta obj"
  "st_Status (cr_RPCStatus (with_condition c obj)) = st_Status (cr_RPCStatus obj)"
  "st_RpcReply (cr_RPCStatus (with_condition c obj)) = st_RpcReply (cr_RPCStatus obj)"
  "st_SubscriptionID (cr_RPCStatus (with_condition c obj)) = st_SubscriptionID (cr_RPCStatus obj)"
  "st_Conditions (cr_RPCStatus (with_condition c obj)) = AddOrReplaceCondition c (st_Conditions (cr_RPCStatus obj))"
  by (simp_all add: with_condition_def SetConditions_def GetConditions_def)

text \<open>An error is reported to the runtime as an error, whatever the status update does.\<close>

lemma ManageErrorWithRequeue_error:
  "yields (\<lambda>(res, err). err \<noteq> None \<and> rs_RequeueAfter res = after) (ManageErrorWithRequeue e r obj (Some iss) after)"
  unfolding ManageErrorWithRequeue_def by (simp, intro go_yields) auto

lemma ManageErrorWithRequeue_returns:
  obtains res err w where "ManageErrorWithRequeue e r obj (Some iss) after s = (Ret (res, Some err),
    s\<lparr>trace := trace s @ [Event (rc_recorder r) (om_Namespace (cr_Meta obj)) (om_Name (cr_Meta obj))
       ''Warning'' ''ProcessingError'' (Error iss)], world := w\<rparr>)"
proof -
  obtain now w1 where n: "metav1_Now e (world s) = (now, w1)" by fastforce
  obtain err w2 where u: "k_StatusUpdate (rc_client r) (with_condition (error_condition now obj iss) obj) w1 = (err, w2)"
    by fastforce
  show ?thesis
    using that by (cases err) (simp_all add: ManageErrorWithRequeue_def emit_def n u)
qed

lemma ManageSuccess_returns:
  obtains res err w where "ManageSuccess e r obj s = (Ret (res, err), s\<lparr>world := w\<rparr>)"
proof -
  obtain now w1 where n: "metav1_Now e (world s) = (now, w1)" by fastforce
  obtain err w2 where u: "k_StatusUpdate (rc_client r) (with_condition (success_condition now obj) obj) w1 = (err, w2)"
    by fastforce
  show ?thesis
    using that by (simp add: ManageSuccess_def ManageSuccessWithRequeue_def n u)
qed

section \<open>The controller runtime\<close>

text \<open>What \<open>reconcileHandler\<close> does with the queue after a reconciliation has returned.\<close>

datatype queue_action = AddRateLimited | AddAfter int | Forget

definition reconcileHandler :: "Result \<times> gerror option \<Rightarrow> queue_action" where
  "reconcileHandler r = (case r of (result, err) \<Rightarrow>
     if err \<noteq> None then AddRateLimited
     else if rs_RequeueAfter result > 0 then AddAfter (rs_RequeueAfter result)
     else if rs_Requeue result then AddRateLimited
     else Forget)"

text \<open>
  \<open>ResourceGenerationOrFinalizerChangedPredicate.Update\<close>: which update events reach the queue.
  A missing object is \<open>None\<close>.
\<close>

definition ResourceChanged_Update :: "'spec cr option \<Rightarrow> 'spec cr option \<Rightarrow> bool" where
  "ResourceChanged_Update objectOld objectNew = (case objectOld of None \<Rightarrow> False
     | Some old \<Rightarrow> (case objectNew of None \<Rightarrow> False
     | Some new \<Rightarrow>
        \<not> (om_Generation (cr_Meta new) = om_Generation (cr_Meta old) \<and>
           om_Finalizers (cr_Meta new) = om_Finalizers (cr_Meta old))))"

section \<open>Frame\<close>

lemmas Manage_defs = ManageError_def ManageErrorWithRequeue_def ManageSuccess_def ManageSuccessWithRequeue_def

text \<open>The base adds an event and changes the world, nothing else.\<close>

context quiet
begin

lemma keeps_Manage:
  "keeps I (ManageErrorWithRequeue e r obj iss n)" "keeps I (ManageError e r obj iss)"
  "keeps I (ManageSuccess e r obj)"
  unfolding Manage_defs by (intro quiet_rules; simp)+

end

section \<open>Properties\<close>

text \<open>
  Recording a condition keeps one condition per type, which the CRDs' list-map key demands, makes
  the new condition the one that is found under its type, and leaves the conditions of other types as
  they were.
\<close>

lemma AddOrReplaceCondition_correct:
  assumes "conditions_wf cs"
  shows "conditions_wf (AddOrReplaceCondition c cs) \<and>
    (\<forall>t. GetCondition t (AddOrReplaceCondition c cs) = (if t = co_Type c then Some c else GetCondition t cs))"
  using assms by (simp add: AddOrReplaceCondition_wf GetCondition_AddOrReplace)

text \<open>
  An error always makes the runtime retry with rate limiting: after \<open>ManageErrorWithRequeue\<close> with
  any delay the request goes back to the queue by \<open>AddRateLimited\<close>, so the two-second delay that the
  controllers ask for is never used, whether or not the status update succeeded.
\<close>

theorem ManageErrorWithRequeue_ignores_delay:
  "\<exists>r. fst (ManageErrorWithRequeue e rc obj (Some issue) delay s) = Ret r \<and>
     reconcileHandler r = AddRateLimited"
proof -
  obtain res err w where "fst (ManageErrorWithRequeue e rc obj (Some issue) delay s) = Ret (res, Some err)"
    by (rule ManageErrorWithRequeue_returns[of e rc obj issue delay s]) simp
  then show ?thesis by (auto simp: reconcileHandler_def)
qed

text \<open>
  Writing a condition, or any other change of the status subresource, does not wake the controller
  up: an update that keeps the generation and the finalizers is filtered out, so a reconciliation does
  not trigger itself through its own status update.
\<close>

lemma status_update_does_not_requeue:
  "\<not> ResourceChanged_Update (Some obj) (Some (with_condition c (obj\<lparr>cr_RPCStatus := st\<rparr>)))"
  by (simp add: ResourceChanged_Update_def)

end
