(* ===== verification/Common.thy ===== *)
theory Common
  imports Reconciler_Base
begin

text \<open>
  \<open>controllers/common.go\<close>: names and finalizers, the mount point check, XML validation and the
  dependency check that the controllers share; and the block that six controllers repeat after a
  synchronous RPC. (\<open>SendToKafka\<close> is with the callbacks that use it, in \<open>Netconf_Session\<close>.)
\<close>

section \<open>Names\<close>

definition mountPointControllerName :: string where "mountPointControllerName = ''mountpoint''"
definition commitControllerName :: string where "commitControllerName = ''commit''"
definition getControllerName :: string where "getControllerName = ''get''"
definition getConfigControllerName :: string where "getConfigControllerName = ''get-config''"
definition editConfigControllerName :: string where "editConfigControllerName = ''edit-config''"
definition lockControllerName :: string where "lockControllerName = ''lock''"
definition unlockControllerName :: string where "unlockControllerName = ''unlock''"
definition rpcControllerName :: string where "rpcControllerName = ''RPC''"
definition createSubscriptionControllerName :: string where
  "createSubscriptionControllerName = ''create-subscription''"
definition establishSubscriptionControllerName :: string where
  "establishSubscriptionControllerName = ''establish-subscription''"

definition mountpointFinalizer :: string where
  "mountpointFinalizer = ''io.openshift-telco.netconf.mountpoint.finalizer''"
definition establishSubscriptionFinalizer :: string where
  "establishSubscriptionFinalizer = ''io.openshift-telco.netconf.establishsubscription.finalizer''"

section \<open>Objects of any kind\<close>

text \<open>
  The interface types \<open>client.Object\<close> and \<open>metav1.Object\<close>, as far as the operator instantiates them:
  a type assertion \<open>obj.(*netconfv1.Lock)\<close> is a case distinction on the constructor.
\<close>

datatype Object =
    OMountPoint MountPoint | OLock Lock | OUnlock Unlock | OCommit Commit | OEditConfig EditConfig
  | OGet Get | OGetConfig GetConfig | ORPC RPC | OCreateSubscription CreateSubscription
  | OEstablishSubscription EstablishSubscription

fun Object_Meta :: "Object \<Rightarrow> ObjectMeta" where
  "Object_Meta (OMountPoint x) = cr_Meta x"
| "Object_Meta (OLock x) = cr_Meta x"
| "Object_Meta (OUnlock x) = cr_Meta x"
| "Object_Meta (OCommit x) = cr_Meta x"
| "Object_Meta (OEditConfig x) = cr_Meta x"
| "Object_Meta (OGet x) = cr_Meta x"
| "Object_Meta (OGetConfig x) = cr_Meta x"
| "Object_Meta (ORPC x) = cr_Meta x"
| "Object_Meta (OCreateSubscription x) = cr_Meta x"
| "Object_Meta (OEstablishSubscription x) = cr_Meta x"

definition GetName :: "Object \<Rightarrow> string" where
  "GetName obj = om_Name (Object_Meta obj)"

section \<open>Validation\<close>

definition CheckMountPointExists :: "'w env \<Rightarrow> NamespacedName \<Rightarrow> ('w, bool) op" where
  "CheckMountPointExists e namespacedName =
     gbind (ext (k_Get (mountpoints e) namespacedName)) (\<lambda>r. case r of
       Inl err \<Rightarrow> ret False
     | Inr instance \<Rightarrow> gbind (gets Sessions) (\<lambda>S. ret (S (GetNamespacedName instance) \<noteq> None)))"

definition ValidateXML :: "'w env \<Rightarrow> string \<Rightarrow> gerror option" where
  "ValidateXML e data = (case xml_Unmarshal_any e data of
     Some err \<Rightarrow> Some (GoError (''provided XML is not valid: '' @ data @ ''. '' @ [CHR 0x0A] @ Error err))
   | None \<Rightarrow> None)"

text \<open>\<open>client.Get\<close> into an object whose kind is known at run time only.\<close>

definition get_as :: "('spec cr \<Rightarrow> Object) \<Rightarrow> ('w, 'spec) client \<Rightarrow> NamespacedName \<Rightarrow> ('w, gerror + Object) op" where
  "get_as wrap c nn = gbind (ext (k_Get c nn)) (\<lambda>r. case r of Inl err \<Rightarrow> ret (Inl err) | Inr x \<Rightarrow> ret (Inr (wrap x)))"

fun Get_Object :: "'w env \<Rightarrow> NamespacedName \<Rightarrow> Object \<Rightarrow> ('w, gerror + Object) op" where
  "Get_Object e nn (OMountPoint _) = get_as OMountPoint (mountpoints e) nn"
| "Get_Object e nn (OLock _) = get_as OLock (locks e) nn"
| "Get_Object e nn (OUnlock _) = get_as OUnlock (unlocks e) nn"
| "Get_Object e nn (OCommit _) = get_as OCommit (commits e) nn"
| "Get_Object e nn (OEditConfig _) = get_as OEditConfig (editconfigs e) nn"
| "Get_Object e nn (OGet _) = get_as OGet (gets_client e) nn"
| "Get_Object e nn (OGetConfig _) = get_as OGetConfig (getconfigs e) nn"
| "Get_Object e nn (ORPC _) = get_as ORPC (rpcs e) nn"
| "Get_Object e nn (OCreateSubscription _) = get_as OCreateSubscription (createsubscriptions e) nn"
| "Get_Object e nn (OEstablishSubscription _) = get_as OEstablishSubscription (establishsubscriptions e) nn"

text \<open>\<open>validateExist\<close> fills the object it is given, or returns the error it reports.\<close>

definition validateExist :: "'w env \<Rightarrow> string \<Rightarrow> DependsOn \<Rightarrow> Object \<Rightarrow> ('w, gerror + Object) op" where
  "validateExist e namespace dep instance =
     gbind (Get_Object e \<lparr>nn_Namespace = namespace, nn_Name = dep_Name dep\<rparr> instance) (\<lambda>r. case r of
       Inl err \<Rightarrow>
         if IsNotFound err then
           ret (Inl (GoError (''provided resource '' @ dep_Name dep @ '' not found in namespace '' @ namespace)))
         else ret (Inl (GoError (''failed to read resource '' @ dep_Name dep @ '' from namespace '' @ namespace)))
     | Inr obj \<Rightarrow> ret (Inr obj))"

definition validateStatus :: "string \<Rightarrow> string \<Rightarrow> string \<Rightarrow> gerror option" where
  "validateStatus status name namespace =
     (if status = ''success'' then None
      else Some (GoError (''Dependent resource '' @ name @ '' from namespace '' @ namespace @ '' is in '' @
        status @ '' state'')))"

text \<open>
  \<open>validateDependency\<close>. In its second switch a failed type assertion leaves a nil pointer, whose
  field access panics.
\<close>

definition validateDependency :: "'w env \<Rightarrow> string \<Rightarrow> DependsOn \<Rightarrow> ('w, gerror option) op" where
  "validateDependency e namespace dep =
     (let instance = (if dep_Kind dep = ''Commit'' then Some (OCommit zero_Commit)
                      else if dep_Kind dep = ''EditConfig'' then Some (OEditConfig zero_EditConfig)
                      else if dep_Kind dep = ''Lock'' then Some (OLock zero_Lock)
                      else None)
      in case instance of
        None \<Rightarrow> ret (Some (GoError (''invalid dependendy. Only Commit, EditConfig and Lock are supported. '' @
          dep_Kind dep @ '' was provided'')))
      | Some inst \<Rightarrow> gbind (validateExist e namespace dep inst) (\<lambda>r. case r of
          Inl err \<Rightarrow> ret (Some err)
        | Inr obj \<Rightarrow>
            if dep_Kind dep = ''Commit'' then
              (case obj of OCommit i \<Rightarrow> ret (validateStatus (st_Status (cr_RPCStatus i)) (dep_Name dep) namespace)
               | _ \<Rightarrow> nil_deref)
            else if dep_Kind dep = ''EditConfig'' then
              (case obj of OEditConfig i \<Rightarrow> ret (validateStatus (st_Status (cr_RPCStatus i)) (dep_Name dep) namespace)
               | _ \<Rightarrow> nil_deref)
            else if dep_Kind dep = ''Lock'' then
              (case obj of OLock i \<Rightarrow> ret (validateStatus (st_Status (cr_RPCStatus i)) (dep_Name dep) namespace)
               | _ \<Rightarrow> nil_deref)
            else ret None))"

section \<open>What the controllers repeat\<close>

text \<open>The mount point half of every \<open>isValid\<close>: the check, and the error when it fails.\<close>

definition require_MountPoint :: "'w env \<Rightarrow> string \<Rightarrow> string \<Rightarrow> ('w, bool \<times> gerror option) op" where
  "require_MountPoint e namespace mountpoint =
     gbind (CheckMountPointExists e \<lparr>nn_Namespace = namespace, nn_Name = mountpoint\<rparr>) (\<lambda>exists.
       if \<not> exists then ret (False, Some (GoError (''MountPoint '' @ mountpoint @ '' doesn't exists'')))
       else ret (True, None))"

text \<open>The block \<open>if !obj.Spec.DependsOn.IsNil() { err := validateDependency(...) ... }\<close>.\<close>

definition check_dependency :: "'w env \<Rightarrow> string \<Rightarrow> DependsOn \<Rightarrow> ('w, gerror option) op" where
  "check_dependency e namespace dep = (if \<not> IsNil dep then validateDependency e namespace dep else ret None)"

text \<open>
  The tail of \<open>manageOperatorLogic\<close>: \<open>if err != nil || reply.Errors != nil\<close> with its two assignments,
  then the two of the success case. A nil reply is dereferenced by either test or assignment.
\<close>

definition report_reply :: "RPCReply option \<Rightarrow> gerror option \<Rightarrow> 'spec cr \<Rightarrow> ('w, 'spec cr \<times> gerror option) op" where
  "report_reply reply err obj =
     (if err \<noteq> None then
        (case reply of None \<Rightarrow> nil_deref
         | Some r \<Rightarrow> ret (set_RpcReply (re_RawReply r) (set_Status ''failed'' obj), err))
      else (case reply of None \<Rightarrow> nil_deref
         | Some r \<Rightarrow>
             if re_Errors r \<noteq> [] then ret (set_RpcReply (re_RawReply r) (set_Status ''failed'' obj), err)
             else ret (set_RpcReply (re_Data r) (set_Status ''success'' obj), None)))"

text \<open>\<open>Sessions[key]\<close>: nil when the key is absent.\<close>

definition session_of :: "string \<Rightarrow> ('w, sref option) op" where
  "session_of key = gets (\<lambda>s. Sessions s key)"

lemma session_of_run [simp]: "session_of k s = (Ret (Sessions s k), s)"
  "gbind (session_of k) f s = f (Sessions s k) s"
  by (simp_all add: session_of_def)

lemma keeps_session_of [go_pres]: "keeps I (session_of k)"
  by (simp add: session_of_def keeps_gets)

section \<open>Computations that only ask the world\<close>

text \<open>\<open>asks m\<close>: \<open>m\<close> always returns and changes nothing but the world.\<close>

definition asks :: "('w, 'a) op \<Rightarrow> bool" where
  "asks m \<longleftrightarrow> (\<forall>s. \<exists>a w. m s = (Ret a, s\<lparr>world := w\<rparr>))"

named_theorems go_asks

lemma asksE:
  assumes "asks m"
  obtains a w where "m s = (Ret a, s\<lparr>world := w\<rparr>)"
  using assms unfolding asks_def by blast

lemma same_world [simp]: "\<exists>w. (s :: 'w ostate) = s\<lparr>world := w\<rparr>"
  by (rule exI[of _ "world s"]) simp

lemma asks_basic [go_asks]: "asks (ret a)" "asks (gets g)" "asks (ext f)" "asks (session_of k)"
proof -
  show "asks (ret a)" "asks (gets g)" "asks (session_of k)" by (simp_all add: asks_def)
  have "\<exists>a w. ext f s = (Ret a, s\<lparr>world := w\<rparr>)" for s using ext_Ret[of f s] by blast
  then show "asks (ext f)" unfolding asks_def ..
qed

lemma asks_gbind [go_asks]:
  assumes "asks m" "\<And>a. asks (f a)"
  shows "asks (gbind m f)"
  unfolding asks_def
proof
  fix s
  obtain a w where m: "m s = (Ret a, s\<lparr>world := w\<rparr>)" using assms(1) by (rule asksE)
  obtain b v where "f a (s\<lparr>world := w\<rparr>) = (Ret b, (s\<lparr>world := w\<rparr>)\<lparr>world := v\<rparr>)"
    using assms(2) by (rule asksE)
  with m show "\<exists>a w. gbind m f s = (Ret a, s\<lparr>world := w\<rparr>)" by (simp add: gbind_def) blast
qed

lemma asks_cases [go_asks]:
  "asks m \<Longrightarrow> asks n \<Longrightarrow> asks (if b then m else n)"
  "asks m \<Longrightarrow> (\<And>x. asks (f x)) \<Longrightarrow> asks (case y of None \<Rightarrow> m | Some x \<Rightarrow> f x)"
  "(\<And>x. asks (g x)) \<Longrightarrow> (\<And>x. asks (h x)) \<Longrightarrow> asks (case z of Inl x \<Rightarrow> g x | Inr x \<Rightarrow> h x)"
  "(\<And>a b. asks (k a b)) \<Longrightarrow> asks (case p of (a, b) \<Rightarrow> k a b)"
  by (cases y; cases z; cases p; simp)+

lemma asks_keeps:
  assumes "asks m" "\<And>s w. I s \<Longrightarrow> I (s\<lparr>world := w\<rparr>)"
  shows "keeps I m"
proof (rule keepsI)
  fix s assume "I s"
  obtain a w where "m s = (Ret a, s\<lparr>world := w\<rparr>)" using assms(1) by (rule asksE)
  with \<open>I s\<close> show "I (snd (m s))" by (simp add: assms(2))
qed

lemma asks_CheckMountPointExists [go_asks]: "asks (CheckMountPointExists e nn)"
  unfolding CheckMountPointExists_def by (intro go_asks)

lemma asks_require_MountPoint [go_asks]: "asks (require_MountPoint e ns mp)"
  unfolding require_MountPoint_def by (intro go_asks)

section \<open>When the checks pass\<close>

text \<open>The abstract contract of the mount point check, as a predicate on the state.\<close>

definition mountpoint_ready :: "'w env \<Rightarrow> string \<Rightarrow> string \<Rightarrow> 'w ostate \<Rightarrow> bool" where
  "mountpoint_ready e namespace mountpoint s \<longleftrightarrow>
     (case fst (k_Get (mountpoints e) \<lparr>nn_Namespace = namespace, nn_Name = mountpoint\<rparr> (world s)) of
        Inl _ \<Rightarrow> False | Inr mp \<Rightarrow> Sessions s (GetNamespacedName mp) \<noteq> None)"

lemma require_MountPoint_run:
  obtains w where "require_MountPoint e ns mp s =
    (Ret (if mountpoint_ready e ns mp s then (True, None)
          else (False, Some (GoError (''MountPoint '' @ mp @ '' doesn't exists'')))), s\<lparr>world := w\<rparr>)"
proof -
  obtain g w where "k_Get (mountpoints e) \<lparr>nn_Namespace = ns, nn_Name = mp\<rparr> (world s) = (g, w)" by fastforce
  then show ?thesis
    by (intro that[of w], cases g) (auto simp: require_MountPoint_def CheckMountPointExists_def mountpoint_ready_def gbind_assoc)
qed

text \<open>
  The API server returns the object that was asked for. With this, a mount point that is ready has
  its session under the key by which the controllers look it up.
\<close>

definition honest_Get :: "('w, 'spec) client \<Rightarrow> bool" where
  "honest_Get c \<longleftrightarrow> (\<forall>nn w. case fst (k_Get c nn w) of Inl _ \<Rightarrow> True
     | Inr x \<Rightarrow> om_Namespace (cr_Meta x) = nn_Namespace nn \<and> om_Name (cr_Meta x) = nn_Name nn)"

lemma mountpoint_ready_session:
  assumes h: "honest_Get (mountpoints e)"
    and "mountpoint_ready e (om_Namespace (cr_Meta obj)) mp s"
  shows "Sessions s (GetMountPointNamespacedName obj mp) \<noteq> None"
proof -
  let ?nn = "\<lparr>nn_Namespace = om_Namespace (cr_Meta obj), nn_Name = mp\<rparr>"
  obtain x where x: "fst (k_Get (mountpoints e) ?nn (world s)) = Inr x"
    and S: "Sessions s (GetNamespacedName x) \<noteq> None"
    using assms(2) by (auto simp: mountpoint_ready_def split: sum.splits)
  have "om_Namespace (cr_Meta x) = om_Namespace (cr_Meta obj) \<and> om_Name (cr_Meta x) = mp"
    using h[unfolded honest_Get_def, rule_format, of ?nn "world s"] x by simp
  then have "GetNamespacedName x = GetMountPointNamespacedName obj mp"
    by (simp add: GetNamespacedName_def GetMountPointNamespacedName_def)
  with S show ?thesis by simp
qed

text \<open>The abstract contract of the dependency check: the resource exists and has succeeded.\<close>

definition succeeded :: "gerror + 'spec cr \<Rightarrow> bool" where
  "succeeded g \<longleftrightarrow> (case g of Inl _ \<Rightarrow> False | Inr x \<Rightarrow> st_Status (cr_RPCStatus x) = ''success'')"

definition dependency_met :: "'w env \<Rightarrow> string \<Rightarrow> DependsOn \<Rightarrow> 'w \<Rightarrow> bool" where
  "dependency_met e namespace dep w \<longleftrightarrow>
     (let nn = \<lparr>nn_Namespace = namespace, nn_Name = dep_Name dep\<rparr> in
       dep_Kind dep = ''Commit'' \<and> succeeded (fst (k_Get (commits e) nn w)) \<or>
       dep_Kind dep = ''EditConfig'' \<and> succeeded (fst (k_Get (editconfigs e) nn w)) \<or>
       dep_Kind dep = ''Lock'' \<and> succeeded (fst (k_Get (locks e) nn w)))"

lemma validateDependency_run:
  obtains err w where "validateDependency e ns dep s = (Ret err, s\<lparr>world := w\<rparr>)"
    "err = None \<longleftrightarrow> dependency_met e ns dep (world s)"
proof -
  let ?nn = "\<lparr>nn_Namespace = ns, nn_Name = dep_Name dep\<rparr>"
  consider "dep_Kind dep = ''Commit''" | "dep_Kind dep = ''EditConfig''" | "dep_Kind dep = ''Lock''"
    | "dep_Kind dep \<notin> {''Commit'', ''EditConfig'', ''Lock''}" by blast
  then have "\<exists>err w. validateDependency e ns dep s = (Ret err, s\<lparr>world := w\<rparr>) \<and>
      (err = None \<longleftrightarrow> dependency_met e ns dep (world s))"
  proof cases
    case 1
    obtain g w where "k_Get (commits e) ?nn (world s) = (g, w)" by fastforce
    with 1 show ?thesis
      by (cases g) (auto simp: validateDependency_def validateExist_def get_as_def gbind_assoc
          dependency_met_def succeeded_def validateStatus_def)
  next
    case 2
    obtain g w where "k_Get (editconfigs e) ?nn (world s) = (g, w)" by fastforce
    with 2 show ?thesis
      by (cases g) (auto simp: validateDependency_def validateExist_def get_as_def gbind_assoc
          dependency_met_def succeeded_def validateStatus_def)
  next
    case 3
    obtain g w where "k_Get (locks e) ?nn (world s) = (g, w)" by fastforce
    with 3 show ?thesis
      by (cases g) (auto simp: validateDependency_def validateExist_def get_as_def gbind_assoc
          dependency_met_def succeeded_def validateStatus_def)
  next
    case 4
    then have "validateDependency e ns dep s = (Ret (Some (GoError (''invalid dependendy. Only Commit, EditConfig and Lock are supported. '' @
          dep_Kind dep @ '' was provided''))), s\<lparr>world := world s\<rparr>)"
      by (simp add: validateDependency_def)
    moreover have "\<not> dependency_met e ns dep (world s)" using 4 by (simp add: dependency_met_def Let_def)
    ultimately show ?thesis by blast
  qed
  then show ?thesis using that by blast
qed

lemma asks_validateDependency [go_asks]: "asks (validateDependency e ns dep)"
  unfolding asks_def using validateDependency_run by metis

text \<open>A resource may go ahead when it names no dependency or the one it names is met.\<close>

definition dependency_ok :: "'w env \<Rightarrow> string \<Rightarrow> DependsOn \<Rightarrow> 'w \<Rightarrow> bool" where
  "dependency_ok e namespace dep w \<longleftrightarrow> IsNil dep \<or> dependency_met e namespace dep w"

lemma check_dependency_run:
  obtains err w where "check_dependency e ns dep s = (Ret err, s\<lparr>world := w\<rparr>)"
    "err = None \<longleftrightarrow> dependency_ok e ns dep (world s)"
proof (cases "IsNil dep")
  case True
  then show ?thesis by (intro that[of None "world s"]) (simp_all add: check_dependency_def dependency_ok_def)
next
  case False
  obtain err w where "validateDependency e ns dep s = (Ret err, s\<lparr>world := w\<rparr>)"
    "err = None \<longleftrightarrow> dependency_met e ns dep (world s)" by (rule validateDependency_run)
  with False show ?thesis by (intro that[of err w]) (simp_all add: check_dependency_def dependency_ok_def)
qed

lemma asks_check_dependency [go_asks]: "asks (check_dependency e ns dep)"
  unfolding check_dependency_def by (intro go_asks)

section \<open>Properties\<close>

text \<open>
  C33: the dependency check decides the abstract contract, for the three kinds that it supports (\<open>Commit\<close>,
  \<open>EditConfig\<close>, \<open>Lock\<close>). It always returns, without touching the operator's own state; it returns no
  error exactly when a resource of that kind and name exists in the namespace and its status is
  \<open>success\<close>. Its second switch never meets an object of another kind.
\<close>

theorem validateDependency_decides:
  assumes "dep_Kind dep \<in> {''Commit'', ''EditConfig'', ''Lock''}"
  shows "\<exists>err w. validateDependency e namespace dep s = (Ret err, s\<lparr>world := w\<rparr>) \<and>
     (err = None \<longleftrightarrow> dependency_met e namespace dep (world s))"
  by (rule validateDependency_run) blast

theorem validateDependency_decides_witness:
  "\<exists>w. validateDependency example_env ''ns'' example_dep example_state = (Ret None, example_state\<lparr>world := w\<rparr>)"
proof -
  have "dependency_met example_env ''ns'' example_dep (world example_state)"
    by (simp add: dependency_met_def Let_def succeeded_def example_objects)
  then show ?thesis using validateDependency_decides[of example_dep example_env "''ns''" example_state] by (auto simp: example_dep_def)
qed



end
