(* ===== verification/Reconcile_Frame.thy ===== *)
theory Reconcile_Frame
  imports Common
begin

text \<open>
  The \<open>Reconcile\<close> method that eight controllers repeat word for word (all but those of \<open>MountPoint\<close>
  and \<open>EstablishSubscription\<close>, which have finalizers), as a function of what differs between them, and
  the interface between it and a controller: the locale \<open>rpc_controller\<close>. A second locale,
  \<open>single_rpc\<close>, is the contract of a \<open>manageOperatorLogic\<close> that sends one request and reports the reply.
\<close>

section \<open>The reconciliation of a kind without finalizers\<close>

definition reconcile_rpc ::
    "'w env \<Rightarrow> ('w, 'spec) reconciler \<Rightarrow> 'spec cr \<Rightarrow> ('spec cr \<Rightarrow> Object) \<Rightarrow>
     (Object \<Rightarrow> ('w, bool \<times> gerror option) op) \<Rightarrow> (Object \<Rightarrow> bool) \<Rightarrow>
     ('spec cr \<Rightarrow> ('w, 'spec cr \<times> gerror option) op) \<Rightarrow>
     NamespacedName \<Rightarrow> ('w, Result \<times> gerror option) op" where
  "reconcile_rpc e r zero wrap isValid isInitialized manageOperatorLogic req =
     gbind (ext (k_Get (rc_client r) req)) (\<lambda>g. case g of
       Inl err \<Rightarrow>
         if IsNotFound err then ret (zero_Result, None)
         else ManageError e r zero (Some err)
     | Inr instance \<Rightarrow>
         gbind (isValid (wrap instance)) (\<lambda>(ok, err).
           if \<not> ok then ManageErrorWithRequeue e r instance err (2 * second)
           else if \<not> isInitialized (wrap instance) then
             gbind (ext (k_Update (rc_client r) instance)) (\<lambda>err. case err of
               Some x \<Rightarrow> ManageError e r instance (Some x)
             | None \<Rightarrow> ret (zero_Result, None))
           else if IsBeingDeleted instance then ret (zero_Result, None)
           else gbind (manageOperatorLogic instance) (\<lambda>(instance', err).
             if err \<noteq> None then ManageError e r instance' err
             else ManageSuccess e r instance')))"

lemma Manage_sends [simp]:
  "sends (snd (ManageErrorWithRequeue e r obj iss n s)) = sends s"
  "sends (snd (ManageError e r obj iss s)) = sends s"
  "sends (snd (ManageSuccess e r obj s)) = sends s"
  by (rule keepsD[OF snt.keeps_Manage(1)] keepsD[OF snt.keeps_Manage(2)] keepsD[OF snt.keeps_Manage(3)], rule refl)+

text \<open>A reconciliation keeps what the base, the validation and the operation keep.\<close>

lemma keeps_reconcile_rpc:
  assumes q: "quiet I" and "\<And>obj. asks (isValid (wrap obj))" and "\<And>obj. keeps I (logic obj)"
  shows "keeps I (reconcile_rpc e r zero wrap isValid isInitialized logic req)"
proof -
  have v: "keeps I (isValid (wrap obj))" for obj
    by (rule asks_keeps[OF assms(2)]) (rule quiet.st_world[OF q])
  show ?thesis
    unfolding reconcile_rpc_def by (intro quiet.quiet_rules[OF q] quiet.keeps_Manage[OF q] v assms(3))
qed

section \<open>The interface of a controller\<close>

text \<open>
  What a controller promises: its initialization has nothing to do, its validation only asks the
  world, gives an error when it refuses, and its operation is made of RPCs, so that it keeps whatever
  an RPC keeps.
\<close>

locale rpc_controller =
  fixes e :: "'w env" and r :: "('w, 'spec) reconciler" and zero :: "'spec cr" and wrap :: "'spec cr \<Rightarrow> Object"
    and isValid :: "Object \<Rightarrow> ('w, bool \<times> gerror option) op" and isInitialized :: "Object \<Rightarrow> bool"
    and logic :: "'spec cr \<Rightarrow> ('w, 'spec cr \<times> gerror option) op"
  assumes initialized: "isInitialized (wrap obj)"
    and valid_asks: "asks (isValid (wrap obj))"
    and valid_error: "yields (\<lambda>(ok, err). ok \<or> err \<noteq> None) (isValid (wrap obj))"
    and logic_keeps: "stable_send I \<Longrightarrow> keeps I (logic obj)"
    and logic_object: "yields (\<lambda>(obj', err). cr_Meta obj' = cr_Meta obj \<and> cr_Spec obj' = cr_Spec obj) (logic obj)"
begin

abbreviation reconcile :: "NamespacedName \<Rightarrow> ('w, Result \<times> gerror option) op" where
  "reconcile \<equiv> reconcile_rpc e r zero wrap isValid isInitialized logic"

lemma keeps_reconcile:
  assumes "stable_send I"
  shows "keeps I (reconcile req)"
proof (rule keeps_reconcile_rpc)
  show "quiet I" using assms unfolding stable_send_def stable_def by blast
qed (rule valid_asks logic_keeps[OF assms])+

text \<open>An object that is not there, not valid or about to go is not acted upon.\<close>

lemma reconcile_missing:
  assumes "k_Get (rc_client r) req (world s) = (Inl (NotFound m), w)"
  shows "reconcile req s = (Ret (zero_Result, None), s\<lparr>world := w\<rparr>)"
  using assms by (simp add: reconcile_rpc_def)

lemma reconcile_invalid:
  assumes "k_Get (rc_client r) req (world s) = (Inr obj, w)"
    and "isValid (wrap obj) (s\<lparr>world := w\<rparr>) = (Ret (False, err), t)"
  obtains x v where "err = Some x" "reconcile req s = ManageErrorWithRequeue e r obj (Some x) (2 * second) (s\<lparr>world := v\<rparr>)"
proof -
  obtain x where x: "err = Some x" using yieldsD[OF valid_error assms(2)] by auto
  obtain a v where "isValid (wrap obj) (s\<lparr>world := w\<rparr>) = (Ret a, (s\<lparr>world := w\<rparr>)\<lparr>world := v\<rparr>)"
    using valid_asks by (rule asksE)
  then have "t = s\<lparr>world := v\<rparr>" using assms(2) by simp
  then show ?thesis
    using assms x by (intro that[of x v]) (simp_all add: reconcile_rpc_def gbind_def[where m = "isValid (wrap obj)"])
qed

lemma reconcile_valid:
  assumes "k_Get (rc_client r) req (world s) = (Inr obj, w)"
    and "isValid (wrap obj) (s\<lparr>world := w\<rparr>) = (Ret (True, err), t)"
  shows "reconcile req s =
    (if IsBeingDeleted obj then (Ret (zero_Result, None), t)
     else gbind (logic obj) (\<lambda>(obj', err). if err \<noteq> None then ManageError e r obj' err else ManageSuccess e r obj') t)"
  using assms by (simp add: reconcile_rpc_def gbind_def[where m = "isValid (wrap obj)"] initialized)

text \<open>Whatever is sent to a device is sent by the operation, on a valid object that is there to stay.\<close>

lemma reconcile_guarded:
  assumes "sends (snd (reconcile req s)) \<noteq> sends s"
  obtains obj w x u where "k_Get (rc_client r) req (world s) = (Inr obj, w)"
    "isValid (wrap obj) (s\<lparr>world := w\<rparr>) = (Ret (True, x), s\<lparr>world := u\<rparr>)" "\<not> IsBeingDeleted obj"
    "sends (snd (logic obj (s\<lparr>world := u\<rparr>))) \<noteq> sends s"
proof -
  obtain g w where g: "k_Get (rc_client r) req (world s) = (g, w)" by fastforce
  have quiet: "sends (snd (m t)) = sends s" if "keeps (\<lambda>u. sends u = sends s) m" "sends t = sends s"
    for m :: "('w, Result \<times> gerror option) op" and t
    using keepsD[OF that(1), of t] that(2) by simp
  note mng = snt.keeps_Manage
  have u: "sends (s\<lparr>world := v\<rparr>) = sends s" for v by (simp add: sends_def)
  obtain obj where obj: "g = Inr obj"
    using assms g quiet[OF mng(2), of "s\<lparr>world := w\<rparr>"] u
    by (cases g) (auto simp: reconcile_rpc_def split: if_splits)
  obtain a v where v: "isValid (wrap obj) (s\<lparr>world := w\<rparr>) = (Ret a, (s\<lparr>world := w\<rparr>)\<lparr>world := v\<rparr>)"
    using valid_asks by (rule asksE)
  obtain ok x where a: "a = (ok, x)" by fastforce
  have run: "reconcile req s = (if \<not> ok then ManageErrorWithRequeue e r obj x (2 * second) (s\<lparr>world := v\<rparr>)
      else if IsBeingDeleted obj then (Ret (zero_Result, None), s\<lparr>world := v\<rparr>)
      else gbind (logic obj) (\<lambda>(obj', err). if err \<noteq> None then ManageError e r obj' err else ManageSuccess e r obj') (s\<lparr>world := v\<rparr>))"
    using g obj v a by (simp add: reconcile_rpc_def gbind_def[where m = "isValid (wrap obj)"] initialized)
  have ok: "ok" "\<not> IsBeingDeleted obj"
    using assms run quiet[OF mng(1)[where e = e and r = r and obj = obj and iss = x and n = "2 * second"], of "s\<lparr>world := v\<rparr>"] u by (auto split: if_splits)
  obtain o' t where l: "logic obj (s\<lparr>world := v\<rparr>) = (o', t)" by fastforce
  have "sends t \<noteq> sends s"
  proof
    assume t: "sends t = sends s"
    have "sends (snd (reconcile req s)) = sends s"
      using run ok l quiet[OF mng(2) t] quiet[OF mng(3) t] t
      by (cases o') (auto simp: gbind_def split: prod.split)
    with assms show False ..
  qed
  then show ?thesis using that g obj v a ok l by simp
qed

text \<open>An error of validation reaches the runtime as an error, so the request is retried.\<close>

lemma reconcile_invalid_retries:
  assumes "k_Get (rc_client r) req (world s) = (Inr obj, w)"
    and "isValid (wrap obj) (s\<lparr>world := w\<rparr>) = (Ret (False, err), t)"
  shows "\<exists>res. fst (reconcile req s) = Ret res \<and> reconcileHandler res = AddRateLimited \<and>
    sends (snd (reconcile req s)) = sends s"
proof -
  obtain x v where run: "reconcile req s = ManageErrorWithRequeue e r obj (Some x) (2 * second) (s\<lparr>world := v\<rparr>)"
    using reconcile_invalid[OF assms] by metis
  obtain res er w' where "ManageErrorWithRequeue e r obj (Some x) (2 * second) (s\<lparr>world := v\<rparr>) = (Ret (res, Some er),
    (s\<lparr>world := v\<rparr>)\<lparr>trace := trace (s\<lparr>world := v\<rparr>) @ [Event (rc_recorder r) (om_Namespace (cr_Meta obj)) (om_Name (cr_Meta obj))
       ''Warning'' ''ProcessingError'' (Error x)], world := w'\<rparr>)"
    by (rule ManageErrorWithRequeue_returns)
  then show ?thesis unfolding run by (simp add: reconcileHandler_def sends_def)
qed

end

text \<open>Every \<open>isValid\<close> starts with the mount point check.\<close>

lemma require_MountPoint_error:
  "yields (\<lambda>(ok, err). ok \<or> err \<noteq> None) (require_MountPoint e ns mp)"
  unfolding require_MountPoint_def by (intro go_yields) auto

lemma require_MountPoint_True: "require_MountPoint e ns mp s = (Ret (True, x), t) \<Longrightarrow> x = None"
proof -
  have "yields (\<lambda>(ok, err). ok \<longrightarrow> err = None) (require_MountPoint e ns mp)"
    unfolding require_MountPoint_def by (intro go_yields) auto
  then show "require_MountPoint e ns mp s = (Ret (True, x), t) \<Longrightarrow> x = None" by (auto dest: yieldsD)
qed

lemma yields_refuse:
  assumes m: "yields (\<lambda>(ok, err). ok \<or> err \<noteq> None) m" and n: "yields (\<lambda>(ok, err). ok \<or> err \<noteq> None) n"
  shows "yields (\<lambda>(ok, err). ok \<or> err \<noteq> None) (gbind m (\<lambda>(ok, err). if \<not> ok then ret (False, err) else n))"
  unfolding yields_def
proof (intro allI impI)
  fix s a t
  assume "gbind m (\<lambda>(ok, err). if \<not> ok then ret (False, err) else n) s = (Ret a, t)"
  then obtain ok err u where "m s = (Ret (ok, err), u)"
    and "(if \<not> ok then ret (False, err) else n) u = (Ret a, t)" by (auto elim!: gbind_RetE)
  then show "case a of (ok, err) \<Rightarrow> ok \<or> err \<noteq> None"
    using yieldsD[OF m, of s] yieldsD[OF n, of u] by (cases ok) auto
qed

lemma require_MountPoint_ready:
  assumes "mountpoint_ready e ns mp s"
  obtains w where "require_MountPoint e ns mp s = (Ret (True, None), s\<lparr>world := w\<rparr>)"
  using require_MountPoint_run[of e ns mp s] assms by auto

section \<open>One request, one reply\<close>

text \<open>
  The contract of an operation that looks its session up, builds one request, waits for the reply and
  reports it in the object's status.
\<close>

definition rpc_once ::
    "'w env \<Rightarrow> ('spec cr \<Rightarrow> string) \<Rightarrow> ('spec cr \<Rightarrow> ('w, RPCMethod) op) \<Rightarrow> ('spec cr \<Rightarrow> 32 word) \<Rightarrow>
     'spec cr \<Rightarrow> ('w, 'spec cr \<times> gerror option) op" where
  "rpc_once e key build timeout obj =
     gbind (session_of (key obj)) (\<lambda>s. gbind (build obj) (\<lambda>m.
       gbind (SyncRPC e s m (timeout obj)) (\<lambda>(reply, err). report_reply reply err obj)))"

text \<open>What the object says of a reply.\<close>

definition reported :: "RPCReply \<Rightarrow> 'spec cr \<Rightarrow> 'spec cr" where
  "reported r obj = (if re_Errors r = [] then set_RpcReply (re_Data r) (set_Status ''success'' obj)
     else set_RpcReply (re_RawReply r) (set_Status ''failed'' obj))"

lemma report_reply_Some [simp]: "report_reply (Some r) None obj = ret (reported r obj, None)"
  by (simp add: report_reply_def reported_def)

lemma report_reply_None [simp]: "report_reply None err obj = nil_deref"
  by (simp add: report_reply_def)

lemma reported_rest [simp]:
  "cr_Meta (reported r obj) = cr_Meta obj" "cr_Spec (reported r obj) = cr_Spec obj"
  "st_Conditions (cr_RPCStatus (reported r obj)) = st_Conditions (cr_RPCStatus obj)"
  "(st_Status (cr_RPCStatus (reported r obj)) = ''success'') = (re_Errors r = [])"
  by (simp_all add: reported_def)

lemma keeps_report_reply: "keeps I (report_reply reply err obj)"
  unfolding report_reply_def by (intro go_pres)

lemma yields_report_reply:
  "yields (\<lambda>(obj', err'). cr_Meta obj' = cr_Meta obj \<and> cr_Spec obj' = cr_Spec obj) (report_reply reply err obj)"
  unfolding report_reply_def by (intro go_yields) auto

text \<open>
  What a reconciliation does once it has a session and a request: it waits for the reply and writes
  the object with what it says, or it panics.
\<close>

definition perform_rpc ::
    "'w env \<Rightarrow> ('w, 'spec) reconciler \<Rightarrow> 'spec cr \<Rightarrow> sref option \<Rightarrow> RPCMethod \<Rightarrow> 32 word \<Rightarrow>
     ('w, Result \<times> gerror option) op" where
  "perform_rpc e r obj session m timeout s = (case SyncRPC e session m timeout s of
     (Ret (Some reply, _), t) \<Rightarrow> ManageSuccess e r (reported reply obj) t
   | (Ret (None, _), t) \<Rightarrow> (Abort (Panic ''invalid memory address or nil pointer dereference''), t)
   | (Abort x, t) \<Rightarrow> (Abort x, t))"

lemma perform_rpc_sends:
  assumes x: "heap s i = Some x" "tp_ReadWriteCloser (se_Transport x) = Some h" "marshall e m = Inr q"
  shows "sends (snd (perform_rpc e r obj (Some i) m t s)) = sends s @ [Sent h (Send_frame (tp_version (se_Transport x)) q)]"
proof -
  obtain o' u where run: "SyncRPC e (Some i) m t s = (o', u)" by fastforce
  have u: "sends u = sends s @ [Sent h (Send_frame (tp_version (se_Transport x)) q)]"
    using SyncRPC_sends[OF x, of t] run by simp
  have "sends (snd (ManageSuccess e r obj' u)) = sends u" for obj' :: "'b cr"
    using keepsD[OF snt.keeps_Manage(3)] by blast
  then show ?thesis
    using run u by (cases o') (auto simp: perform_rpc_def split: prod.split option.split)
qed

lemma example_perform_sends:
  "sends (snd (perform_rpc example_env r obj (Some 0) m t example_state)) \<noteq> sends example_state"
  using perform_rpc_sends[of example_state 0 example_Session 2 example_env m "xml_Header @ ''<rpc/>''" r obj t]
  by (simp add: example_state_def example_Session_def marshall_def)

locale single_rpc =
  fixes e :: "'w env" and key :: "'spec cr \<Rightarrow> string" and build :: "'spec cr \<Rightarrow> ('w, RPCMethod) op"
    and timeout :: "'spec cr \<Rightarrow> 32 word" and logic :: "'spec cr \<Rightarrow> ('w, 'spec cr \<times> gerror option) op"
  assumes logic_once: "logic obj = rpc_once e key build timeout obj"
    and build_keeps: "(\<And>s w. I s \<Longrightarrow> I (s\<lparr>world := w\<rparr>)) \<Longrightarrow> keeps I (build obj)"
begin

lemma once_keeps_rpc:
  assumes q: "quiet I" and "\<And>r m t. keeps I (SyncRPC e r m t)"
  shows "keeps I (logic obj)"
  unfolding logic_once rpc_once_def
  by (intro quiet.quiet_rules[OF q] keeps_session_of assms(2) build_keeps quiet.st_world[OF q] keeps_report_reply)

lemma once_keeps: "stable_send I \<Longrightarrow> keeps I (logic obj)"
  by (rule once_keeps_rpc) (auto simp: stable_send_def stable_def intro: stable_send.keeps_SyncRPC)

lemma once_object: "yields (\<lambda>(obj', err). cr_Meta obj' = cr_Meta obj \<and> cr_Spec obj' = cr_Spec obj) (logic obj)"
  unfolding logic_once rpc_once_def by (intro go_yields yields_report_reply)

text \<open>Whatever the operation returns is a report of a reply, and never an error.\<close>

lemma once_reports: "yields (\<lambda>(obj', err). err = None \<and> (\<exists>r. obj' = reported r obj)) (logic obj)"
  unfolding yields_def logic_once rpc_once_def
proof (intro allI impI)
  fix s a t
  assume "gbind (session_of (key obj)) (\<lambda>s. gbind (build obj) (\<lambda>m.
       gbind (SyncRPC e s m (timeout obj)) (\<lambda>(reply, err). report_reply reply err obj))) s = (Ret a, t)"
  then obtain sid m u reply err v where run: "SyncRPC e sid m (timeout obj) u = (Ret (reply, err), v)"
    and rep: "report_reply reply err obj v = (Ret a, t)"
    by (auto elim!: gbind_RetE)
  have "reply = None \<longleftrightarrow> err \<noteq> None" using yieldsD[OF SyncRPC_reply_xor_error run] by simp
  with rep show "case a of (obj', err) \<Rightarrow> err = None \<and> (\<exists>r. obj' = reported r obj)"
    by (cases reply) auto
qed

lemma once_run:
  assumes "Sessions s (key obj) = sid" and "build obj s = (Ret m, s\<lparr>world := w\<rparr>)"
  shows "logic obj s = gbind (SyncRPC e sid m (timeout obj)) (\<lambda>(reply, err). report_reply reply err obj) (s\<lparr>world := w\<rparr>)"
  using assms by (simp add: logic_once rpc_once_def gbind_def[where m = "build obj"])

lemma once_reply:
  assumes "Sessions s (key obj) = sid" and "build obj s = (Ret m, s\<lparr>world := w\<rparr>)"
    and "SyncRPC e sid m (timeout obj) (s\<lparr>world := w\<rparr>) = (Ret (Some r, err), t)"
  shows "logic obj s = (Ret (reported r obj, None), t)"
proof -
  have "err = None" using yieldsD[OF SyncRPC_reply_xor_error assms(3)] by simp
  then show ?thesis using assms by (simp add: once_run gbind_def)
qed

lemma once_panics:
  assumes "Sessions s (key obj) = sid" and "build obj s = (Ret m, s\<lparr>world := w\<rparr>)"
    and "SyncRPC e sid m (timeout obj) (s\<lparr>world := w\<rparr>) = (Ret (None, err), t)"
  shows "logic obj s = (Abort (Panic ''invalid memory address or nil pointer dereference''), t)"
  using assms by (simp add: once_run gbind_def)

lemma once_performs:
  assumes b: "builds (build obj) f"
  shows "\<exists>i v. length i = 36 \<and>
    gbind (logic obj) (\<lambda>(obj', err). if err \<noteq> None then ManageError e r obj' err else ManageSuccess e r obj')
      (s\<lparr>world := u\<rparr>) =
    perform_rpc e r obj (Sessions s (key obj)) (f i) (timeout obj) (s\<lparr>world := v\<rparr>)"
proof -
  let ?s = "s\<lparr>world := u\<rparr>"
  obtain i v where i: "length i = 36" and m: "build obj ?s = (Ret (f i), ?s\<lparr>world := v\<rparr>)"
    using b by (rule buildsE)
  obtain o' t where run: "SyncRPC e (Sessions s (key obj)) (f i) (timeout obj) (?s\<lparr>world := v\<rparr>) = (o', t)" by fastforce
  have S: "Sessions ?s (key obj) = Sessions s (key obj)" by simp
  have "gbind (logic obj) (\<lambda>(obj', err). if err \<noteq> None then ManageError e r obj' err else ManageSuccess e r obj') ?s =
    perform_rpc e r obj (Sessions s (key obj)) (f i) (timeout obj) (s\<lparr>world := v\<rparr>)"
  proof (cases o')
    case (Ret a)
    obtain reply err where a: "a = (reply, err)" by fastforce
    show ?thesis
      using once_reply[OF S m] once_panics[OF S m] run Ret a
      by (cases reply) (simp_all add: gbind_def[where m = "logic obj"] perform_rpc_def)
  next
    case (Abort x)
    then show ?thesis using once_run[OF S m] run by (simp add: gbind_def perform_rpc_def)
  qed
  with i show ?thesis by blast
qed

lemma once_sends:
  assumes "Sessions s (key obj) = Some i" and "build obj s = (Ret m, s\<lparr>world := w\<rparr>)"
    and "heap s i = Some x" "tp_ReadWriteCloser (se_Transport x) = Some h" "marshall e m = Inr req"
  shows "sends (snd (logic obj s)) = sends s @ [Sent h (Send_frame (tp_version (se_Transport x)) req)]"
proof -
  let ?u = "s\<lparr>world := w\<rparr>"
  have x: "heap ?u i = Some x" using assms(3) by simp
  obtain o' t where run: "SyncRPC e (Some i) m (timeout obj) ?u = (o', t)" by fastforce
  have "sends t = sends s @ [Sent h (Send_frame (tp_version (se_Transport x)) req)]"
    using SyncRPC_sends[OF x assms(4,5), of "timeout obj"] run by (simp add: sends_def)
  moreover have "snd (logic obj s) = t"
  proof (cases o')
    case (Ret a)
    then show ?thesis using once_run[OF assms(1,2)] run
      by (cases a) (auto simp: gbind_def report_reply_def split: option.split)
  next
    case (Abort _)
    then show ?thesis using once_run[OF assms(1,2)] run by (simp add: gbind_def)
  qed
  ultimately show ?thesis by simp
qed

end

section \<open>Operations that wait for a dependency\<close>

text \<open>The start of \<open>manageOperatorLogic\<close> of \<open>Unlock\<close> and \<open>EditConfig\<close>: return the dependency's error, or go on.\<close>

definition with_dependency ::
    "'w env \<Rightarrow> string \<Rightarrow> DependsOn \<Rightarrow> ('spec cr \<Rightarrow> ('w, 'spec cr \<times> gerror option) op) \<Rightarrow>
     'spec cr \<Rightarrow> ('w, 'spec cr \<times> gerror option) op" where
  "with_dependency e namespace dep rest obj =
     gbind (check_dependency e namespace dep) (\<lambda>err. case err of
       Some x \<Rightarrow> ret (obj, Some x)
     | None \<Rightarrow> rest obj)"

lemma with_dependency_ok:
  assumes "dependency_ok e ns dep (world s)"
  obtains w where "with_dependency e ns dep rest obj s = rest obj (s\<lparr>world := w\<rparr>)"
proof -
  obtain err w where "check_dependency e ns dep s = (Ret err, s\<lparr>world := w\<rparr>)"
    "err = None \<longleftrightarrow> dependency_ok e ns dep (world s)" by (rule check_dependency_run)
  then show ?thesis using assms that[of w] by (simp add: with_dependency_def gbind_def)
qed

lemma with_dependency_waits:
  assumes "\<not> dependency_ok e ns dep (world s)"
  obtains x w where "with_dependency e ns dep rest obj s = (Ret (obj, Some x), s\<lparr>world := w\<rparr>)"
proof -
  obtain err w where "check_dependency e ns dep s = (Ret err, s\<lparr>world := w\<rparr>)"
    "err = None \<longleftrightarrow> dependency_ok e ns dep (world s)" by (rule check_dependency_run)
  then show ?thesis using assms that by (cases err) (auto simp: with_dependency_def gbind_def)
qed

lemma with_dependency_guarded:
  assumes "sends (snd (with_dependency e ns dep rest obj s)) \<noteq> sends s"
  shows "dependency_ok e ns dep (world s)"
proof (rule ccontr)
  assume "\<not> dependency_ok e ns dep (world s)"
  then obtain x w where "with_dependency e ns dep rest obj s = (Ret (obj, Some x), s\<lparr>world := w\<rparr>)"
    by (rule with_dependency_waits)
  with assms show False by (simp add: sends_def)
qed

lemma keeps_with_dependency:
  assumes "quiet I" "keeps I (rest obj)"
  shows "keeps I (with_dependency e ns dep rest obj)"
  unfolding with_dependency_def
  by (intro keeps_gbind keeps_option keeps_ret assms(2) asks_keeps[OF asks_check_dependency] quiet.st_world[OF assms(1)])

lemma with_dependency_object:
  assumes "yields (\<lambda>(obj', err). cr_Meta obj' = cr_Meta obj \<and> cr_Spec obj' = cr_Spec obj) (rest obj)"
  shows "yields (\<lambda>(obj', err). cr_Meta obj' = cr_Meta obj \<and> cr_Spec obj' = cr_Spec obj) (with_dependency e ns dep rest obj)"
  unfolding with_dependency_def by (intro go_yields assms) simp

section \<open>A kind whose reconciliation is one RPC\<close>

text \<open>Such a kind is a controller: the laws of its operation come with the single RPC.\<close>

locale rpc_kind = single_rpc e key build timeout logic
  for e :: "'w env" and key :: "'spec cr \<Rightarrow> string" and build :: "'spec cr \<Rightarrow> ('w, RPCMethod) op"
    and timeout :: "'spec cr \<Rightarrow> 32 word" and logic :: "'spec cr \<Rightarrow> ('w, 'spec cr \<times> gerror option) op" +
  fixes r :: "('w, 'spec) reconciler" and zero :: "'spec cr" and wrap :: "'spec cr \<Rightarrow> Object"
    and isValid :: "Object \<Rightarrow> ('w, bool \<times> gerror option) op" and isInitialized :: "Object \<Rightarrow> bool"
  assumes kind_initialized: "isInitialized (wrap obj)"
    and kind_asks: "asks (isValid (wrap obj))"
    and kind_error: "yields (\<lambda>(ok, err). ok \<or> err \<noteq> None) (isValid (wrap obj))"

sublocale rpc_kind \<subseteq> ctl: rpc_controller e r zero wrap isValid isInitialized logic
  by unfold_locales (rule kind_initialized kind_asks kind_error once_keeps once_object; assumption?)+

lemma keyed_example: "k = ''ns/m'' \<Longrightarrow> Sessions example_state k = Some 0"
  by (simp add: example_state_def)

context rpc_kind
begin

lemma kind_performs:
  assumes "k_Get (rc_client r) req (world s) = (Inr obj, w)"
    and "isValid (wrap obj) (s\<lparr>world := w\<rparr>) = (Ret (True, x), s\<lparr>world := u\<rparr>)"
    and "\<not> IsBeingDeleted obj" and "builds (build obj) f"
  shows "\<exists>i v. length i = 36 \<and> reconcile_rpc e r zero wrap isValid isInitialized logic req s =
    perform_rpc e r obj (Sessions s (key obj)) (f i) (timeout obj) (s\<lparr>world := v\<rparr>)"
  using ctl.reconcile_valid[OF assms(1,2)] once_performs[OF assms(4), where s = s and u = u and r = r] assms(3)
  by simp

text \<open>
  From the request of the runtime to the status of the object: with a device that answers, the reply is
  what is reported; with one that stays silent, the reconciliation panics.
\<close>

lemma kind_completes:
  assumes "k_Get (rc_client r) req (world s) = (Inr obj, w)"
    and "isValid (wrap obj) (s\<lparr>world := w\<rparr>) = (Ret (True, z), s\<lparr>world := u\<rparr>)" and "\<not> IsBeingDeleted obj"
    and m: "build obj (s\<lparr>world := u\<rparr>) = (Ret m, s\<lparr>world := v\<rparr>)"
    and sid: "Sessions s (key obj) = Some i" and x: "heap s i = Some x" "idle x" "chan_inv s"
    and d: "device_answers e (se_Transport x) m (timeout obj) h q reply v v'"
  shows "reconcile_rpc e r zero wrap isValid isInitialized logic req s =
    ManageSuccess e r (reported reply obj) (rpc_answered i x h m q v' s)"
proof -
  have "chans (s\<lparr>world := v\<rparr>) (next_chan (s\<lparr>world := v\<rparr>)) = None" using chan_inv_fresh[OF x(3)] by simp
  then have run: "SyncRPC e (Some i) m (timeout obj) (s\<lparr>world := v\<rparr>) =
      (Ret (Some reply, None), rpc_answered i x h m q v' (s\<lparr>world := v\<rparr>))"
    using answered_rpc[of "s\<lparr>world := v\<rparr>" i x e m "timeout obj" h q reply v'] x d by simp
  have "logic obj (s\<lparr>world := u\<rparr>) = (Ret (reported reply obj, None), rpc_answered i x h m q v' (s\<lparr>world := v\<rparr>))"
    using once_reply[of "s\<lparr>world := u\<rparr>" obj "Some i" m v reply None] sid m run by simp
  then show ?thesis
    using ctl.reconcile_valid[OF assms(1,2)] assms(3) by (simp add: gbind_def rpc_answered_def)
qed

lemma kind_silent:
  assumes "k_Get (rc_client r) req (world s) = (Inr obj, w)"
    and "isValid (wrap obj) (s\<lparr>world := w\<rparr>) = (Ret (True, z), s\<lparr>world := u\<rparr>)" and "\<not> IsBeingDeleted obj"
    and m: "build obj (s\<lparr>world := u\<rparr>) = (Ret m, s\<lparr>world := v\<rparr>)"
    and sid: "Sessions s (key obj) = Some i" and x: "heap s i = Some x" "chan_inv s"
    and h: "tp_ReadWriteCloser (se_Transport x) = Some h" and q: "marshall e m = Inr q"
    and wr: "conn_Write e h (Send_frame (tp_version (se_Transport x)) q) v = (None, v')"
    and silent: "wait_Reads e h (Duration_seconds (timeout obj)) v' = ([], v'')"
  shows "reconcile_rpc e r zero wrap isValid isInitialized logic req s =
    (Abort (Panic ''invalid memory address or nil pointer dereference''), rpc_sent i x h m q v'' s)"
proof -
  have "chans (s\<lparr>world := v\<rparr>) (next_chan (s\<lparr>world := v\<rparr>)) = None" using chan_inv_fresh[OF x(2)] by simp
  then have run: "SyncRPC e (Some i) m (timeout obj) (s\<lparr>world := v\<rparr>) =
      (Ret (None, Some (GoError ''timeout while executing request'')), rpc_sent i x h m q v'' (s\<lparr>world := v\<rparr>))"
    using unanswered_rpc[of "s\<lparr>world := v\<rparr>" i x h e m q v' "timeout obj" v''] x(1) h q wr silent by simp
  have "logic obj (s\<lparr>world := u\<rparr>) = (Abort (Panic ''invalid memory address or nil pointer dereference''),
      rpc_sent i x h m q v'' (s\<lparr>world := v\<rparr>))"
    using once_panics[of "s\<lparr>world := u\<rparr>" obj "Some i" m v] sid m run by simp
  then show ?thesis
    using ctl.reconcile_valid[OF assms(1,2)] assms(3) by (simp add: gbind_def rpc_sent_def)
qed

end

text \<open>On the example world, a valid object makes its reconciliation send.\<close>

lemma example_kind_sends:
  fixes build :: "'spec cr \<Rightarrow> (unit, RPCMethod) op"
  assumes "rpc_kind example_env key build timeout logic wrap isValid isInitialized"
    and "k_Get (rc_client r) req (world example_state) = (Inr obj, ())"
    and "isValid (wrap obj) example_state = (Ret (True, x), example_state)"
    and "\<not> IsBeingDeleted obj" and "key obj = ''ns/m''" and "builds (build obj) f"
  shows "sends (snd (reconcile_rpc example_env r zero wrap isValid isInitialized logic req example_state)) \<noteq> sends example_state"
proof -
  have v: "isValid (wrap obj) (example_state\<lparr>world := ()\<rparr>) = (Ret (True, x), example_state\<lparr>world := ()\<rparr>)"
    using assms(3) by simp
  from rpc_kind.kind_performs[OF assms(1,2) v assms(4,6), of zero] assms(5) show ?thesis
    by (auto simp: keyed_example example_perform_sends)
qed

section \<open>The example mount point\<close>

lemma example_ready: "mountpoint_ready example_env ''ns'' ''m'' example_state"
  by (simp add: mountpoint_ready_def example_objects example_names example_state_def)

lemma example_dependency_ok: "dependency_ok example_env ns example_dep w"
  by (simp add: dependency_ok_def dependency_met_def Let_def succeeded_def example_objects)

lemma example_alive [simp]: "\<not> IsBeingDeleted (example_cr spec)"
  by (simp add: IsBeingDeleted_def example_cr_def example_meta_def)

end
