(* ===== verification/Lock_Controller.thy ===== *)
theory Lock_Controller
  imports Reconcile_Frame
begin

text \<open>
  \<open>controllers/lock\_controller.go\<close>: a \<open>Lock\<close> resource sends one \<open>lock\<close> request for its datastore over
  the session of its mount point.
\<close>

definition isInitialized_Lock :: "Object \<Rightarrow> bool" where
  "isInitialized_Lock obj = (case obj of OLock _ \<Rightarrow> True | _ \<Rightarrow> False)"

definition isValid_Lock :: "'w env \<Rightarrow> Object \<Rightarrow> ('w, bool \<times> gerror option) op" where
  "isValid_Lock e obj = (case obj of
     OLock instance \<Rightarrow> require_MountPoint e (om_Namespace (cr_Meta instance)) (lk_MountPoint (cr_Spec instance))
   | _ \<Rightarrow> ret (False, Some (GoError (GetName obj @ '' is not an Lock object''))))"

definition manageOperatorLogic_Lock :: "'w env \<Rightarrow> Lock \<Rightarrow> ('w, Lock \<times> gerror option) op" where
  "manageOperatorLogic_Lock e lock =
     gbind (session_of (GetMountPointNamespacedName lock (lk_MountPoint (cr_Spec lock)))) (\<lambda>s.
     gbind (NewLock e (lk_Target (cr_Spec lock))) (\<lambda>m.
     gbind (SyncRPC e s m (lk_Timeout (cr_Spec lock))) (\<lambda>(reply, err).
       report_reply reply err lock)))"

type_synonym 'w LockReconciler = "('w, LockSpec) reconciler"

definition newLockReconciler :: "'w env \<Rightarrow> 'w LockReconciler" where
  "newLockReconciler e = \<lparr>rc_client = locks e, rc_recorder = lockControllerName\<rparr>"

definition Reconcile_Lock :: "'w env \<Rightarrow> NamespacedName \<Rightarrow> ('w, Result \<times> gerror option) op" where
  "Reconcile_Lock e req = reconcile_rpc e (newLockReconciler e) zero_Lock OLock (isValid_Lock e)
     isInitialized_Lock (manageOperatorLogic_Lock e) req"

section \<open>Laws\<close>

interpretation lock: rpc_kind e "\<lambda>o'. GetMountPointNamespacedName o' (lk_MountPoint (cr_Spec o'))"
    "\<lambda>o'. NewLock e (lk_Target (cr_Spec o'))" "\<lambda>o'. lk_Timeout (cr_Spec o')" "manageOperatorLogic_Lock e"
    "newLockReconciler e" zero_Lock OLock "isValid_Lock e" isInitialized_Lock for e
  by unfold_locales (simp_all add: manageOperatorLogic_Lock_def rpc_once_def keeps_New isInitialized_Lock_def
      isValid_Lock_def asks_require_MountPoint require_MountPoint_error del: not_None_eq)

section \<open>Properties\<close>

text \<open>
  Reconciling a \<open>Lock\<close> that exists, is not being deleted, names a supported datastore and a
  mount point that is ready sends one \<open>lock\<close> request for exactly that datastore, with a generated
  identifier, over the mount point's session; the reply decides the status that is then written, and
  an RPC without a reply ends the operator with a nil dereference.
\<close>

theorem Reconcile_Lock_refines:
  assumes "k_Get (locks e) req (world s) = (Inr lock, w)"
    and "mountpoint_ready e (om_Namespace (cr_Meta lock)) (lk_MountPoint (cr_Spec lock)) (s\<lparr>world := w\<rparr>)"
    and "\<not> IsBeingDeleted lock" and "datastore_ok (lk_Target (cr_Spec lock))"
  shows "\<exists>i v. length i = 36 \<and> Reconcile_Lock e req s =
    perform_rpc e (newLockReconciler e) lock (Sessions s (GetMountPointNamespacedName lock (lk_MountPoint (cr_Spec lock))))
      (MLock i (Some (datastore_elem (lk_Target (cr_Spec lock))))) (lk_Timeout (cr_Spec lock)) (s\<lparr>world := v\<rparr>)"
proof -
  obtain u where v: "isValid_Lock e (OLock lock) (s\<lparr>world := w\<rparr>) = (Ret (True, None), s\<lparr>world := u\<rparr>)"
    by (rule require_MountPoint_ready[OF assms(2)]) (simp add: isValid_Lock_def)
  have g: "k_Get (rc_client (newLockReconciler e)) req (world s) = (Inr lock, w)"
    using assms(1) by (simp add: newLockReconciler_def)
  show ?thesis
    unfolding Reconcile_Lock_def by (rule lock.kind_performs[OF g v assms(3) NewLock_builds[OF assms(4)]])
qed

end
