(* ===== verification/Unlock_Controller.thy ===== *)
theory Unlock_Controller
  imports Reconcile_Frame
begin

text \<open>
  \<open>controllers/unlock\_controller.go\<close>: an \<open>Unlock\<close> resource sends one \<open>unlock\<close> request for its datastore,
  after the dependency it may name has succeeded.
\<close>

definition isInitialized_Unlock :: "Object \<Rightarrow> bool" where
  "isInitialized_Unlock obj = (case obj of OUnlock _ \<Rightarrow> True | _ \<Rightarrow> False)"

definition isValid_Unlock :: "'w env \<Rightarrow> Object \<Rightarrow> ('w, bool \<times> gerror option) op" where
  "isValid_Unlock e obj = (case obj of
     OUnlock instance \<Rightarrow> require_MountPoint e (om_Namespace (cr_Meta instance)) (ul_MountPoint (cr_Spec instance))
   | _ \<Rightarrow> ret (False, Some (GoError (GetName obj @ '' is not an Unlock object''))))"

text \<open>\<open>manageOperatorLogic\<close> from the session lookup on, and the whole of it.\<close>

definition send_Unlock :: "'w env \<Rightarrow> Unlock \<Rightarrow> ('w, Unlock \<times> gerror option) op" where
  "send_Unlock e unlock =
     gbind (session_of (GetMountPointNamespacedName unlock (ul_MountPoint (cr_Spec unlock)))) (\<lambda>s.
     gbind (NewUnlock e (ul_Target (cr_Spec unlock))) (\<lambda>m.
     gbind (SyncRPC e s m (ul_Timeout (cr_Spec unlock))) (\<lambda>(reply, err).
       report_reply reply err unlock)))"

definition manageOperatorLogic_Unlock :: "'w env \<Rightarrow> Unlock \<Rightarrow> ('w, Unlock \<times> gerror option) op" where
  "manageOperatorLogic_Unlock e unlock =
     with_dependency e (om_Namespace (cr_Meta unlock)) (ul_DependsOn (cr_Spec unlock)) (send_Unlock e) unlock"

type_synonym 'w UnlockReconciler = "('w, UnlockSpec) reconciler"

definition newUnlockReconciler :: "'w env \<Rightarrow> 'w UnlockReconciler" where
  "newUnlockReconciler e = \<lparr>rc_client = unlocks e, rc_recorder = unlockControllerName\<rparr>"

definition Reconcile_Unlock :: "'w env \<Rightarrow> NamespacedName \<Rightarrow> ('w, Result \<times> gerror option) op" where
  "Reconcile_Unlock e req = reconcile_rpc e (newUnlockReconciler e) zero_Unlock OUnlock (isValid_Unlock e)
     isInitialized_Unlock (manageOperatorLogic_Unlock e) req"

section \<open>Laws\<close>

interpretation unlock1: single_rpc e "\<lambda>o'. GetMountPointNamespacedName o' (ul_MountPoint (cr_Spec o'))"
    "\<lambda>o'. NewUnlock e (ul_Target (cr_Spec o'))" "\<lambda>o'. ul_Timeout (cr_Spec o')" "send_Unlock e" for e
  by unfold_locales (simp_all add: send_Unlock_def rpc_once_def keeps_New)

interpretation unlock: rpc_controller e "newUnlockReconciler e" zero_Unlock OUnlock "isValid_Unlock e"
    isInitialized_Unlock "manageOperatorLogic_Unlock e" for e
proof unfold_locales
  fix I :: "'a ostate \<Rightarrow> bool" and obj
  assume I: "stable_send I"
  then have "quiet I" unfolding stable_send_def stable_def by blast
  then show "keeps I (manageOperatorLogic_Unlock e obj)"
    unfolding manageOperatorLogic_Unlock_def by (rule keeps_with_dependency) (rule unlock1.once_keeps[OF I])
qed (simp_all add: isInitialized_Unlock_def isValid_Unlock_def asks_require_MountPoint require_MountPoint_error
    manageOperatorLogic_Unlock_def with_dependency_object unlock1.once_object del: not_None_eq)

lemma Reconcile_Unlock_performs:
  assumes "k_Get (unlocks e) req (world s) = (Inr obj, w)"
    and "isValid_Unlock e (OUnlock obj) (s\<lparr>world := w\<rparr>) = (Ret (True, x), s\<lparr>world := u\<rparr>)"
    and "\<not> IsBeingDeleted obj" and "datastore_ok (ul_Target (cr_Spec obj))"
    and "dependency_ok e (om_Namespace (cr_Meta obj)) (ul_DependsOn (cr_Spec obj)) u"
  shows "\<exists>i v. length i = 36 \<and> Reconcile_Unlock e req s =
    perform_rpc e (newUnlockReconciler e) obj (Sessions s (GetMountPointNamespacedName obj (ul_MountPoint (cr_Spec obj))))
      (MUnlock i (Some (datastore_elem (ul_Target (cr_Spec obj))))) (ul_Timeout (cr_Spec obj)) (s\<lparr>world := v\<rparr>)"
proof -
  have g: "k_Get (rc_client (newUnlockReconciler e)) req (world s) = (Inr obj, w)"
    using assms(1) by (simp add: newUnlockReconciler_def)
  obtain v where v: "manageOperatorLogic_Unlock e obj (s\<lparr>world := u\<rparr>) = send_Unlock e obj ((s\<lparr>world := u\<rparr>)\<lparr>world := v\<rparr>)"
    unfolding manageOperatorLogic_Unlock_def
    by (rule with_dependency_ok[where s = "s\<lparr>world := u\<rparr>"]) (use assms(5) in simp)
  from unlock.reconcile_valid[OF g assms(2)] assms(3) v
  have "Reconcile_Unlock e req s = gbind (send_Unlock e obj) (\<lambda>(obj', err).
      if err \<noteq> None then ManageError e (newUnlockReconciler e) obj' err
      else ManageSuccess e (newUnlockReconciler e) obj') (s\<lparr>world := v\<rparr>)"
    by (simp add: Reconcile_Unlock_def gbind_def)
  then show ?thesis
    using unlock1.once_performs[OF NewUnlock_builds[OF assms(4)], where s = s and u = v and r = "newUnlockReconciler e"]
    by simp
qed

section \<open>Properties\<close>

text \<open>
  Reconciling an \<open>Unlock\<close> that exists, is valid and not being deleted, names a supported datastore
  and has no unmet dependency sends one \<open>unlock\<close> request for exactly that datastore over the mount
  point's session, and the reply decides the status that is then written.
\<close>

theorem Reconcile_Unlock_refines:
  assumes "k_Get (unlocks e) req (world s) = (Inr obj, w)"
    and "isValid_Unlock e (OUnlock obj) (s\<lparr>world := w\<rparr>) = (Ret (True, x), s\<lparr>world := u\<rparr>)"
    and "\<not> IsBeingDeleted obj" and "datastore_ok (ul_Target (cr_Spec obj))"
    and "dependency_ok e (om_Namespace (cr_Meta obj)) (ul_DependsOn (cr_Spec obj)) u"
  shows "\<exists>i v. length i = 36 \<and> Reconcile_Unlock e req s =
    perform_rpc e (newUnlockReconciler e) obj (Sessions s (GetMountPointNamespacedName obj (ul_MountPoint (cr_Spec obj))))
      (MUnlock i (Some (datastore_elem (ul_Target (cr_Spec obj))))) (ul_Timeout (cr_Spec obj)) (s\<lparr>world := v\<rparr>)"
  using assms by (rule Reconcile_Unlock_performs)

text \<open>
  An \<open>Unlock\<close> is sent only after what it depends on: if a reconciliation writes anything to a
  device, then the resource exists and is not being deleted, its mount point exists and has a
  session, and it names no dependency or the dependency existed with status \<open>success\<close> when it was
  read, right after the mount point.
\<close>

lemma Reconcile_Unlock_guarded:
  assumes "sends (snd (Reconcile_Unlock e req s)) \<noteq> sends s"
  shows "\<exists>obj w u. k_Get (unlocks e) req (world s) = (Inr obj, w) \<and> \<not> IsBeingDeleted obj \<and>
    require_MountPoint e (om_Namespace (cr_Meta obj)) (ul_MountPoint (cr_Spec obj)) (s\<lparr>world := w\<rparr>) =
      (Ret (True, None), s\<lparr>world := u\<rparr>) \<and>
    dependency_ok e (om_Namespace (cr_Meta obj)) (ul_DependsOn (cr_Spec obj)) u"
proof -
  obtain obj w x u where *: "k_Get (rc_client (newUnlockReconciler e)) req (world s) = (Inr obj, w)"
    "isValid_Unlock e (OUnlock obj) (s\<lparr>world := w\<rparr>) = (Ret (True, x), s\<lparr>world := u\<rparr>)" "\<not> IsBeingDeleted obj"
    "sends (snd (manageOperatorLogic_Unlock e obj (s\<lparr>world := u\<rparr>))) \<noteq> sends s"
    using unlock.reconcile_guarded[OF assms[unfolded Reconcile_Unlock_def]] by metis
  have "dependency_ok e (om_Namespace (cr_Meta obj)) (ul_DependsOn (cr_Spec obj)) (world (s\<lparr>world := u\<rparr>))"
    by (rule with_dependency_guarded) (use *(4) in \<open>simp add: manageOperatorLogic_Unlock_def sends_def\<close>)
  moreover have "x = None"
    using *(2) by (auto simp: isValid_Unlock_def dest: require_MountPoint_True)
  ultimately show ?thesis using * by (auto simp: newUnlockReconciler_def isValid_Unlock_def)
qed

end
