(* ===== verification/Commit_Controller.thy ===== *)
theory Commit_Controller
  imports Reconcile_Frame
begin

text \<open>
  \<open>controllers/commit\_controller.go\<close>: a \<open>Commit\<close> resource sends one \<open>commit\<close> request. Its dependency is
  part of its validation.
\<close>

definition isInitialized_Commit :: "Object \<Rightarrow> bool" where
  "isInitialized_Commit obj = (case obj of OCommit _ \<Rightarrow> True | _ \<Rightarrow> False)"

definition isValid_Commit :: "'w env \<Rightarrow> Object \<Rightarrow> ('w, bool \<times> gerror option) op" where
  "isValid_Commit e obj = (case obj of
     OCommit instance \<Rightarrow>
       gbind (require_MountPoint e (om_Namespace (cr_Meta instance)) (cm_MountPoint (cr_Spec instance))) (\<lambda>(ok, err).
         if \<not> ok then ret (False, err)
         else gbind (check_dependency e (om_Namespace (cr_Meta instance)) (cm_DependsOn (cr_Spec instance))) (\<lambda>err.
           case err of Some x \<Rightarrow> ret (False, Some x) | None \<Rightarrow> ret (True, None)))
   | _ \<Rightarrow> ret (False, Some (GoError (GetName obj @ '' is not an Commit object''))))"

definition manageOperatorLogic_Commit :: "'w env \<Rightarrow> Commit \<Rightarrow> ('w, Commit \<times> gerror option) op" where
  "manageOperatorLogic_Commit e obj =
     gbind (session_of (GetMountPointNamespacedName obj (cm_MountPoint (cr_Spec obj)))) (\<lambda>s.
     gbind (NewCommit e) (\<lambda>m.
     gbind (SyncRPC e s m (cm_Timeout (cr_Spec obj))) (\<lambda>(reply, err).
       report_reply reply err obj)))"

type_synonym 'w CommitReconciler = "('w, CommitSpec) reconciler"

definition newCommitReconciler :: "'w env \<Rightarrow> 'w CommitReconciler" where
  "newCommitReconciler e = \<lparr>rc_client = commits e, rc_recorder = commitControllerName\<rparr>"

definition Reconcile_Commit :: "'w env \<Rightarrow> NamespacedName \<Rightarrow> ('w, Result \<times> gerror option) op" where
  "Reconcile_Commit e req = reconcile_rpc e (newCommitReconciler e) zero_Commit OCommit (isValid_Commit e)
     isInitialized_Commit (manageOperatorLogic_Commit e) req"

section \<open>Laws\<close>

lemma asks_isValid_Commit: "asks (isValid_Commit e (OCommit obj))"
  unfolding isValid_Commit_def Object.case by (intro go_asks)

lemma isValid_Commit_error: "yields (\<lambda>(ok, err). ok \<or> err \<noteq> None) (isValid_Commit e (OCommit obj))"
  unfolding isValid_Commit_def Object.case
  by (intro yields_refuse require_MountPoint_error go_yields) auto

lemma isValid_Commit_dependency:
  assumes "isValid_Commit e (OCommit obj) s = (Ret (True, x), t)"
  obtains u where "require_MountPoint e (om_Namespace (cr_Meta obj)) (cm_MountPoint (cr_Spec obj)) s = (Ret (True, None), s\<lparr>world := u\<rparr>)"
    "dependency_ok e (om_Namespace (cr_Meta obj)) (cm_DependsOn (cr_Spec obj)) u"
proof -
  let ?ns = "om_Namespace (cr_Meta obj)"
  obtain w where w: "require_MountPoint e ?ns (cm_MountPoint (cr_Spec obj)) s =
    (Ret (if mountpoint_ready e ?ns (cm_MountPoint (cr_Spec obj)) s then (True, None)
          else (False, Some (GoError (''MountPoint '' @ cm_MountPoint (cr_Spec obj) @ '' doesn't exists'')))), s\<lparr>world := w\<rparr>)"
    by (rule require_MountPoint_run)
  obtain err v where v: "check_dependency e ?ns (cm_DependsOn (cr_Spec obj)) (s\<lparr>world := w\<rparr>) = (Ret err, (s\<lparr>world := w\<rparr>)\<lparr>world := v\<rparr>)"
    "err = None \<longleftrightarrow> dependency_ok e ?ns (cm_DependsOn (cr_Spec obj)) (world (s\<lparr>world := w\<rparr>))"
    by (rule check_dependency_run)
  have "mountpoint_ready e ?ns (cm_MountPoint (cr_Spec obj)) s \<and> err = None"
    using assms w v(1) by (auto simp: isValid_Commit_def gbind_def split: if_splits option.splits)
  with v(2) w that show ?thesis by simp
qed

interpretation commit: rpc_kind e "\<lambda>o'. GetMountPointNamespacedName o' (cm_MountPoint (cr_Spec o'))"
    "\<lambda>o'. NewCommit e" "\<lambda>o'. cm_Timeout (cr_Spec o')" "manageOperatorLogic_Commit e"
    "newCommitReconciler e" zero_Commit OCommit "isValid_Commit e" isInitialized_Commit for e
  by unfold_locales (simp_all add: manageOperatorLogic_Commit_def rpc_once_def keeps_New isInitialized_Commit_def
      asks_isValid_Commit isValid_Commit_error del: not_None_eq)

lemma example_valid_Commit:
  "isValid_Commit example_env (OCommit example_Commit) example_state = (Ret (True, None), example_state)"
  by (simp add: isValid_Commit_def require_MountPoint_def CheckMountPointExists_def check_dependency_def
      validateDependency_def validateExist_def get_as_def validateStatus_def gbind_assoc IsNil_def
      example_objects example_names example_state_def)

section \<open>Properties\<close>

text \<open>
  Reconciling a \<open>Commit\<close> that exists, is valid and not being deleted sends one \<open>commit\<close> request
  over the mount point's session, and the reply decides the status that is then written.
\<close>

theorem Reconcile_Commit_refines:
  assumes "k_Get (commits e) req (world s) = (Inr obj, w)"
    and "isValid_Commit e (OCommit obj) (s\<lparr>world := w\<rparr>) = (Ret (True, x), s\<lparr>world := u\<rparr>)"
    and "\<not> IsBeingDeleted obj"
  shows "\<exists>i v. length i = 36 \<and> Reconcile_Commit e req s =
    perform_rpc e (newCommitReconciler e) obj (Sessions s (GetMountPointNamespacedName obj (cm_MountPoint (cr_Spec obj))))
      (MCommit i []) (cm_Timeout (cr_Spec obj)) (s\<lparr>world := v\<rparr>)"
proof -
  have g: "k_Get (rc_client (newCommitReconciler e)) req (world s) = (Inr obj, w)"
    using assms(1) by (simp add: newCommitReconciler_def)
  show ?thesis
    unfolding Reconcile_Commit_def by (rule commit.kind_performs[OF g assms(2,3) NewCommit_builds])
qed

text \<open>
  C13: a \<open>Commit\<close> is sent only after what it depends on: if a reconciliation writes anything to a
  device, then the resource exists and is not being deleted, its mount point exists and has a
  session, and it names no dependency or the dependency existed with status \<open>success\<close> when it was read, right
  after the mount point.
\<close>

theorem Reconcile_Commit_guarded:
  assumes "sends (snd (Reconcile_Commit e req s)) \<noteq> sends s"
  shows "\<exists>obj w u. k_Get (commits e) req (world s) = (Inr obj, w) \<and> \<not> IsBeingDeleted obj \<and>
    require_MountPoint e (om_Namespace (cr_Meta obj)) (cm_MountPoint (cr_Spec obj)) (s\<lparr>world := w\<rparr>) =
      (Ret (True, None), s\<lparr>world := u\<rparr>) \<and>
    dependency_ok e (om_Namespace (cr_Meta obj)) (cm_DependsOn (cr_Spec obj)) u"
proof -
  obtain obj w x u where *: "k_Get (rc_client (newCommitReconciler e)) req (world s) = (Inr obj, w)"
    "isValid_Commit e (OCommit obj) (s\<lparr>world := w\<rparr>) = (Ret (True, x), s\<lparr>world := u\<rparr>)" "\<not> IsBeingDeleted obj"
    using commit.ctl.reconcile_guarded[OF assms[unfolded Reconcile_Commit_def]] by metis
  obtain v where "require_MountPoint e (om_Namespace (cr_Meta obj)) (cm_MountPoint (cr_Spec obj)) (s\<lparr>world := w\<rparr>) =
      (Ret (True, None), (s\<lparr>world := w\<rparr>)\<lparr>world := v\<rparr>)"
    "dependency_ok e (om_Namespace (cr_Meta obj)) (cm_DependsOn (cr_Spec obj)) v"
    using *(2) by (rule isValid_Commit_dependency)
  with * show ?thesis by (auto simp: newCommitReconciler_def)
qed

theorem Reconcile_Commit_guarded_witness:
  "\<exists>obj w u. k_Get (commits example_env) example_req (world example_state) = (Inr obj, w) \<and> \<not> IsBeingDeleted obj \<and>
    require_MountPoint example_env (om_Namespace (cr_Meta obj)) (cm_MountPoint (cr_Spec obj)) (example_state\<lparr>world := w\<rparr>) =
      (Ret (True, None), example_state\<lparr>world := u\<rparr>) \<and>
    dependency_ok example_env (om_Namespace (cr_Meta obj)) (cm_DependsOn (cr_Spec obj)) u"
proof (rule Reconcile_Commit_guarded)
  show "sends (snd (Reconcile_Commit example_env example_req example_state)) \<noteq> sends example_state"
    unfolding Reconcile_Commit_def
    by (rule example_kind_sends[OF commit.rpc_kind_axioms _ example_valid_Commit _ _ NewCommit_builds])
      (simp_all add: newCommitReconciler_def example_objects example_names IsBeingDeleted_def)
qed

end
