(* ===== verification/EditConfig_Controller.thy ===== *)
theory EditConfig_Controller
  imports Reconcile_Frame
begin

text \<open>
  \<open>controllers/editconfig\_controller.go\<close>: an \<open>EditConfig\<close> resource sends an \<open>edit-config\<close> request, optionally
  between a \<open>lock\<close> and an \<open>unlock\<close> and followed by a \<open>commit\<close>, after its dependency has succeeded.
\<close>

definition isInitialized_EditConfig :: "Object \<Rightarrow> bool" where
  "isInitialized_EditConfig obj = (case obj of OEditConfig _ \<Rightarrow> True | _ \<Rightarrow> False)"

definition isValid_EditConfig :: "'w env \<Rightarrow> Object \<Rightarrow> ('w, bool \<times> gerror option) op" where
  "isValid_EditConfig e obj = (case obj of
     OEditConfig instance \<Rightarrow> require_MountPoint e (om_Namespace (cr_Meta instance)) (ec_MountPoint (cr_Spec instance))
   | _ \<Rightarrow> ret (False, Some (GoError ''not an EditConfig object'')))"

text \<open>
  Each request is followed by \<open>if reply == nil\<close>, a block that sets the status and then reads
  \<open>reply.RawReply\<close>: a missing reply is a nil dereference. What the reply says is not looked at.
\<close>

definition rpc_or_nil :: "'w env \<Rightarrow> sref option \<Rightarrow> RPCMethod \<Rightarrow> 32 word \<Rightarrow> ('w, RPCReply) op" where
  "rpc_or_nil e s m timeout =
     gbind (SyncRPC e s m timeout) (\<lambda>(reply, err). case reply of None \<Rightarrow> nil_deref | Some r \<Rightarrow> ret r)"

text \<open>The blocks \<open>if obj.Spec.Lock { ... }\<close>, \<open>if obj.Spec.Commit { ... }\<close> and \<open>if obj.Spec.Unlock { ... }\<close>.\<close>

abbreviation optional_rpc :: "bool \<Rightarrow> ('w, RPCMethod) op \<Rightarrow> 'w env \<Rightarrow> sref option \<Rightarrow> 32 word \<Rightarrow> ('w, unit) op" where
  "optional_rpc wanted build e s timeout \<equiv>
     (if wanted then gbind build (\<lambda>m. gthen (rpc_or_nil e s m timeout) (ret ())) else ret ())"

text \<open>\<open>manageOperatorLogic\<close> from the session lookup on, and the whole of it.\<close>

definition send_EditConfig :: "'w env \<Rightarrow> EditConfig \<Rightarrow> ('w, EditConfig \<times> gerror option) op" where
  "send_EditConfig e obj =
     (let target = ec_Target (cr_Spec obj); timeout = ec_Timeout (cr_Spec obj) in
      gbind (session_of (GetMountPointNamespacedName obj (ec_MountPoint (cr_Spec obj)))) (\<lambda>s.
      gthen (optional_rpc (ec_Lock (cr_Spec obj)) (NewLock e target) e s timeout)
      (gbind (NewEditConfig e target (ec_Operation (cr_Spec obj)) (ec_XML (cr_Spec obj))) (\<lambda>m.
       gbind (rpc_or_nil e s m timeout) (\<lambda>reply.
       gthen (optional_rpc (ec_Commit (cr_Spec obj)) (NewCommit e) e s timeout)
       (gthen (optional_rpc (ec_Unlock (cr_Spec obj)) (NewUnlock e target) e s timeout)
       (ret (set_RpcReply (re_Data reply) (set_Status ''success'' obj), None))))))))"

definition manageOperatorLogic_EditConfig :: "'w env \<Rightarrow> EditConfig \<Rightarrow> ('w, EditConfig \<times> gerror option) op" where
  "manageOperatorLogic_EditConfig e obj =
     with_dependency e (om_Namespace (cr_Meta obj)) (ec_DependsOn (cr_Spec obj)) (send_EditConfig e) obj"

type_synonym 'w EditConfigReconciler = "('w, EditConfigSpec) reconciler"

definition newEditConfigReconciler :: "'w env \<Rightarrow> 'w EditConfigReconciler" where
  "newEditConfigReconciler e = \<lparr>rc_client = editconfigs e, rc_recorder = editConfigControllerName\<rparr>"

definition Reconcile_EditConfig :: "'w env \<Rightarrow> NamespacedName \<Rightarrow> ('w, Result \<times> gerror option) op" where
  "Reconcile_EditConfig e req = reconcile_rpc e (newEditConfigReconciler e) zero_EditConfig OEditConfig
     (isValid_EditConfig e) isInitialized_EditConfig (manageOperatorLogic_EditConfig e) req"

section \<open>Laws\<close>

lemma keeps_send_EditConfig:
  assumes I: "stable_send I"
  shows "keeps I (send_EditConfig e obj)"
proof -
  have q: "quiet I" using I unfolding stable_send_def stable_def by blast
  have r: "keeps I (rpc_or_nil e s m t)" for s m t
    unfolding rpc_or_nil_def by (intro quiet.quiet_rules[OF q] stable_send.keeps_SyncRPC[OF I])
  show ?thesis
    unfolding send_EditConfig_def Let_def
    by (intro quiet.quiet_rules[OF q] keeps_session_of r keeps_New quiet.st_world[OF q]; assumption)
qed

lemma send_EditConfig_object:
  "yields (\<lambda>(obj', err). err = None \<and> (\<exists>d. obj' = set_RpcReply d (set_Status ''success'' obj))) (send_EditConfig e obj)"
  unfolding send_EditConfig_def Let_def by (intro go_yields) auto

interpretation editconfig: rpc_controller e "newEditConfigReconciler e" zero_EditConfig OEditConfig
    "isValid_EditConfig e" isInitialized_EditConfig "manageOperatorLogic_EditConfig e" for e
proof unfold_locales
  fix I :: "'a ostate \<Rightarrow> bool" and obj
  assume I: "stable_send I"
  then have "quiet I" unfolding stable_send_def stable_def by blast
  then show "keeps I (manageOperatorLogic_EditConfig e obj)"
    unfolding manageOperatorLogic_EditConfig_def by (rule keeps_with_dependency) (rule keeps_send_EditConfig[OF I])
next
  fix obj
  have "yields (\<lambda>(obj', err). cr_Meta obj' = cr_Meta obj \<and> cr_Spec obj' = cr_Spec obj) (send_EditConfig e obj)"
    using send_EditConfig_object[of obj e] unfolding yields_def by fastforce
  then show "yields (\<lambda>(obj', err). cr_Meta obj' = cr_Meta obj \<and> cr_Spec obj' = cr_Spec obj) (manageOperatorLogic_EditConfig e obj)"
    unfolding manageOperatorLogic_EditConfig_def by (rule with_dependency_object)
qed (simp_all add: isInitialized_EditConfig_def isValid_EditConfig_def asks_require_MountPoint
    require_MountPoint_error del: not_None_eq)

section \<open>What is written, in which order\<close>

text \<open>The bytes of a request that can be marshalled.\<close>

definition wire :: "'w env \<Rightarrow> RPCMethod \<Rightarrow> string" where
  "wire e m = (case marshall e m of Inr q \<Rightarrow> q | Inl _ \<Rightarrow> [])"

text \<open>
  \<open>writes e i T S m\<close>: if \<open>m\<close> returns, session \<open>i\<close> still has transport \<open>T\<close> and a list of requests from \<open>S\<close>
  was written to it, and nothing else.
\<close>

definition writes :: "'w env \<Rightarrow> sref \<Rightarrow> Transport \<Rightarrow> handle \<Rightarrow> RPCMethod list set \<Rightarrow> ('w, 'a) op \<Rightarrow> bool" where
  "writes e i T h S m \<longleftrightarrow> (\<forall>s r t. map_option se_Transport (heap s i) = Some T \<longrightarrow> m s = (Ret r, t) \<longrightarrow>
     map_option se_Transport (heap t i) = Some T \<and>
     (\<exists>ms\<in>S. sends t = sends s @ map (\<lambda>m. Sent h (Send_frame (tp_version T) (wire e m))) ms))"

lemma writes_ret: "writes e i T h {[]} (ret a)"
  by (simp add: writes_def)

lemma writes_gbind:
  assumes "writes e i T h A m" "\<And>a. writes e i T h B (f a)"
  shows "writes e i T h {xs @ ys | xs ys. xs \<in> A \<and> ys \<in> B} (gbind m f)"
  unfolding writes_def
proof (intro allI impI)
  fix s r t
  assume s: "map_option se_Transport (heap s i) = Some T" and "gbind m f s = (Ret r, t)"
  then obtain a u where m: "m s = (Ret a, u)" and f: "f a u = (Ret r, t)" by (auto elim: gbind_RetE)
  let ?w = "\<lambda>m. Sent h (Send_frame (tp_version T) (wire e m))"
  obtain xs where xs: "xs \<in> A" "sends u = sends s @ map ?w xs" and u: "map_option se_Transport (heap u i) = Some T"
    using assms(1) s m unfolding writes_def by blast
  obtain ys where ys: "ys \<in> B" "sends t = sends u @ map ?w ys" and t: "map_option se_Transport (heap t i) = Some T"
    using assms(2)[of a] u f unfolding writes_def by blast
  have "xs @ ys \<in> {xs @ ys | xs ys. xs \<in> A \<and> ys \<in> B}" using xs(1) ys(1) by blast
  moreover have "sends t = sends s @ map ?w (xs @ ys)" using xs ys by simp
  ultimately show "map_option se_Transport (heap t i) = Some T \<and>
    (\<exists>ms\<in>{xs @ ys | xs ys. xs \<in> A \<and> ys \<in> B}. sends t = sends s @ map ?w ms)" using t by blast
qed

lemma writes_mono: "writes e i T h A m \<Longrightarrow> A \<subseteq> B \<Longrightarrow> writes e i T h B m"
  unfolding writes_def by (meson subsetD)

lemma writes_rpc:
  assumes "tp_ReadWriteCloser T = Some h"
  shows "writes e i T h {[m]} (rpc_or_nil e (Some i) m t)"
  unfolding writes_def
proof (intro allI impI)
  fix s r u
  assume T: "map_option se_Transport (heap s i) = Some T" and "rpc_or_nil e (Some i) m t s = (Ret r, u)"
  then obtain err where run: "SyncRPC e (Some i) m t s = (Ret (Some r, err), u)"
    unfolding rpc_or_nil_def by (auto elim!: gbind_RetE split: option.splits)
  obtain x where x: "heap s i = Some x" "se_Transport x = T" using T by auto
  obtain q where q: "marshall e m = Inr q"
    using run by (cases "marshall e m") (auto simp: SyncRPC_marshal_error)
  have "sends u = sends s @ [Sent h (Send_frame (tp_version T) q)]"
    using SyncRPC_sends[OF x(1) _ q, of h t] x(2) assms run by simp
  moreover have "map_option se_Transport (heap u i) = Some T"
    using keepsD_eq[OF trp.keeps_SyncRPC T run] .
  ultimately show "map_option se_Transport (heap u i) = Some T \<and>
    (\<exists>ms\<in>{[m]}. sends u = sends s @ map (\<lambda>m. Sent h (Send_frame (tp_version T) (wire e m))) ms)"
    using q by (simp add: wire_def)
qed

text \<open>A constructor writes nothing; what it returns has the shape \<open>Q\<close>.\<close>

lemma writes_build:
  assumes "\<And>I. (\<And>s w. I s \<Longrightarrow> I (s\<lparr>world := w\<rparr>)) \<Longrightarrow> keeps I b" "yields Q b" "\<And>m. Q m \<Longrightarrow> writes e i T h S (f m)"
  shows "writes e i T h S (gbind b f)"
  unfolding writes_def
proof (intro allI impI)
  fix s r t
  assume s: "map_option se_Transport (heap s i) = Some T" and "gbind b f s = (Ret r, t)"
  then obtain m u where b: "b s = (Ret m, u)" and f: "f m u = (Ret r, t)" by (auto elim: gbind_RetE)
  have k: "keeps (\<lambda>u. heap u = heap s \<and> sends u = sends s) b" by (rule assms(1)) (simp add: sends_def)
  have "heap u = heap s" "sends u = sends s" using keepsD_eq[OF k _ b] by simp_all
  with s f assms(3)[OF yieldsD[OF assms(2) b]] show "map_option se_Transport (heap t i) = Some T \<and>
    (\<exists>ms\<in>S. sends t = sends s @ map (\<lambda>m. Sent h (Send_frame (tp_version T) (wire e m))) ms)"
    unfolding writes_def by metis
qed

lemma datastore_yields: "yields (\<lambda>d. d = Some (datastore_elem ds)) (datastore ds)"
proof (cases "datastore_ok ds")
  case True
  then show ?thesis by (simp add: yields_ret)
next
  case False
  then show ?thesis unfolding yields_def
    by (metis datastore_bad outcome.distinct(1) prod.inject)
qed

lemma yields_after: "yields Q m \<Longrightarrow> (\<And>a. Q a \<Longrightarrow> yields P (f a)) \<Longrightarrow> yields P (gbind m f)"
  unfolding yields_def by (blast elim: gbind_RetE)

lemma New_yields:
  "yields (\<lambda>m. \<exists>i. m = MLock i (Some (datastore_elem ds))) (NewLock e ds)"
  "yields (\<lambda>m. \<exists>i. m = MUnlock i (Some (datastore_elem ds))) (NewUnlock e ds)"
  "yields (\<lambda>m. \<exists>i. m = MEditConfig i (Some (datastore_elem ds)) oper data) (NewEditConfig e ds oper data)"
  "yields (\<lambda>m. \<exists>i. m = MCommit i []) (NewCommit e)"
  unfolding NewLock_def NewUnlock_def NewEditConfig_def NewCommit_def
  by (intro yields_gthen yields_after[OF datastore_yields] yields_gbind yields_ret; simp)+

text \<open>One step of the sequence: a request of the given shapes, and its reply.\<close>

lemma writes_step:
  assumes "tp_ReadWriteCloser T = Some h"
    and "\<And>I. (\<And>s w. I s \<Longrightarrow> I (s\<lparr>world := w\<rparr>)) \<Longrightarrow> keeps I b" "yields (\<lambda>m. \<exists>i. m = f i) b"
  shows "writes e i T h {[f j] | j. True} (gbind b (\<lambda>m. gbind (rpc_or_nil e (Some i) m t) (\<lambda>r. ret (g r))))"
proof (rule writes_build[OF assms(2,3)])
  fix m assume "\<exists>i. m = f i"
  moreover have "writes e i T h {xs @ ys | xs ys. xs \<in> {[m]} \<and> ys \<in> {[]}} (gbind (rpc_or_nil e (Some i) m t) (\<lambda>r. ret (g r)))"
    by (intro writes_gbind writes_rpc assms(1) writes_ret)
  ultimately show "writes e i T h {[f j] | j. True} (gbind (rpc_or_nil e (Some i) m t) (\<lambda>r. ret (g r)))"
    by (elim writes_mono) auto
qed

text \<open>The requests of an \<open>EditConfig\<close>, with their identifiers.\<close>

definition editconfig_requests :: "EditConfigSpec \<Rightarrow> string \<Rightarrow> string \<Rightarrow> string \<Rightarrow> string \<Rightarrow> RPCMethod list" where
  "editconfig_requests spec a b c d =
     (if ec_Lock spec then [MLock a (Some (datastore_elem (ec_Target spec)))] else []) @
     [MEditConfig b (Some (datastore_elem (ec_Target spec))) (ec_Operation spec) (ec_XML spec)] @
     (if ec_Commit spec then [MCommit c []] else []) @
     (if ec_Unlock spec then [MUnlock d (Some (datastore_elem (ec_Target spec)))] else [])"

definition optional :: "bool \<Rightarrow> (string \<Rightarrow> RPCMethod) \<Rightarrow> RPCMethod list set" where
  "optional b f = (if b then {[f j] | j. True} else {[]})"

lemma writes_optional:
  assumes "tp_ReadWriteCloser T = Some h"
    and "\<And>I. (\<And>s w. I s \<Longrightarrow> I (s\<lparr>world := w\<rparr>)) \<Longrightarrow> keeps I b" "yields (\<lambda>m. \<exists>i. m = f i) b"
  shows "writes e i T h (optional c f)
    (if c then gbind b (\<lambda>m. gthen (rpc_or_nil e (Some i) m t) (ret ())) else ret ())"
  using writes_step[OF assms, where g = "\<lambda>_. ()"] by (simp add: optional_def gthen_def writes_ret)

lemma optional_requests:
  assumes "xs \<in> {xs @ ys | xs ys. xs \<in> optional (ec_Lock spec) (\<lambda>j. MLock j (Some (datastore_elem (ec_Target spec)))) \<and>
    ys \<in> {xs @ ys | xs ys. xs \<in> {[MEditConfig j (Some (datastore_elem (ec_Target spec))) (ec_Operation spec) (ec_XML spec)] | j. True} \<and>
    ys \<in> {xs @ ys | xs ys. xs \<in> optional (ec_Commit spec) (\<lambda>j. MCommit j []) \<and>
    ys \<in> {xs @ ys | xs ys. xs \<in> optional (ec_Unlock spec) (\<lambda>j. MUnlock j (Some (datastore_elem (ec_Target spec)))) \<and> ys \<in> {[]}}}}}"
  shows "\<exists>a b c d. xs = editconfig_requests spec a b c d"
proof -
  obtain l j c u where xs: "xs = l @ [MEditConfig j (Some (datastore_elem (ec_Target spec))) (ec_Operation spec) (ec_XML spec)] @ c @ u"
    and l: "l \<in> optional (ec_Lock spec) (\<lambda>j. MLock j (Some (datastore_elem (ec_Target spec))))"
    and c: "c \<in> optional (ec_Commit spec) (\<lambda>j. MCommit j [])"
    and u: "u \<in> optional (ec_Unlock spec) (\<lambda>j. MUnlock j (Some (datastore_elem (ec_Target spec))))"
    using assms by auto
  show ?thesis using xs l c u unfolding editconfig_requests_def optional_def by (auto split: if_splits)
qed

lemma send_EditConfig_writes:
  assumes S: "Sessions s (GetMountPointNamespacedName obj (ec_MountPoint (cr_Spec obj))) = Some i"
    and T: "map_option se_Transport (heap s i) = Some T" "tp_ReadWriteCloser T = Some h"
    and run: "send_EditConfig e obj s = (Ret r, t)"
  shows "\<exists>a b c d. sends t = sends s @
    map (\<lambda>m. Sent h (Send_frame (tp_version T) (wire e m))) (editconfig_requests (cr_Spec obj) a b c d)"
proof -
  let ?spec = "cr_Spec obj"
  let ?tgt = "ec_Target ?spec" and ?tmo = "ec_Timeout ?spec"
  let ?L = "if ec_Lock ?spec then gbind (NewLock e ?tgt) (\<lambda>m. gthen (rpc_or_nil e (Some i) m ?tmo) (ret ())) else ret ()"
  let ?C = "if ec_Commit ?spec then gbind (NewCommit e) (\<lambda>m. gthen (rpc_or_nil e (Some i) m ?tmo) (ret ())) else ret ()"
  let ?U = "if ec_Unlock ?spec then gbind (NewUnlock e ?tgt) (\<lambda>m. gthen (rpc_or_nil e (Some i) m ?tmo) (ret ())) else ret ()"
  let ?D = "Some (datastore_elem ?tgt)"
  let ?out = "\<lambda>reply. ret (set_RpcReply (re_Data reply) (set_Status ''success'' obj), None)"
  note opt = writes_optional[OF T(2) keeps_New(4) New_yields(1)] writes_optional[OF T(2) keeps_New(6) New_yields(4)]
    writes_optional[OF T(2) keeps_New(5) New_yields(2)]
  have CU: "writes e i T h {xs @ ys | xs ys. xs \<in> optional (ec_Commit ?spec) (\<lambda>j. MCommit j []) \<and>
      ys \<in> {xs @ ys | xs ys. xs \<in> optional (ec_Unlock ?spec) (\<lambda>j. MUnlock j ?D) \<and> ys \<in> {[]}}}
      (gthen ?C (gthen ?U (?out reply)))" (is "writes _ _ _ _ ?cu _") for reply
    unfolding gthen_def[of ?C] gthen_def[of ?U] by (intro writes_gbind opt writes_ret)
  have E: "writes e i T h {xs @ ys | xs ys. xs \<in> {[MEditConfig j ?D (ec_Operation ?spec) (ec_XML ?spec)] | j. True} \<and> ys \<in> ?cu}
      (gbind (NewEditConfig e ?tgt (ec_Operation ?spec) (ec_XML ?spec)) (\<lambda>m.
        gbind (rpc_or_nil e (Some i) m ?tmo) (\<lambda>reply. gthen ?C (gthen ?U (?out reply)))))"
    by (rule writes_build[OF keeps_New(7) New_yields(3)], assumption,
        rule writes_mono[OF writes_gbind[OF writes_rpc[OF T(2)] CU]]) blast
  have W: "writes e i T h {xs @ ys | xs ys. xs \<in> optional (ec_Lock ?spec) (\<lambda>j. MLock j ?D) \<and>
      ys \<in> {xs @ ys | xs ys. xs \<in> {[MEditConfig j ?D (ec_Operation ?spec) (ec_XML ?spec)] | j. True} \<and> ys \<in> ?cu}}
      (gthen ?L (gbind (NewEditConfig e ?tgt (ec_Operation ?spec) (ec_XML ?spec)) (\<lambda>m.
        gbind (rpc_or_nil e (Some i) m ?tmo) (\<lambda>reply. gthen ?C (gthen ?U (?out reply))))))" (is "writes _ _ _ _ ?all _")
    unfolding gthen_def[of ?L] by (intro writes_gbind opt(1) E)
  have go: "gthen ?L (gbind (NewEditConfig e ?tgt (ec_Operation ?spec) (ec_XML ?spec)) (\<lambda>m.
        gbind (rpc_or_nil e (Some i) m ?tmo) (\<lambda>reply. gthen ?C (gthen ?U (?out reply))))) s = (Ret r, t)"
    using run unfolding send_EditConfig_def Let_def session_of_run S .
  obtain ms where ms: "ms \<in> ?all" and sent: "sends t = sends s @ map (\<lambda>m. Sent h (Send_frame (tp_version T) (wire e m))) ms"
    by (rule bexE[OF conjunct2[OF W[unfolded writes_def, rule_format, OF T(1) go]]])
  obtain a b c d where "ms = editconfig_requests ?spec a b c d" using optional_requests[OF ms] by (elim exE)
  with sent show ?thesis by auto
qed

text \<open>What is reported is the data of the reply to the second request, \<open>edit-config\<close>.\<close>

lemma send_EditConfig_reports:
  assumes "Sessions s (GetMountPointNamespacedName obj (ec_MountPoint (cr_Spec obj))) = Some i"
    and "send_EditConfig e obj s = (Ret (obj', err), t)"
  shows "err = None \<and> (\<exists>s2 m s3 r er s4.
    optional_rpc (ec_Lock (cr_Spec obj)) (NewLock e (ec_Target (cr_Spec obj))) e (Some i) (ec_Timeout (cr_Spec obj)) s = (Ret (), s2) \<and>
    NewEditConfig e (ec_Target (cr_Spec obj)) (ec_Operation (cr_Spec obj)) (ec_XML (cr_Spec obj)) s2 = (Ret m, s3) \<and>
    SyncRPC e (Some i) m (ec_Timeout (cr_Spec obj)) s3 = (Ret (Some r, er), s4) \<and>
    obj' = set_RpcReply (re_Data r) (set_Status ''success'' obj))"
proof -
  let ?spec = "cr_Spec obj"
  let ?L = "optional_rpc (ec_Lock ?spec) (NewLock e (ec_Target ?spec)) e (Some i) (ec_Timeout ?spec)"
  let ?C = "optional_rpc (ec_Commit ?spec) (NewCommit e) e (Some i) (ec_Timeout ?spec)"
  let ?U = "optional_rpc (ec_Unlock ?spec) (NewUnlock e (ec_Target ?spec)) e (Some i) (ec_Timeout ?spec)"
  have run: "gthen ?L (gbind (NewEditConfig e (ec_Target ?spec) (ec_Operation ?spec) (ec_XML ?spec)) (\<lambda>m.
        gbind (rpc_or_nil e (Some i) m (ec_Timeout ?spec)) (\<lambda>reply. gthen ?C (gthen ?U
          (ret (set_RpcReply (re_Data reply) (set_Status ''success'' obj), None)))))) s = (Ret (obj', err), t)"
    using assms(2) unfolding send_EditConfig_def Let_def session_of_run assms(1) .
  obtain s2 where l: "?L s = (Ret (), s2)" and r2: "gbind (NewEditConfig e (ec_Target ?spec) (ec_Operation ?spec) (ec_XML ?spec)) (\<lambda>m.
        gbind (rpc_or_nil e (Some i) m (ec_Timeout ?spec)) (\<lambda>reply. gthen ?C (gthen ?U
          (ret (set_RpcReply (re_Data reply) (set_Status ''success'' obj), None))))) s2 = (Ret (obj', err), t)"
    using gthen_RetE[OF run] by auto
  obtain m s3 where m: "NewEditConfig e (ec_Target ?spec) (ec_Operation ?spec) (ec_XML ?spec) s2 = (Ret m, s3)"
    and r3: "gbind (rpc_or_nil e (Some i) m (ec_Timeout ?spec)) (\<lambda>reply. gthen ?C (gthen ?U
          (ret (set_RpcReply (re_Data reply) (set_Status ''success'' obj), None)))) s3 = (Ret (obj', err), t)"
    using r2 by (rule gbind_RetE)
  obtain r s4 where r: "rpc_or_nil e (Some i) m (ec_Timeout ?spec) s3 = (Ret r, s4)"
    and r4: "gthen ?C (gthen ?U (ret (set_RpcReply (re_Data r) (set_Status ''success'' obj), None))) s4 = (Ret (obj', err), t)"
    using r3 by (rule gbind_RetE)
  obtain s5 where "gthen ?U (ret (set_RpcReply (re_Data r) (set_Status ''success'' obj), None)) s5 = (Ret (obj', err), t)"
    using gthen_RetE[OF r4] by auto
  then have "obj' = set_RpcReply (re_Data r) (set_Status ''success'' obj)" "err = None"
    using gthen_RetE by fastforce+
  moreover obtain er where "SyncRPC e (Some i) m (ec_Timeout ?spec) s3 = (Ret (Some r, er), s4)"
    using r unfolding rpc_or_nil_def by (auto elim!: gbind_RetE split: option.splits)
  ultimately show ?thesis using l m by blast
qed

section \<open>The example\<close>

lemma example_rpc_or_nil:
  assumes "heap s i = Some x" "example_idle x" "GetMessageID oper = example_id" "chans s = Map.empty"
  shows "rpc_or_nil example_env (Some i) oper t s = (Ret example_answer,
    s\<lparr>next_chan := Suc (next_chan s), heap := (heap s)(i \<mapsto> on_Listener (Remove example_id \<circ> Register example_id (CbReply (next_chan s))) x),
      trace := trace s @ [Sent 2 (Send_frame ''v1.0'' (xml_Header @ ''<rpc/>''))]\<rparr>)"
  using example_answers[OF assms(1-3), of t] assms(4) by (simp add: rpc_or_nil_def gbind_def)

lemma example_idle_listener [simp]: "example_idle (on_Listener f x) = example_idle x"
  by (simp add: example_idle_def on_Listener_def)

lemma example_builds [simp]:
  "NewLock example_env ''running'' s = (Ret (MLock example_id (Some (datastore_elem ''running''))), s)"
  "NewUnlock example_env ''running'' s = (Ret (MUnlock example_id (Some (datastore_elem ''running''))), s)"
  "NewEditConfig example_env ''running'' ''merge'' data s =
     (Ret (MEditConfig example_id (Some (datastore_elem ''running'')) ''merge'' data), s)"
  "NewCommit example_env s = (Ret (MCommit example_id []), s)"
  by (simp_all add: NewLock_def NewUnlock_def NewEditConfig_def NewCommit_def datastore_ok_def DatastoreRunning_def
      operation_ok_def DefaultOperationTypeMerge_def gbind_def[where m = "uuid example_env"])

lemma example_send_EditConfig:
  "\<exists>t. send_EditConfig example_env example_EditConfig example_state =
     (Ret (set_RpcReply ''data'' (set_Status ''success'' example_EditConfig), None), t)"
proof -
  have idle: "example_idle example_Session" by (simp add: example_idle_def example_Session_def)
  have key: "GetMountPointNamespacedName example_EditConfig (ec_MountPoint (cr_Spec example_EditConfig)) = ''ns/m''"
    by (simp add: example_objects example_names)
  have spec: "ec_Lock (cr_Spec example_EditConfig)" "ec_Commit (cr_Spec example_EditConfig)"
    "ec_Unlock (cr_Spec example_EditConfig)" "ec_Target (cr_Spec example_EditConfig) = ''running''"
    "ec_Operation (cr_Spec example_EditConfig) = ''merge''"
    by (simp_all add: example_objects)
  have d: "re_Data example_answer = ''data''" by (simp add: example_answer_def example_reply_def)
  show ?thesis
    unfolding send_EditConfig_def Let_def key spec
    by (simp add: keyed_example, simp add: gthen_def gbind_def example_rpc_or_nil example_state_def idle spec d)
qed

lemma example_EditConfig_ready:
  "dependency_ok example_env (om_Namespace (cr_Meta example_EditConfig)) (ec_DependsOn (cr_Spec example_EditConfig)) (world example_state)"
  "Sessions example_state (GetMountPointNamespacedName example_EditConfig (ec_MountPoint (cr_Spec example_EditConfig))) = Some 0"
  "heap example_state 0 = Some example_Session" "tp_ReadWriteCloser (se_Transport example_Session) = Some 2"
proof -
  show "Sessions example_state (GetMountPointNamespacedName example_EditConfig (ec_MountPoint (cr_Spec example_EditConfig))) = Some 0"
    by (rule keyed_example) (simp add: example_objects example_names)
qed (use example_dependency_ok in \<open>simp_all add: example_EditConfig_def example_cr_def example_state_def example_Session_def\<close>)

lemma example_EditConfig_runs:
  "\<exists>t. manageOperatorLogic_EditConfig example_env example_EditConfig example_state =
     (Ret (set_RpcReply ''data'' (set_Status ''success'' example_EditConfig), None), t) \<and> sends t \<noteq> sends example_state"
proof -
  obtain w where "manageOperatorLogic_EditConfig example_env example_EditConfig example_state =
      send_EditConfig example_env example_EditConfig (example_state\<lparr>world := w\<rparr>)"
    unfolding manageOperatorLogic_EditConfig_def using example_EditConfig_ready(1) by (rule with_dependency_ok)
  moreover obtain t where t: "send_EditConfig example_env example_EditConfig example_state =
      (Ret (set_RpcReply ''data'' (set_Status ''success'' example_EditConfig), None), t)"
    using example_send_EditConfig by blast
  moreover have "sends t \<noteq> sends example_state"
    using send_EditConfig_writes[OF example_EditConfig_ready(2) _ example_EditConfig_ready(4) t]
      example_EditConfig_ready(3) by (auto simp: editconfig_requests_def)
  ultimately show ?thesis by simp
qed

section \<open>Properties\<close>

text \<open>
  C12: an \<open>EditConfig\<close> whose dependency is met and whose session is open writes to the device exactly
  the requests it asks for, in the order lock, edit-config, commit, unlock, each on the same datastore
  and framed for the session's version. Whenever it returns it has written all of them and reports
  success, with the data of the reply to its \<open>edit-config\<close> request, the one that is made after the lock,
  whatever errors the replies carry. The comment on the field \<open>Unlock\<close> says that the unlock comes before
  the \<open>edit-config\<close>, which is not what happens.
\<close>

theorem EditConfig_order:
  assumes "dependency_ok e (om_Namespace (cr_Meta obj)) (ec_DependsOn (cr_Spec obj)) (world s)"
    and "Sessions s (GetMountPointNamespacedName obj (ec_MountPoint (cr_Spec obj))) = Some i"
    and "heap s i = Some x" and "tp_ReadWriteCloser (se_Transport x) = Some h"
    and "manageOperatorLogic_EditConfig e obj s = (Ret (obj', err), t)"
  shows "err = None \<and>
    (\<exists>s1 s2 m s3 r er s4.
       check_dependency e (om_Namespace (cr_Meta obj)) (ec_DependsOn (cr_Spec obj)) s = (Ret None, s1) \<and>
       optional_rpc (ec_Lock (cr_Spec obj)) (NewLock e (ec_Target (cr_Spec obj))) e (Some i) (ec_Timeout (cr_Spec obj)) s1 = (Ret (), s2) \<and>
       NewEditConfig e (ec_Target (cr_Spec obj)) (ec_Operation (cr_Spec obj)) (ec_XML (cr_Spec obj)) s2 = (Ret m, s3) \<and>
       SyncRPC e (Some i) m (ec_Timeout (cr_Spec obj)) s3 = (Ret (Some r, er), s4) \<and>
       obj' = set_RpcReply (re_Data r) (set_Status ''success'' obj)) \<and>
    (\<exists>a b c d. sends t = sends s @ map (\<lambda>m. Sent h (Send_frame (tp_version (se_Transport x)) (wire e m)))
       (editconfig_requests (cr_Spec obj) a b c d))"
proof -
  obtain er w where c: "check_dependency e (om_Namespace (cr_Meta obj)) (ec_DependsOn (cr_Spec obj)) s = (Ret er, s\<lparr>world := w\<rparr>)"
    and er: "er = None"
    using check_dependency_run[of e _ _ s] assms(1) by metis
  have run: "send_EditConfig e obj (s\<lparr>world := w\<rparr>) = (Ret (obj', err), t)"
    using assms(5) c er by (simp add: manageOperatorLogic_EditConfig_def with_dependency_def gbind_def)
  have S: "Sessions (s\<lparr>world := w\<rparr>) (GetMountPointNamespacedName obj (ec_MountPoint (cr_Spec obj))) = Some i"
    using assms(2) by simp
  have "\<exists>a b c d. sends t = sends (s\<lparr>world := w\<rparr>) @ map (\<lambda>m. Sent h (Send_frame (tp_version (se_Transport x)) (wire e m)))
       (editconfig_requests (cr_Spec obj) a b c d)"
    by (rule send_EditConfig_writes[OF S _ assms(4) run]) (use assms(3) in auto)
  moreover have "sends (s\<lparr>world := w\<rparr>) = sends s" by (simp add: sends_def)
  ultimately show ?thesis using send_EditConfig_reports[OF S run] c[unfolded er] by (simp only:) blast
qed

theorem EditConfig_order_witness:
  "\<exists>t a b c d. manageOperatorLogic_EditConfig example_env example_EditConfig example_state =
      (Ret (set_RpcReply ''data'' (set_Status ''success'' example_EditConfig), None), t) \<and>
    sends t = sends example_state @ map (\<lambda>m. Sent 2 (Send_frame (tp_version (se_Transport example_Session)) (wire example_env m)))
       (editconfig_requests (cr_Spec example_EditConfig) a b c d)"
proof -
  obtain t where run: "manageOperatorLogic_EditConfig example_env example_EditConfig example_state =
      (Ret (set_RpcReply ''data'' (set_Status ''success'' example_EditConfig), None), t)"
    using example_EditConfig_runs by blast
  from EditConfig_order[OF example_EditConfig_ready run, THEN conjunct2, THEN conjunct2] run show ?thesis by blast
qed

text \<open>
  An \<open>EditConfig\<close> is sent only after what it depends on: if a reconciliation writes anything to a
  device, then the resource exists and is not being deleted, its mount point exists and has a
  session, and it names no dependency or the dependency existed with status \<open>success\<close> when it was
  read, right after the mount point.
\<close>

lemma Reconcile_EditConfig_guarded:
  assumes "sends (snd (Reconcile_EditConfig e req s)) \<noteq> sends s"
  shows "\<exists>obj w u. k_Get (editconfigs e) req (world s) = (Inr obj, w) \<and> \<not> IsBeingDeleted obj \<and>
    require_MountPoint e (om_Namespace (cr_Meta obj)) (ec_MountPoint (cr_Spec obj)) (s\<lparr>world := w\<rparr>) =
      (Ret (True, None), s\<lparr>world := u\<rparr>) \<and>
    dependency_ok e (om_Namespace (cr_Meta obj)) (ec_DependsOn (cr_Spec obj)) u"
proof -
  obtain obj w x u where *: "k_Get (rc_client (newEditConfigReconciler e)) req (world s) = (Inr obj, w)"
    "isValid_EditConfig e (OEditConfig obj) (s\<lparr>world := w\<rparr>) = (Ret (True, x), s\<lparr>world := u\<rparr>)" "\<not> IsBeingDeleted obj"
    "sends (snd (manageOperatorLogic_EditConfig e obj (s\<lparr>world := u\<rparr>))) \<noteq> sends s"
    using editconfig.reconcile_guarded[OF assms[unfolded Reconcile_EditConfig_def]] by metis
  have "dependency_ok e (om_Namespace (cr_Meta obj)) (ec_DependsOn (cr_Spec obj)) (world (s\<lparr>world := u\<rparr>))"
    by (rule with_dependency_guarded) (use *(4) in \<open>simp add: manageOperatorLogic_EditConfig_def sends_def\<close>)
  moreover have "x = None"
    using *(2) by (auto simp: isValid_EditConfig_def dest: require_MountPoint_True)
  ultimately show ?thesis using * by (auto simp: newEditConfigReconciler_def isValid_EditConfig_def)
qed

end
