(* ===== verification/Get_Controller.thy ===== *)
theory Get_Controller
  imports Reconcile_Frame
begin

text \<open>
  \<open>controllers/get\_controller.go\<close>: a \<open>Get\<close> resource sends one \<open>get\<close> request, with a subtree filter if it
  has one.
\<close>

definition isInitialized_Get :: "Object \<Rightarrow> bool" where
  "isInitialized_Get obj = (case obj of OGet _ \<Rightarrow> True | _ \<Rightarrow> False)"

definition isValid_Get :: "'w env \<Rightarrow> Object \<Rightarrow> ('w, bool \<times> gerror option) op" where
  "isValid_Get e obj = (case obj of
     OGet instance \<Rightarrow> require_MountPoint e (om_Namespace (cr_Meta instance)) (gt_MountPoint (cr_Spec instance))
   | _ \<Rightarrow> ret (False, Some (GoError (GetName obj @ '' is not a Get object''))))"

definition manageOperatorLogic_Get :: "'w env \<Rightarrow> Get \<Rightarrow> ('w, Get \<times> gerror option) op" where
  "manageOperatorLogic_Get e obj =
     gbind (NewGet e (gt_FilterType (cr_Spec obj)) (gt_FilterXML (cr_Spec obj))) (\<lambda>m.
     gbind (session_of (GetMountPointNamespacedName obj (gt_MountPoint (cr_Spec obj)))) (\<lambda>s.
     gbind (SyncRPC e s m (gt_Timeout (cr_Spec obj))) (\<lambda>(reply, err).
       report_reply reply err obj)))"

type_synonym 'w GetReconciler = "('w, GetSpec) reconciler"

definition newGetReconciler :: "'w env \<Rightarrow> 'w GetReconciler" where
  "newGetReconciler e = \<lparr>rc_client = gets_client e, rc_recorder = getControllerName\<rparr>"

definition Reconcile_Get :: "'w env \<Rightarrow> NamespacedName \<Rightarrow> ('w, Result \<times> gerror option) op" where
  "Reconcile_Get e req = reconcile_rpc e (newGetReconciler e) zero_Get OGet (isValid_Get e)
     isInitialized_Get (manageOperatorLogic_Get e) req"

section \<open>Laws\<close>

text \<open>The request is built before the session is looked up, which makes no difference.\<close>

lemma NewGet_Sessions: "NewGet e a b s = (Ret m, t) \<Longrightarrow> Sessions t = Sessions s"
  using keepsD_eq[OF keeps_New(2)[where I = "\<lambda>u. Sessions u = Sessions s" and e = e and a = a and b = b], of s] by simp

lemma manageOperatorLogic_Get_once:
  "manageOperatorLogic_Get e obj = rpc_once e (\<lambda>o'. GetMountPointNamespacedName o' (gt_MountPoint (cr_Spec o')))
     (\<lambda>o'. NewGet e (gt_FilterType (cr_Spec o')) (gt_FilterXML (cr_Spec o'))) (\<lambda>o'. gt_Timeout (cr_Spec o')) obj"
proof
  fix s
  obtain o' t where "NewGet e (gt_FilterType (cr_Spec obj)) (gt_FilterXML (cr_Spec obj)) s = (o', t)" by fastforce
  then show "manageOperatorLogic_Get e obj s = rpc_once e (\<lambda>o'. GetMountPointNamespacedName o' (gt_MountPoint (cr_Spec o')))
     (\<lambda>o'. NewGet e (gt_FilterType (cr_Spec o')) (gt_FilterXML (cr_Spec o'))) (\<lambda>o'. gt_Timeout (cr_Spec o')) obj s"
    by (cases o') (auto simp: NewGet_Sessions manageOperatorLogic_Get_def rpc_once_def
        gbind_def[where m = "NewGet e (gt_FilterType (cr_Spec obj)) (gt_FilterXML (cr_Spec obj))"])
qed

definition get_filter_ok :: "'w env \<Rightarrow> string \<Rightarrow> string \<Rightarrow> bool" where
  "get_filter_ok e filterType data \<longleftrightarrow>
     data = [] \<or> filterType = FilterTypeSubtree \<and> xml_Unmarshal_any e data = None"

definition get_request :: "string \<Rightarrow> string \<Rightarrow> RPCMethod" where
  "get_request i data = (if data = [] then MGet i (Some []) None
     else MGet i None (Some \<lparr>fl_Type = FilterTypeSubtree, fl_Data = data\<rparr>))"

lemma NewGet_builds: "get_filter_ok e ft data \<Longrightarrow> builds (NewGet e ft data) (\<lambda>i. get_request i data)"
  unfolding get_filter_ok_def get_request_def
  using NewGet_unfiltered_builds[of e ft] NewGet_filtered_builds[of data e] by (cases "data = []") auto

interpretation get: rpc_kind e "\<lambda>o'. GetMountPointNamespacedName o' (gt_MountPoint (cr_Spec o'))"
    "\<lambda>o'. NewGet e (gt_FilterType (cr_Spec o')) (gt_FilterXML (cr_Spec o'))" "\<lambda>o'. gt_Timeout (cr_Spec o')" "manageOperatorLogic_Get e"
    "newGetReconciler e" zero_Get OGet "isValid_Get e" isInitialized_Get for e
  by unfold_locales (simp_all add: manageOperatorLogic_Get_once keeps_New isInitialized_Get_def
      isValid_Get_def asks_require_MountPoint require_MountPoint_error del: not_None_eq)

section \<open>Properties\<close>

text \<open>
  Reconciling a \<open>Get\<close> that exists, is not being deleted and names a ready mount point, with a
  well-formed subtree filter or none, sends one \<open>get\<close> request over the mount point's session, and the
  reply decides the status and the data that are then written. With a filter the request holds the
  filter alone, without a \<open>get\<close> element.
\<close>

lemma Reconcile_Get_refines:
  assumes "k_Get (gets_client e) req (world s) = (Inr obj, w)"
    and "mountpoint_ready e (om_Namespace (cr_Meta obj)) (gt_MountPoint (cr_Spec obj)) (s\<lparr>world := w\<rparr>)"
    and "\<not> IsBeingDeleted obj" and "get_filter_ok e (gt_FilterType (cr_Spec obj)) (gt_FilterXML (cr_Spec obj))"
  shows "\<exists>i v. length i = 36 \<and> Reconcile_Get e req s =
    perform_rpc e (newGetReconciler e) obj (Sessions s (GetMountPointNamespacedName obj (gt_MountPoint (cr_Spec obj))))
      (get_request i (gt_FilterXML (cr_Spec obj))) (gt_Timeout (cr_Spec obj)) (s\<lparr>world := v\<rparr>)"
proof -
  obtain u where v: "isValid_Get e (OGet obj) (s\<lparr>world := w\<rparr>) = (Ret (True, None), s\<lparr>world := u\<rparr>)"
    by (rule require_MountPoint_ready[OF assms(2)]) (simp add: isValid_Get_def)
  have g: "k_Get (rc_client (newGetReconciler e)) req (world s) = (Inr obj, w)"
    using assms(1) by (simp add: newGetReconciler_def)
  show ?thesis
    unfolding Reconcile_Get_def by (rule get.kind_performs[OF g v assms(3) NewGet_builds[OF assms(4)]])
qed

end
