(* ===== verification/GetConfig_Controller.thy ===== *)
theory GetConfig_Controller
  imports Reconcile_Frame
begin

text \<open>
  \<open>controllers/getconfig\_controller.go\<close>: a \<open>GetConfig\<close> resource sends one \<open>get-config\<close> request for its
  datastore, without a filter.
\<close>

definition isInitialized_GetConfig :: "Object \<Rightarrow> bool" where
  "isInitialized_GetConfig obj = (case obj of OGetConfig _ \<Rightarrow> True | _ \<Rightarrow> False)"

definition isValid_GetConfig :: "'w env \<Rightarrow> Object \<Rightarrow> ('w, bool \<times> gerror option) op" where
  "isValid_GetConfig e obj = (case obj of
     OGetConfig instance \<Rightarrow> require_MountPoint e (om_Namespace (cr_Meta instance)) (gc_MountPoint (cr_Spec instance))
   | _ \<Rightarrow> ret (False, Some (GoError (''not an GetConfig object''))))"

definition manageOperatorLogic_GetConfig :: "'w env \<Rightarrow> GetConfig \<Rightarrow> ('w, GetConfig \<times> gerror option) op" where
  "manageOperatorLogic_GetConfig e obj =
     gbind (session_of (GetMountPointNamespacedName obj (gc_MountPoint (cr_Spec obj)))) (\<lambda>s.
     gbind (NewGetConfig e (gc_Target (cr_Spec obj)) [] []) (\<lambda>m.
     gbind (SyncRPC e s m (gc_Timeout (cr_Spec obj))) (\<lambda>(reply, err).
       report_reply reply err obj)))"

type_synonym 'w GetConfigReconciler = "('w, GetConfigSpec) reconciler"

definition newGetConfigReconciler :: "'w env \<Rightarrow> 'w GetConfigReconciler" where
  "newGetConfigReconciler e = \<lparr>rc_client = getconfigs e, rc_recorder = getConfigControllerName\<rparr>"

definition Reconcile_GetConfig :: "'w env \<Rightarrow> NamespacedName \<Rightarrow> ('w, Result \<times> gerror option) op" where
  "Reconcile_GetConfig e req = reconcile_rpc e (newGetConfigReconciler e) zero_GetConfig OGetConfig (isValid_GetConfig e)
     isInitialized_GetConfig (manageOperatorLogic_GetConfig e) req"

section \<open>Laws\<close>

interpretation getconfig: rpc_kind e "\<lambda>o'. GetMountPointNamespacedName o' (gc_MountPoint (cr_Spec o'))"
    "\<lambda>o'. NewGetConfig e (gc_Target (cr_Spec o')) [] []" "\<lambda>o'. gc_Timeout (cr_Spec o')" "manageOperatorLogic_GetConfig e"
    "newGetConfigReconciler e" zero_GetConfig OGetConfig "isValid_GetConfig e" isInitialized_GetConfig for e
  by unfold_locales (simp_all add: manageOperatorLogic_GetConfig_def rpc_once_def keeps_New isInitialized_GetConfig_def
      isValid_GetConfig_def asks_require_MountPoint require_MountPoint_error del: not_None_eq)

section \<open>Properties\<close>

text \<open>
  Reconciling a \<open>GetConfig\<close> that exists, is not being deleted, names a supported datastore and a
  ready mount point sends one \<open>get-config\<close> request for exactly that datastore and without a filter over the
  mount point's session, and the reply decides the status and the data that are then written.
\<close>

theorem Reconcile_GetConfig_refines:
  assumes "k_Get (getconfigs e) req (world s) = (Inr obj, w)"
    and "mountpoint_ready e (om_Namespace (cr_Meta obj)) (gc_MountPoint (cr_Spec obj)) (s\<lparr>world := w\<rparr>)"
    and "\<not> IsBeingDeleted obj" and "datastore_ok (gc_Target (cr_Spec obj))"
  shows "\<exists>i v. length i = 36 \<and> Reconcile_GetConfig e req s =
    perform_rpc e (newGetConfigReconciler e) obj (Sessions s (GetMountPointNamespacedName obj (gc_MountPoint (cr_Spec obj))))
      (MGetConfig i (Some (datastore_elem (gc_Target (cr_Spec obj)))) None) (gc_Timeout (cr_Spec obj)) (s\<lparr>world := v\<rparr>)"
proof -
  obtain u where v: "isValid_GetConfig e (OGetConfig obj) (s\<lparr>world := w\<rparr>) = (Ret (True, None), s\<lparr>world := u\<rparr>)"
    by (rule require_MountPoint_ready[OF assms(2)]) (simp add: isValid_GetConfig_def)
  have g: "k_Get (rc_client (newGetConfigReconciler e)) req (world s) = (Inr obj, w)"
    using assms(1) by (simp add: newGetConfigReconciler_def)
  show ?thesis
    unfolding Reconcile_GetConfig_def by (rule getconfig.kind_performs[OF g v assms(3) NewGetConfig_builds[OF assms(4)]])
qed

text \<open>
  C10: a configuration that was asked for arrives in the resource. The \<open>GetConfig\<close> exists, is accepted by its
  validation, is not being deleted and names a supported datastore; its session is open, the listener is
  between two messages and the reply channels are in order. The device takes the request and, while the
  caller waits, delivers a reply with the identifier of the request, framed for the version of the session
  and cut into pieces that \<open>fragments\<close> allows (each but the last at least as long as the separator less one
  byte; other cuts can be missed). Then the reconciliation ends with the reply recorded in the object:
  status \<open>success\<close> and the data of the reply when it has no errors, \<open>failed\<close> and its raw text otherwise; and
  the object is written with the condition of a success.
\<close>

theorem Reconcile_GetConfig_completes:
  assumes "k_Get (getconfigs e) req (world s) = (Inr obj, w)"
    and "isValid_GetConfig e (OGetConfig obj) (s\<lparr>world := w\<rparr>) = (Ret (True, z), s\<lparr>world := u\<rparr>)" and "\<not> IsBeingDeleted obj"
    and "NewGetConfig e (gc_Target (cr_Spec obj)) [] [] (s\<lparr>world := u\<rparr>) = (Ret m, s\<lparr>world := v\<rparr>)"
    and "Sessions s (GetMountPointNamespacedName obj (gc_MountPoint (cr_Spec obj))) = Some i"
    and "heap s i = Some x" "idle x" "chan_inv s"
    and "device_answers e (se_Transport x) m (gc_Timeout (cr_Spec obj)) h q reply v v'"
  shows "Reconcile_GetConfig e req s =
    ManageSuccess e (newGetConfigReconciler e) (reported reply obj) (rpc_answered i x h m q v' s)"
proof -
  have "k_Get (rc_client (newGetConfigReconciler e)) req (world s) = (Inr obj, w)"
    using assms(1) by (simp add: newGetConfigReconciler_def)
  from getconfig.kind_completes[OF this assms(2-)] show ?thesis by (simp add: Reconcile_GetConfig_def)
qed

theorem Reconcile_GetConfig_completes_witness:
  "Reconcile_GetConfig example_env example_req example_state = ManageSuccess example_env (newGetConfigReconciler example_env)
     (reported example_answer example_GetConfig)
     (rpc_answered 0 example_Session 2 (MGetConfig example_id (Some (datastore_elem ''running'')) None)
       (xml_Header @ ''<rpc/>'') () example_state)"
proof (rule Reconcile_GetConfig_completes)
  let ?m = "MGetConfig example_id (Some (datastore_elem ''running'')) None"
  show "k_Get (getconfigs example_env) example_req (world example_state) = (Inr example_GetConfig, ())" by simp
  obtain u where "isValid_GetConfig example_env (OGetConfig example_GetConfig) example_state = (Ret (True, None), example_state\<lparr>world := u\<rparr>)"
    by (rule require_MountPoint_ready[OF example_ready]) (simp add: isValid_GetConfig_def example_objects)
  then show "isValid_GetConfig example_env (OGetConfig example_GetConfig) (example_state\<lparr>world := ()\<rparr>) =
      (Ret (True, None), example_state\<lparr>world := ()\<rparr>)" by simp
  show "\<not> IsBeingDeleted example_GetConfig" by (simp add: example_GetConfig_def)
  show "NewGetConfig example_env (gc_Target (cr_Spec example_GetConfig)) [] [] (example_state\<lparr>world := ()\<rparr>) =
      (Ret ?m, example_state\<lparr>world := ()\<rparr>)"
    by (simp add: NewGetConfig_def example_objects gbind_def datastore_elem_def datastore_def
        validateDatastore_def DatastoreRunning_def gthen_def)
  show "Sessions example_state (GetMountPointNamespacedName example_GetConfig (gc_MountPoint (cr_Spec example_GetConfig))) = Some 0"
    by (rule keyed_example) (simp add: example_objects example_names)
  show "heap example_state 0 = Some example_Session" "idle example_Session"
    by (simp_all add: example_state_def idle_def example_Session_def)
  show "chan_inv example_state" by (rule example_chan_inv)
  show "device_answers example_env (se_Transport example_Session) ?m (gc_Timeout (cr_Spec example_GetConfig)) 2
      (xml_Header @ ''<rpc/>'') example_answer () ()" by (rule example_device) simp
qed

end
