(* ===== verification/RPC_Controller.thy ===== *)
theory RPC_Controller
  imports Reconcile_Frame
begin

text \<open>
  \<open>controllers/rpc\_controller.go\<close>: an \<open>RPC\<close> resource sends its XML as it is, in one \<open>rpc\<close> request.
\<close>

definition isInitialized_RPC :: "Object \<Rightarrow> bool" where
  "isInitialized_RPC obj = (case obj of ORPC _ \<Rightarrow> True | _ \<Rightarrow> False)"

definition isValid_RPC :: "'w env \<Rightarrow> Object \<Rightarrow> ('w, bool \<times> gerror option) op" where
  "isValid_RPC e obj = (case obj of
     ORPC instance \<Rightarrow> require_MountPoint e (om_Namespace (cr_Meta instance)) (rp_MountPoint (cr_Spec instance))
   | _ \<Rightarrow> ret (False, Some (GoError (GetName obj @ '' not an RPC object''))))"

definition manageOperatorLogic_RPC :: "'w env \<Rightarrow> RPC \<Rightarrow> ('w, RPC \<times> gerror option) op" where
  "manageOperatorLogic_RPC e obj =
     gbind (session_of (GetMountPointNamespacedName obj (rp_MountPoint (cr_Spec obj)))) (\<lambda>s.
     gbind (NewRPC e (rp_XML (cr_Spec obj))) (\<lambda>m.
     gbind (SyncRPC e s m (rp_Timeout (cr_Spec obj))) (\<lambda>(reply, err).
       report_reply reply err obj)))"

type_synonym 'w RPCReconciler = "('w, RPCSpec) reconciler"

definition newRPCReconciler :: "'w env \<Rightarrow> 'w RPCReconciler" where
  "newRPCReconciler e = \<lparr>rc_client = rpcs e, rc_recorder = rpcControllerName\<rparr>"

definition Reconcile_RPC :: "'w env \<Rightarrow> NamespacedName \<Rightarrow> ('w, Result \<times> gerror option) op" where
  "Reconcile_RPC e req = reconcile_rpc e (newRPCReconciler e) zero_RPC ORPC (isValid_RPC e)
     isInitialized_RPC (manageOperatorLogic_RPC e) req"

section \<open>Laws\<close>

interpretation rpc: rpc_kind e "\<lambda>o'. GetMountPointNamespacedName o' (rp_MountPoint (cr_Spec o'))"
    "\<lambda>o'. NewRPC e (rp_XML (cr_Spec o'))" "\<lambda>o'. rp_Timeout (cr_Spec o')" "manageOperatorLogic_RPC e"
    "newRPCReconciler e" zero_RPC ORPC "isValid_RPC e" isInitialized_RPC for e
  by unfold_locales (simp_all add: manageOperatorLogic_RPC_def rpc_once_def keeps_New isInitialized_RPC_def
      isValid_RPC_def asks_require_MountPoint require_MountPoint_error del: not_None_eq)

section \<open>Properties\<close>

text \<open>
  Reconciling an \<open>RPC\<close> that exists, is not being deleted and names a ready mount point sends the
  XML of the resource, unchanged, in one request with a generated identifier over the mount point's
  session, and the reply decides the status and the data that are then written.
\<close>

theorem Reconcile_RPC_refines:
  assumes "k_Get (rpcs e) req (world s) = (Inr obj, w)"
    and "mountpoint_ready e (om_Namespace (cr_Meta obj)) (rp_MountPoint (cr_Spec obj)) (s\<lparr>world := w\<rparr>)"
    and "\<not> IsBeingDeleted obj"
  shows "\<exists>i v. length i = 36 \<and> Reconcile_RPC e req s =
    perform_rpc e (newRPCReconciler e) obj (Sessions s (GetMountPointNamespacedName obj (rp_MountPoint (cr_Spec obj))))
      (MRPC i (rp_XML (cr_Spec obj))) (rp_Timeout (cr_Spec obj)) (s\<lparr>world := v\<rparr>)"
proof -
  obtain u where v: "isValid_RPC e (ORPC obj) (s\<lparr>world := w\<rparr>) = (Ret (True, None), s\<lparr>world := u\<rparr>)"
    by (rule require_MountPoint_ready[OF assms(2)]) (simp add: isValid_RPC_def)
  have g: "k_Get (rc_client (newRPCReconciler e)) req (world s) = (Inr obj, w)"
    using assms(1) by (simp add: newRPCReconciler_def)
  show ?thesis
    unfolding Reconcile_RPC_def by (rule rpc.kind_performs[OF g v assms(3) NewRPC_builds])
qed

text \<open>
  C28: an \<open>RPC\<close> that the device does not answer stops the operator. When the request was written and
  nothing arrives within the timeout, \<open>SyncRPC\<close> returns a timeout error and no reply; in its error
  branch the controller copies the raw text of the missing reply into the status, so the reconciliation
  panics with a nil dereference. No status is written, and the callback of the request stays registered.
\<close>

theorem Reconcile_RPC_silent_panics:
  assumes "k_Get (rpcs e) req (world s) = (Inr obj, w)"
    and "isValid_RPC e (ORPC obj) (s\<lparr>world := w\<rparr>) = (Ret (True, z), s\<lparr>world := u\<rparr>)" and "\<not> IsBeingDeleted obj"
    and "NewRPC e (rp_XML (cr_Spec obj)) (s\<lparr>world := u\<rparr>) = (Ret m, s\<lparr>world := v\<rparr>)"
    and "Sessions s (GetMountPointNamespacedName obj (rp_MountPoint (cr_Spec obj))) = Some i"
    and "heap s i = Some x" "chan_inv s" "tp_ReadWriteCloser (se_Transport x) = Some h" "marshall e m = Inr q"
    and "conn_Write e h (Send_frame (tp_version (se_Transport x)) q) v = (None, v')"
    and "wait_Reads e h (Duration_seconds (rp_Timeout (cr_Spec obj))) v' = ([], v'')"
  shows "Reconcile_RPC e req s =
    (Abort (Panic ''invalid memory address or nil pointer dereference''), rpc_sent i x h m q v'' s)"
proof -
  have "k_Get (rc_client (newRPCReconciler e)) req (world s) = (Inr obj, w)"
    using assms(1) by (simp add: newRPCReconciler_def)
  from rpc.kind_silent[OF this assms(2-)] show ?thesis by (simp add: Reconcile_RPC_def)
qed

text \<open>The example device, gone silent.\<close>

definition silent_env :: "unit env" where
  "silent_env = example_env\<lparr>wait_Reads := \<lambda>_ _ w. ([], w)\<rparr>"

theorem Reconcile_RPC_silent_panics_witness:
  "Reconcile_RPC silent_env example_req example_state = (Abort (Panic ''invalid memory address or nil pointer dereference''),
     rpc_sent 0 example_Session 2 (MRPC example_id ''<a/>'') (xml_Header @ ''<rpc/>'') () example_state)"
proof (rule Reconcile_RPC_silent_panics)
  let ?m = "MRPC example_id ''<a/>''"
  have id: "uuid silent_env s = (Ret example_id, s)" for s
    using uuid_example[of s] by (simp add: uuid_def silent_env_def)
  show "k_Get (rpcs silent_env) example_req (world example_state) = (Inr example_RPC, ())"
    by (simp add: silent_env_def)
  have "mountpoint_ready silent_env ''ns'' ''m'' example_state"
    using example_ready by (simp add: mountpoint_ready_def silent_env_def)
  then obtain u where "isValid_RPC silent_env (ORPC example_RPC) example_state = (Ret (True, None), example_state\<lparr>world := u\<rparr>)"
    by (rule require_MountPoint_ready) (simp add: isValid_RPC_def example_objects)
  then show "isValid_RPC silent_env (ORPC example_RPC) (example_state\<lparr>world := ()\<rparr>) =
      (Ret (True, None), example_state\<lparr>world := ()\<rparr>)" by simp
  show "\<not> IsBeingDeleted example_RPC" by (simp add: example_RPC_def)
  show "NewRPC silent_env (rp_XML (cr_Spec example_RPC)) (example_state\<lparr>world := ()\<rparr>) =
      (Ret ?m, example_state\<lparr>world := ()\<rparr>)"
    by (simp add: NewRPC_def example_objects gbind_def id)
  show "Sessions example_state (GetMountPointNamespacedName example_RPC (rp_MountPoint (cr_Spec example_RPC))) = Some 0"
    by (rule keyed_example) (simp add: example_objects example_names)
  show "heap example_state 0 = Some example_Session" by (simp add: example_state_def)
  show "tp_ReadWriteCloser (se_Transport example_Session) = Some 2" by (simp add: example_Session_def)
  show "chan_inv example_state" by (rule example_chan_inv)
  show "marshall silent_env ?m = Inr (xml_Header @ ''<rpc/>'')" by (simp add: marshall_def silent_env_def)
qed (simp_all add: silent_env_def)

end
