(* ===== verification/Notification_Laws.thy ===== *)
theory Notification_Laws
  imports Reply_Channels
begin

text \<open>
  How long a subscription's callback stays registered, and what a notification does when it arrives:
  no RPC on a session and no message from its device removes a notification callback, and a
  notification is handed to the callback of its subscription, which passes it on to Kafka or to a
  Kubernetes event.
\<close>

section \<open>Callbacks that stay\<close>

fun is_reply_cb :: "callback \<Rightarrow> bool" where
  "is_reply_cb (CbReply _) = True"
| "is_reply_cb _ = False"

definition listens :: "sref \<Rightarrow> string \<Rightarrow> callback \<Rightarrow> 'w ostate \<Rightarrow> bool" where
  "listens i k cb s \<longleftrightarrow> (\<exists>x. heap s i = Some x \<and> callbacks (se_Listener x) k = Some cb)"

text \<open>What an RPC on any session keeps, given which identifiers its request may have.\<close>

locale chan_send = chan_pred +
  fixes fresh :: "string \<Rightarrow> bool"
  assumes cp_sent: "I s \<Longrightarrow> heap s sid = Some x \<Longrightarrow> fresh (GetMessageID oper) \<Longrightarrow> I (rpc_sent sid x h oper req w s)"
    and cp_next: "I s \<Longrightarrow> I (s\<lparr>next_chan := Suc (next_chan s)\<rparr>)"
    and cp_take: "I s \<Longrightarrow> I (s\<lparr>chans := (chans s)(ch := None)\<rparr>)"
    and cp_trace: "I (s\<lparr>trace := tr, world := w\<rparr>) \<longleftrightarrow> I s"
begin

lemma keeps_rpc_wait_cp: "keeps I (rpc_wait e sid h t ch)"
  unfolding rpc_wait_def by (intro quiet_rules keeps_await_reply keeps_modify cp_take)

lemma keeps_SyncRPC_cp:
  assumes "fresh (GetMessageID oper)"
  shows "keeps I (SyncRPC e r oper t)"
proof (rule keepsI)
  fix s assume s: "I s"
  show "I (snd (SyncRPC e r oper t s))"
  proof (cases "marshall e oper")
    case (Inl err)
    with s show ?thesis by (simp add: SyncRPC_def)
  next
    case m: (Inr req)
    show ?thesis
    proof (cases "\<exists>sid x. r = Some sid \<and> heap s sid = Some x")
      case False
      then have "snd (SyncRPC e r oper t s) = s\<lparr>next_chan := Suc (next_chan s)\<rparr>"
        using m by (cases r) (auto simp: SyncRPC_def gthen_def session_at_def gbind_def split: option.splits)
      with s show ?thesis by (simp add: cp_next)
    next
      case True
      then obtain sid x where r: "r = Some sid" and x: "heap s sid = Some x" by blast
      note sent = cp_sent[OF s x assms]
      show ?thesis
      proof (cases "tp_ReadWriteCloser (se_Transport x)")
        case None
        have "rpc_sent sid x 0 oper req (world s) s =
            (snd (SyncRPC e r oper t s))\<lparr>trace := trace s @ [Sent 0 (Send_frame (tp_version (se_Transport x)) req)], world := world s\<rparr>"
          unfolding r SyncRPC_no_pipe[OF m x None] by (simp add: rpc_sent_def)
        with sent[of 0 req "world s"] show ?thesis by (simp add: cp_trace)
      next
        case h: (Some h)
        from x h m show ?thesis
        proof (cases rule: SyncRPC_open[where t = t])
          case (failed er w)
          with sent r show ?thesis by simp
        next
          case (waits w)
          with keepsD[OF keeps_rpc_wait_cp] sent r show ?thesis by simp
        qed
      qed
    qed
  qed
qed

end

lemma listens_fields [simp]:
  "listens i k cb (s\<lparr>world := w\<rparr>) = listens i k cb s"
  "listens i k cb (s\<lparr>trace := tr\<rparr>) = listens i k cb s"
  "listens i k cb (s\<lparr>chans := c\<rparr>) = listens i k cb s"
  "listens i k cb (s\<lparr>next_chan := n\<rparr>) = listens i k cb s"
  "listens i k cb (s\<lparr>Sessions := S\<rparr>) = listens i k cb s"
  by (simp_all add: listens_def)

interpretation lst: chan_send "\<lambda>s. chan_inv s \<and> listens i k cb s \<and> \<not> is_reply_cb cb" "\<lambda>mid. mid \<noteq> k" for i k cb
proof unfold_locales
  fix s :: "'a ostate" and f :: "Session \<Rightarrow> Session" and j
  assume *: "chan_inv s \<and> listens i k cb s \<and> \<not> is_reply_cb cb" "\<And>x. se_Listener (f x) = se_Listener x"
  then show "chan_inv (s\<lparr>heap := (heap s)(j := map_option f (heap s j))\<rparr>) \<and>
     listens i k cb (s\<lparr>heap := (heap s)(j := map_option f (heap s j))\<rparr>) \<and> \<not> is_reply_cb cb"
    using chn.cp_listener[of s f j] by (auto simp: listens_def)
next
  fix s :: "'a ostate" and j x ch and r :: RPCReply
  assume *: "chan_inv s \<and> listens i k cb s \<and> \<not> is_reply_cb cb" "heap s j = Some x"
    "callbacks (se_Listener x) (re_MessageID r) = Some (CbReply ch)"
  have "\<not> (j = i \<and> re_MessageID r = k)" using * by (auto simp: listens_def)
  then show "chan_inv (s\<lparr>chans := (chans s)(ch \<mapsto> r), heap := (heap s)(j \<mapsto> on_Listener (Remove (re_MessageID r)) x)\<rparr>) \<and>
     listens i k cb (s\<lparr>chans := (chans s)(ch \<mapsto> r), heap := (heap s)(j \<mapsto> on_Listener (Remove (re_MessageID r)) x)\<rparr>) \<and>
     \<not> is_reply_cb cb"
    using * chn.cp_reply[OF _ *(2,3)] by (auto simp: listens_def on_Listener_def)
next
  fix s :: "'a ostate" and j x l ch
  assume "chan_inv s \<and> listens i k cb s \<and> \<not> is_reply_cb cb" "heap s j = Some x" "callbacks (se_Listener x) l = Some (CbReply ch)"
  then show "chans s ch = None" using chn.cp_free by blast
next
  fix s :: "'a ostate" and sid x h req w and oper :: RPCMethod
  assume *: "chan_inv s \<and> listens i k cb s \<and> \<not> is_reply_cb cb" "heap s sid = Some x" "GetMessageID oper \<noteq> k"
  then show "chan_inv (rpc_sent sid x h oper req w s) \<and> listens i k cb (rpc_sent sid x h oper req w s) \<and> \<not> is_reply_cb cb"
    using chan_inv_rpc_sent[of s sid x h oper req w] by (auto simp: listens_def rpc_sent_def on_Listener_def)
qed (auto simp: chan_inv_next chan_inv_take)

text \<open>Registering a callback that is not a reply callback keeps the channels.\<close>

lemma chan_inv_register:
  assumes "chan_inv s" "\<not> is_reply_cb cb"
  shows "chan_inv (s\<lparr>heap := (heap s)(i := map_option (on_Listener (Register k cb)) (heap s i))\<rparr>)"
proof (cases "heap s i")
  case None
  then have "(heap s)(i := map_option (on_Listener (Register k cb)) (heap s i)) = heap s" by auto
  with assms(1) show ?thesis by simp
next
  case (Some x)
  have "reply_cb (s\<lparr>heap := (heap s)(i \<mapsto> on_Listener (Register k cb) x)\<rparr>) j l ch \<Longrightarrow> reply_cb s j l ch" for j l ch
    using reply_cb_registered[OF Some, of k cb j l ch] assms(2) by (auto split: if_splits)
  then show ?thesis using assms(1) Some unfolding chan_inv_def by simp blast
qed

lemma chan_inv_remove:
  assumes "chan_inv s"
  shows "chan_inv (s\<lparr>heap := (heap s)(i := map_option (on_Listener (Remove k)) (heap s i))\<rparr>)"
proof (cases "heap s i")
  case None
  then have "(heap s)(i := map_option (on_Listener (Remove k)) (heap s i)) = heap s" by auto
  with assms show ?thesis by simp
next
  case (Some x)
  have "reply_cb (s\<lparr>heap := (heap s)(i \<mapsto> on_Listener (Remove k) x)\<rparr>) j l ch \<Longrightarrow> reply_cb s j l ch" for j l ch
    using reply_cb_removed[OF Some, of k j l ch] by blast
  then show ?thesis using assms Some unfolding chan_inv_def by simp blast
qed

text \<open>A reply that was waited for came over a session that exists, and still does.\<close>

interpretation alv: stable_send "\<lambda>s. heap s i \<noteq> None" for i
  by unfold_locales auto

lemma SyncRPC_reply_session:
  assumes "SyncRPC e (Some i) oper t s = (Ret (Some r, err), u)"
  shows "heap u i \<noteq> None"
proof -
  obtain req where m: "marshall e oper = Inr req"
    using assms by (cases "marshall e oper") (simp_all add: SyncRPC_def)
  have "heap s i \<noteq> None"
    using assms m by (cases "heap s i") (simp_all add: SyncRPC_def gthen_def session_at_def gbind_def)
  from keepsD_eq[OF alv.keeps_SyncRPC this assms] show ?thesis .
qed

section \<open>Delivery\<close>

text \<open>Under which identifier the callback of a notification is looked up.\<close>

definition notification_key :: "Notification \<Rightarrow> string" where
  "notification_key n = (if GetSubscriptionID n = [] then NetconfNotificationStreamHandler else GetSubscriptionID n)"

lemma listen_notification:
  assumes "\<not> Contains raw ''<rpc-reply''" "Contains raw ''<notification''" "NewNotification e raw = Inr n"
  shows "listen_message e i (Inr raw) = Dispatch e i (notification_key n) 1 (NotificationValue n)"
  using assms by (simp add: listen_message_def notification_key_def)

lemma Dispatch_notification:
  assumes "listens i k cb s"
  shows "Dispatch e i k 1 (NotificationValue n) s =
    gthen (run_callback e cb \<lparr>ev_eventID = k, ev_value = NotificationValue n\<rparr>) (ret ()) s"
proof -
  obtain x where "heap s i = Some x" "callbacks (se_Listener x) k = Some cb" using assms by (auto simp: listens_def)
  then show ?thesis unfolding Dispatch_def EventType_is_notification by simp
qed

text \<open>Who a callback delivers for: recorder, namespace, name, sink and the reason of its events.\<close>

fun subscriber :: "callback \<Rightarrow> (string \<times> string \<times> string \<times> KafkaSink \<times> string) option" where
  "subscriber (CbReply _) = None"
| "subscriber (CbCreateSubscription recorder obj) = Some (recorder, om_Namespace (cr_Meta obj), om_Name (cr_Meta obj),
     cs_KafkaSink (cr_Spec obj), ''NewCreateSubscriptionNotification'')"
| "subscriber (CbEstablishSubscription recorder obj) = Some (recorder, om_Namespace (cr_Meta obj), om_Name (cr_Meta obj),
     es_KafkaSink (cr_Spec obj), ''NewEstablishSubscriptionNotification'')"

definition kafka_accepts :: "'w env \<Rightarrow> KafkaSink \<Rightarrow> string \<Rightarrow> 'w \<Rightarrow> bool" where
  "kafka_accepts e sink message w \<longleftrightarrow>
     (case kafka_DialLeader e (ks_TransportType sink) (ks_Broker sink) (ks_Topic sink) (ks_Partition sink) w of
        (Inl _, _) \<Rightarrow> False
      | (Inr c, w1) \<Rightarrow> (case kafka_SetWriteDeadline e c 10000000000 w1 of
          (Some _, _) \<Rightarrow> False
        | (None, w2) \<Rightarrow> fst (kafka_WriteMessages e c message w2) = None))"

lemma SendToKafka_accepted:
  assumes "kafka_accepts e sink m (world s)"
  obtains err w where "SendToKafka e m sink s = (Ret err, s\<lparr>trace := trace s @ [KafkaMessage sink m], world := w\<rparr>)"
proof -
  obtain c w1 where 1: "kafka_DialLeader e (ks_TransportType sink) (ks_Broker sink) (ks_Topic sink) (ks_Partition sink) (world s) = (Inr c, w1)"
    using assms by (auto simp: kafka_accepts_def split: prod.splits sum.splits)
  obtain w2 where 2: "kafka_SetWriteDeadline e c 10000000000 w1 = (None, w2)"
    using assms 1 by (auto simp: kafka_accepts_def split: prod.splits option.splits)
  obtain w3 where 3: "kafka_WriteMessages e c m w2 = (None, w3)"
    using assms 1 2 by (cases "kafka_WriteMessages e c m w2") (auto simp: kafka_accepts_def)
  obtain err w4 where 4: "kafka_Close e c w3 = (err, w4)" by fastforce
  show ?thesis
    by (cases err; rule that[of _ w4]) (simp_all add: SendToKafka_def 1 2 3 4 emit_def gthen_def)
qed

lemma SendToKafka_unreachable:
  assumes "kafka_DialLeader e (ks_TransportType sink) (ks_Broker sink) (ks_Topic sink) (ks_Partition sink) (world s) = (Inl err, w)"
  shows "SendToKafka e m sink s = (Abort (Fatal (''failed to dial leader:'' @ Error err)), s\<lparr>world := w\<rparr>)"
  using assms by (simp add: SendToKafka_def)

lemma run_subscriber:
  assumes "subscriber cb = Some (recorder, ns, name, sink, reason)"
  shows "run_callback e cb \<lparr>ev_eventID = k, ev_value = NotificationValue n\<rparr> =
    (if ks_Enabled sink then gthen (SendToKafka e (no_RawReply n) sink) (ret ())
     else emit (Event recorder ns name ''Normal'' reason (fmt_Sprintf e (no_RawReply n))))"
  using assms by (cases cb) (auto simp: createSubscription_callback_def establishSubscription_callback_def
      event_Notification_def Eventf_def)

section \<open>Properties\<close>

text \<open>
  C32: a notification that arrives for a subscription leaves the operator exactly once: as one
  Kubernetes event on the subscription's resource, or, with a Kafka sink, as one message to the broker
  if the broker takes it; a broker that cannot be dialled ends the whole operator. Nothing else of the
  operator's state changes.
\<close>

theorem notification_delivered:
  assumes "\<not> Contains raw ''<rpc-reply''" "Contains raw ''<notification''" "NewNotification e raw = Inr n"
    and "listens i (notification_key n) cb s" "subscriber cb = Some (recorder, ns, name, sink, reason)"
  shows "(\<not> ks_Enabled sink \<longrightarrow> listen_message e i (Inr raw) s =
      (Ret (), s\<lparr>trace := trace s @ [Event recorder ns name ''Normal'' reason (fmt_Sprintf e raw)]\<rparr>)) \<and>
    (ks_Enabled sink \<and> kafka_accepts e sink raw (world s) \<longrightarrow> (\<exists>w. listen_message e i (Inr raw) s =
      (Ret (), s\<lparr>trace := trace s @ [KafkaMessage sink raw], world := w\<rparr>))) \<and>
    (\<forall>err w. ks_Enabled sink \<and> kafka_DialLeader e (ks_TransportType sink) (ks_Broker sink) (ks_Topic sink)
        (ks_Partition sink) (world s) = (Inl err, w) \<longrightarrow>
      listen_message e i (Inr raw) s = (Abort (Fatal (''failed to dial leader:'' @ Error err)), s\<lparr>world := w\<rparr>))"
proof -
  have raw: "no_RawReply n = raw" using assms(3) by (auto simp: NewNotification_def split: sum.splits)
  have run: "listen_message e i (Inr raw) s = gthen (if ks_Enabled sink then gthen (SendToKafka e raw sink) (ret ())
      else emit (Event recorder ns name ''Normal'' reason (fmt_Sprintf e raw))) (ret ()) s"
    by (simp only: listen_notification[OF assms(1-3)] Dispatch_notification[OF assms(4)] run_subscriber[OF assms(5)] raw)
  have "\<not> ks_Enabled sink \<longrightarrow> listen_message e i (Inr raw) s =
      (Ret (), s\<lparr>trace := trace s @ [Event recorder ns name ''Normal'' reason (fmt_Sprintf e raw)]\<rparr>)"
    by (simp add: run emit_def)
  moreover have "\<exists>w. listen_message e i (Inr raw) s = (Ret (), s\<lparr>trace := trace s @ [KafkaMessage sink raw], world := w\<rparr>)"
    if "ks_Enabled sink" and ok: "kafka_accepts e sink raw (world s)"
  proof -
    obtain err w where "SendToKafka e raw sink s = (Ret err, s\<lparr>trace := trace s @ [KafkaMessage sink raw], world := w\<rparr>)"
      using ok by (rule SendToKafka_accepted)
    then show ?thesis using that(1) by (intro exI[of _ w]) (simp add: run gthen_def gbind_def)
  qed
  moreover have "listen_message e i (Inr raw) s = (Abort (Fatal (''failed to dial leader:'' @ Error err)), s\<lparr>world := w\<rparr>)"
    if "ks_Enabled sink" "kafka_DialLeader e (ks_TransportType sink) (ks_Broker sink) (ks_Topic sink)
        (ks_Partition sink) (world s) = (Inl err, w)" for err w
    using that(1) SendToKafka_unreachable[OF that(2), of raw] by (simp add: run gthen_def gbind_def)
  ultimately show ?thesis by blast
qed

definition example_subscribed :: "unit ostate" where
  "example_subscribed = example_state\<lparr>heap := [0 \<mapsto> on_Listener
     (Register ''7'' (CbEstablishSubscription ''establish-subscription'' example_EstablishSubscription)) example_Session]\<rparr>"

theorem notification_delivered_witness:
  "listen_message example_env 0 (Inr ''<notification/>'') example_subscribed =
     (Ret (), example_subscribed\<lparr>trace := trace example_subscribed @
        [Event ''establish-subscription'' ''ns'' ''m'' ''Normal'' ''NewEstablishSubscriptionNotification''
           (fmt_Sprintf example_env ''<notification/>'')]\<rparr>)"
proof -
  let ?n = "example_notification\<lparr>no_RawReply := ''<notification/>''\<rparr>"
  let ?cb = "CbEstablishSubscription ''establish-subscription'' example_EstablishSubscription"
  have "\<not> Contains ''<notification/>'' ''<rpc-reply''" "Contains ''<notification/>'' ''<notification''"
    by (simp_all add: Contains_def)
  moreover have "NewNotification example_env ''<notification/>'' = Inr ?n" by (simp add: NewNotification_def)
  moreover have "listens 0 (notification_key ?n) ?cb example_subscribed"
    by (simp add: listens_def example_subscribed_def notification_key_def GetSubscriptionID_def
        example_notification_def on_Listener_def)
  moreover have "subscriber ?cb = Some (''establish-subscription'', ''ns'', ''m'', zero_KafkaSink,
      ''NewEstablishSubscriptionNotification'')" by (simp add: example_objects)
  moreover have "\<not> ks_Enabled zero_KafkaSink" by (simp add: zero_KafkaSink_def)
  ultimately show ?thesis using notification_delivered by blast
qed

end
