(* ===== verification/CreateSubscription_Controller.thy ===== *)
theory CreateSubscription_Controller
  imports Reconcile_Frame Notification_Laws
begin

text \<open>
  \<open>controllers/createsubscription\_controller.go\<close>: a \<open>CreateSubscription\<close> resource opens the notification
  stream of its mount point's session; a session has one such stream at most. The reconciler has an
  event recorder of its own, for the notifications.
\<close>

definition isInitialized_CreateSubscription :: "Object \<Rightarrow> bool" where
  "isInitialized_CreateSubscription obj = (case obj of OCreateSubscription _ \<Rightarrow> True | _ \<Rightarrow> False)"

definition isValid_CreateSubscription :: "'w env \<Rightarrow> Object \<Rightarrow> ('w, bool \<times> gerror option) op" where
  "isValid_CreateSubscription e obj = (case obj of
     OCreateSubscription instance \<Rightarrow>
       require_MountPoint e (om_Namespace (cr_Meta instance)) (cs_MountPoint (cr_Spec instance))
   | _ \<Rightarrow> ret (False, Some (GoError (GetName obj @ '' is not an CreateSubscription object''))))"

definition manageOperatorLogic_CreateSubscription ::
    "'w env \<Rightarrow> string \<Rightarrow> CreateSubscription \<Rightarrow> ('w, CreateSubscription \<times> gerror option) op" where
  "manageOperatorLogic_CreateSubscription e recorder obj =
     (let callback = CbCreateSubscription recorder obj in
      gbind (session_of (GetMountPointNamespacedName obj (cs_MountPoint (cr_Spec obj)))) (\<lambda>s.
      gbind (CreateNotificationStream e s (cs_Timeout (cr_Spec obj)) (cs_StopTime (cr_Spec obj))
               (cs_StartTime (cr_Spec obj)) (cs_Stream (cr_Spec obj)) callback) (\<lambda>err. case err of
        Some x \<Rightarrow> ret (set_Status ''failed'' obj, Some x)
      | None \<Rightarrow> ret (set_Status ''subscribed'' obj, None))))"

type_synonym 'w CreateSubscriptionReconciler = "('w, CreateSubscriptionSpec) reconciler \<times> string"

definition newCreateSubscriptionReconciler :: "'w env \<Rightarrow> 'w CreateSubscriptionReconciler" where
  "newCreateSubscriptionReconciler e =
     (\<lparr>rc_client = createsubscriptions e, rc_recorder = createSubscriptionControllerName\<rparr>,
      createSubscriptionControllerName)"

definition Reconcile_CreateSubscription :: "'w env \<Rightarrow> NamespacedName \<Rightarrow> ('w, Result \<times> gerror option) op" where
  "Reconcile_CreateSubscription e req = (case newCreateSubscriptionReconciler e of (r, recorder) \<Rightarrow>
     reconcile_rpc e r zero_CreateSubscription OCreateSubscription (isValid_CreateSubscription e)
       isInitialized_CreateSubscription (manageOperatorLogic_CreateSubscription e recorder) req)"

section \<open>Laws\<close>

interpretation createsub: rpc_controller e "fst (newCreateSubscriptionReconciler e)" zero_CreateSubscription
    OCreateSubscription "isValid_CreateSubscription e" isInitialized_CreateSubscription
    "manageOperatorLogic_CreateSubscription e (snd (newCreateSubscriptionReconciler e))" for e
proof unfold_locales
  fix I :: "'a ostate \<Rightarrow> bool" and obj
  assume I: "stable_send I"
  then have q: "quiet I" unfolding stable_send_def stable_def by blast
  show "keeps I (manageOperatorLogic_CreateSubscription e (snd (newCreateSubscriptionReconciler e)) obj)"
    unfolding manageOperatorLogic_CreateSubscription_def Let_def
    by (intro quiet.quiet_rules[OF q] keeps_session_of stable_send.keeps_CreateNotificationStream[OF I])
next
  fix obj
  show "yields (\<lambda>(obj', err). cr_Meta obj' = cr_Meta obj \<and> cr_Spec obj' = cr_Spec obj)
      (manageOperatorLogic_CreateSubscription e (snd (newCreateSubscriptionReconciler e)) obj)"
    unfolding manageOperatorLogic_CreateSubscription_def Let_def by (intro go_yields) auto
qed (simp_all add: isInitialized_CreateSubscription_def isValid_CreateSubscription_def asks_require_MountPoint
    require_MountPoint_error del: not_None_eq)

lemma stream_key_fresh: "length i = 36 \<Longrightarrow> i \<noteq> NetconfNotificationStreamHandler"
  by (auto simp: NetconfNotificationStreamHandler_def)

text \<open>A stream that was created leaves its callback registered and the session marked.\<close>

lemma CreateNotificationStream_registers:
  assumes s: "chan_inv s" and cb: "\<not> is_reply_cb cb"
    and run: "CreateNotificationStream e (Some i) tm stop start stream cb s = (Ret None, t)"
  shows "chan_inv t \<and> listens i NetconfNotificationStreamHandler cb t \<and>
    (\<exists>y. heap t i = Some y \<and> se_IsNotificationStreamCreated y)"
proof -
  let ?H = NetconfNotificationStreamHandler
  let ?I = "\<lambda>s. chan_inv s \<and> listens i ?H cb s \<and> \<not> is_reply_cb cb"
  obtain x where x: "heap s i = Some x"
    using run by (cases "heap s i") (simp_all add: CreateNotificationStream_def session_at_def gbind_def)
  let ?s1 = "s\<lparr>heap := (heap s)(i := map_option (on_Listener (Register ?H cb)) (heap s i))\<rparr>"
  have "listens i ?H cb ?s1" using x by (simp add: listens_def on_Listener_def)
  then have I1: "?I ?s1" using chan_inv_register[OF s cb] cb by blast
  have nc: "\<not> se_IsNotificationStreamCreated x"
    using run x by (auto simp: CreateNotificationStream_def)
  obtain m w where m: "NewCreateSubscription e stop start stream ?s1 = (Ret m, ?s1\<lparr>world := w\<rparr>)" "length (GetMessageID m) = 36"
    by (rule buildsE[OF NewCreateSubscription_builds, of e stop start stream ?s1]) simp
  obtain rpc err u where rpc: "SyncRPC e (Some i) m tm (?s1\<lparr>world := w\<rparr>) = (Ret (rpc, err), u)"
    and rest: "(case (rpc, err) of
              (None, Some _) \<Rightarrow> nil_deref
            | (None, None) \<Rightarrow> nil_deref
            | (Some r, Some x) \<Rightarrow> ret (Some (GoError (''fail to create notification stream with errors: '' @
                fmt_RPCErrors (re_Errors r) @ ''. Error: '' @ Error x)))
            | (Some r, None) \<Rightarrow>
                if length (re_Errors r) \<noteq> 0 then
                  ret (Some (GoError (''fail to create notification stream with errors: '' @
                    fmt_RPCErrors (re_Errors r) @ ''. Error: %!s(<nil>)'')))
                else gthen (update_session i (\<lambda>y. y\<lparr>se_IsNotificationStreamCreated := True\<rparr>)) (ret None)) u = (Ret None, t)"
    using run x nc m(1)
    by (auto simp: CreateNotificationStream_def gthen_def update_session_def
        gbind_def[where m = "NewCreateSubscription e stop start stream"] elim!: gbind_RetE)
  have Iw: "?I (?s1\<lparr>world := w\<rparr>)" using I1 by simp
  have Iu: "?I u" by (rule keepsD_eq[OF lst.keeps_SyncRPC_cp[OF stream_key_fresh[OF m(2)]] Iw rpc])
  have upd: "update_session i (\<lambda>y. y\<lparr>se_IsNotificationStreamCreated := True\<rparr>) u = (Ret (), t)"
    using rest by (auto simp: gthen_def gbind_def update_session_def split: option.splits if_splits)
  have "?I t" by (rule keepsD_eq[OF lst.keeps_listener_update Iu upd]) simp
  moreover have "\<exists>y. heap t i = Some y \<and> se_IsNotificationStreamCreated y"
    using Iu upd by (auto simp: update_session_def listens_def)
  ultimately show ?thesis by blast
qed

section \<open>Properties\<close>

text \<open>
  A session has at most one notification stream: on a session that has one, a further
  \<open>CreateSubscription\<close> is refused with an error and marked as failed, and nothing is sent, registered or
  changed, so the running subscription keeps its callback.
\<close>

lemma CreateSubscription_at_most_one:
  assumes "Sessions s (GetMountPointNamespacedName obj (cs_MountPoint (cr_Spec obj))) = Some i"
    and "heap s i = Some x" and "se_IsNotificationStreamCreated x"
  shows "manageOperatorLogic_CreateSubscription e recorder obj s = (Ret (set_Status ''failed'' obj,
    Some (GoError (''there is already an active notification stream subscription. '' @
      ''A session can only support one notification stream at the time''))), s)"
  using assms by (simp add: manageOperatorLogic_CreateSubscription_def CreateNotificationStream_def gbind_def)

text \<open>
  A \<open>CreateSubscription\<close> that is reported as subscribed is connected: its callback is registered
  for the session's notification stream, the session is marked as having its one stream, and the
  reply channels are in order, whatever the device sent while the operator waited for the reply.
\<close>

lemma CreateSubscription_connects:
  assumes "chan_inv s" and "Sessions s (GetMountPointNamespacedName obj (cs_MountPoint (cr_Spec obj))) = Some i"
    and "manageOperatorLogic_CreateSubscription e recorder obj s = (Ret (obj', None), t)"
  shows "obj' = set_Status ''subscribed'' obj \<and> chan_inv t \<and>
    listens i NetconfNotificationStreamHandler (CbCreateSubscription recorder obj) t \<and>
    (\<exists>y. heap t i = Some y \<and> se_IsNotificationStreamCreated y)"
proof -
  obtain err where run: "CreateNotificationStream e (Some i) (cs_Timeout (cr_Spec obj)) (cs_StopTime (cr_Spec obj))
      (cs_StartTime (cr_Spec obj)) (cs_Stream (cr_Spec obj)) (CbCreateSubscription recorder obj) s = (Ret err, t)"
    and "err = None" and "obj' = set_Status ''subscribed'' obj"
    using assms(2,3) by (auto simp: manageOperatorLogic_CreateSubscription_def elim!: gbind_RetE split: option.splits)
  with CreateNotificationStream_registers[OF assms(1) _ run[unfolded \<open>err = None\<close>]] show ?thesis by simp
qed

end
