(* ===== verification/Finalizing_Frame.thy ===== *)
theory Finalizing_Frame
  imports Reconcile_Frame
begin

text \<open>
  The \<open>Reconcile\<close> method of the two kinds that hold something outside the cluster, \<open>MountPoint\<close> and
  \<open>EstablishSubscription\<close>: they put a finalizer on their objects and clean up before an object goes.
  The two methods differ in what they do with an invalid object only, which is a parameter here. The
  interface of such a controller is the locale \<open>finalizing_controller\<close>.
\<close>

definition reconcile_finalizing ::
    "'w env \<Rightarrow> ('w, 'spec) reconciler \<Rightarrow> 'spec cr \<Rightarrow> ('spec cr \<Rightarrow> Object) \<Rightarrow> (Object \<Rightarrow> 'spec cr) \<Rightarrow>
     (Object \<Rightarrow> ('w, bool \<times> gerror option) op) \<Rightarrow>
     ('spec cr \<Rightarrow> gerror option \<Rightarrow> ('w, Result \<times> gerror option) op) \<Rightarrow>
     (Object \<Rightarrow> bool \<times> Object) \<Rightarrow> string \<Rightarrow> ('spec cr \<Rightarrow> ('w, gerror option) op) \<Rightarrow>
     ('spec cr \<Rightarrow> ('w, 'spec cr \<times> gerror option) op) \<Rightarrow>
     NamespacedName \<Rightarrow> ('w, Result \<times> gerror option) op" where
  "reconcile_finalizing e r zero wrap unwrap isValid onInvalid isInitialized finalizer manageCleanUpLogic
       manageOperatorLogic req =
     gbind (ext (k_Get (rc_client r) req)) (\<lambda>g. case g of
       Inl err \<Rightarrow>
         if IsNotFound err then ret (zero_Result, None)
         else ManageError e r zero (Some err)
     | Inr instance0 \<Rightarrow>
         gbind (isValid (wrap instance0)) (\<lambda>(ok, err).
           if \<not> ok then onInvalid instance0 err
           else (case isInitialized (wrap instance0) of (ok, obj) \<Rightarrow> let instance = unwrap obj in
             if \<not> ok then
               gbind (ext (k_Update (rc_client r) instance)) (\<lambda>err. case err of
                 Some x \<Rightarrow> ManageError e r instance (Some x)
               | None \<Rightarrow> ret (zero_Result, None))
             else if IsBeingDeleted instance then
               if \<not> HasFinalizer instance finalizer then ret (zero_Result, None)
               else gbind (manageCleanUpLogic instance) (\<lambda>err. case err of
                 Some x \<Rightarrow> ManageError e r instance (Some x)
               | None \<Rightarrow> let instance = RemoveFinalizer instance finalizer in
                   gbind (ext (k_Update (rc_client r) instance)) (\<lambda>err. case err of
                     Some x \<Rightarrow> ManageError e r instance (Some x)
                   | None \<Rightarrow> ret (zero_Result, None)))
             else gbind (manageOperatorLogic instance) (\<lambda>(instance', err).
               if err \<noteq> None then ManageError e r instance' err
               else ManageSuccess e r instance'))))"

lemma keeps_reconcile_finalizing:
  assumes q: "quiet I" and "\<And>obj. asks (isValid (wrap obj))" and "\<And>obj err. keeps I (onInvalid obj err)"
    and "\<And>obj. keeps I (cleanUp obj)" and "\<And>obj. keeps I (logic obj)"
  shows "keeps I (reconcile_finalizing e r zero wrap unwrap isValid onInvalid isInitialized finalizer cleanUp logic req)"
proof -
  have v: "keeps I (isValid (wrap obj))" for obj
    by (rule asks_keeps[OF assms(2)]) (rule quiet.st_world[OF q])
  show ?thesis
    unfolding reconcile_finalizing_def
    by (intro quiet.quiet_rules[OF q] quiet.keeps_Manage[OF q] v assms(3-5))
qed

section \<open>The interface of a controller with a finalizer\<close>

locale finalizing_controller =
  fixes e :: "'w env" and r :: "('w, 'spec) reconciler" and zero :: "'spec cr" and wrap :: "'spec cr \<Rightarrow> Object"
    and unwrap :: "Object \<Rightarrow> 'spec cr" and isValid :: "Object \<Rightarrow> ('w, bool \<times> gerror option) op"
    and onInvalid :: "'spec cr \<Rightarrow> gerror option \<Rightarrow> ('w, Result \<times> gerror option) op"
    and isInitialized :: "Object \<Rightarrow> bool \<times> Object" and finalizer :: string
    and cleanUp :: "'spec cr \<Rightarrow> ('w, gerror option) op"
    and logic :: "'spec cr \<Rightarrow> ('w, 'spec cr \<times> gerror option) op"
  assumes unwrap: "unwrap (wrap obj) = obj"
    and init_done: "HasFinalizer obj finalizer \<Longrightarrow> isInitialized (wrap obj) = (True, wrap obj)"
    and init_adds: "\<not> HasFinalizer obj finalizer \<Longrightarrow> isInitialized (wrap obj) = (False, wrap (AddFinalizer obj finalizer))"
    and valid_asks: "asks (isValid (wrap obj))"
    and valid_error: "yields (\<lambda>(ok, err). ok \<or> err \<noteq> None) (isValid (wrap obj))"
    and invalid_quiet: "quiet I \<Longrightarrow> keeps I (onInvalid obj err)"
begin

abbreviation reconcile :: "NamespacedName \<Rightarrow> ('w, Result \<times> gerror option) op" where
  "reconcile \<equiv> reconcile_finalizing e r zero wrap unwrap isValid onInvalid isInitialized finalizer cleanUp logic"

text \<open>A new object first gets its finalizer, by an update of the object, and nothing else happens.\<close>

lemma fin_initializes:
  assumes "k_Get (rc_client r) req (world s) = (Inr obj, w)"
    and "isValid (wrap obj) (s\<lparr>world := w\<rparr>) = (Ret (True, x), s\<lparr>world := u\<rparr>)"
    and "\<not> HasFinalizer obj finalizer" and "k_Update (rc_client r) (AddFinalizer obj finalizer) u = (None, v)"
  shows "reconcile req s = (Ret (zero_Result, None), s\<lparr>world := v\<rparr>)"
  using assms by (simp add: reconcile_finalizing_def gbind_def[where m = "isValid (wrap obj)"] init_adds unwrap Let_def)

text \<open>With its finalizer in place an object is either acted upon or cleaned up.\<close>

lemma fin_acts:
  assumes "k_Get (rc_client r) req (world s) = (Inr obj, w)"
    and "isValid (wrap obj) (s\<lparr>world := w\<rparr>) = (Ret (True, x), s\<lparr>world := u\<rparr>)"
    and "HasFinalizer obj finalizer" "\<not> IsBeingDeleted obj"
  shows "reconcile req s = gbind (logic obj) (\<lambda>(obj', err).
     if err \<noteq> None then ManageError e r obj' err else ManageSuccess e r obj') (s\<lparr>world := u\<rparr>)"
  using assms by (simp add: reconcile_finalizing_def gbind_def[where m = "isValid (wrap obj)"] init_done unwrap Let_def)

lemma fin_cleans:
  assumes "k_Get (rc_client r) req (world s) = (Inr obj, w)"
    and "isValid (wrap obj) (s\<lparr>world := w\<rparr>) = (Ret (True, x), s\<lparr>world := u\<rparr>)"
    and "HasFinalizer obj finalizer" "IsBeingDeleted obj"
    and "cleanUp obj (s\<lparr>world := u\<rparr>) = (Ret err, t)"
  shows "reconcile req s = (case err of
      Some x \<Rightarrow> ManageError e r obj (Some x) t
    | None \<Rightarrow> (case k_Update (rc_client r) (RemoveFinalizer obj finalizer) (world t) of
        (Some x, v) \<Rightarrow> ManageError e r (RemoveFinalizer obj finalizer) (Some x) (t\<lparr>world := v\<rparr>)
      | (None, v) \<Rightarrow> (Ret (zero_Result, None), t\<lparr>world := v\<rparr>)))"
  using assms by (auto simp: reconcile_finalizing_def gbind_def[where m = "isValid (wrap obj)"]
      gbind_def[where m = "cleanUp obj"] init_done unwrap Let_def split: option.split prod.split)

text \<open>Nothing is sent and nothing else is disturbed unless the finalizer is there.\<close>

lemma fin_guarded:
  assumes q: "quiet I" and "I s" and "\<not> I (snd (reconcile req s))"
  obtains obj w x u where "k_Get (rc_client r) req (world s) = (Inr obj, w)"
    "isValid (wrap obj) (s\<lparr>world := w\<rparr>) = (Ret (True, x), s\<lparr>world := u\<rparr>)" "HasFinalizer obj finalizer"
proof -
  note rules = quiet.quiet_rules[OF q] quiet.keeps_Manage[OF q] invalid_quiet[OF q]
  obtain g w where g: "k_Get (rc_client r) req (world s) = (g, w)" by fastforce
  have Iw: "I (s\<lparr>world := v\<rparr>)" for v using quiet.st_world[OF q assms(2)] .
  obtain obj where obj: "g = Inr obj"
  proof (cases g)
    case (Inl err)
    have "keeps I (if IsNotFound err then ret (zero_Result, None) else ManageError e r zero (Some err))"
      by (intro rules)
    from keepsD[OF this Iw] Inl g assms(3) show ?thesis by (simp add: reconcile_finalizing_def)
  qed
  obtain a v where v: "isValid (wrap obj) (s\<lparr>world := w\<rparr>) = (Ret a, (s\<lparr>world := w\<rparr>)\<lparr>world := v\<rparr>)"
    using valid_asks by (rule asksE)
  obtain ok x where a: "a = (ok, x)" by fastforce
  have ok: ok
  proof (rule ccontr)
    assume "\<not> ok"
    then have "reconcile req s = onInvalid obj x (s\<lparr>world := v\<rparr>)"
      using g obj v a by (simp add: reconcile_finalizing_def gbind_def[where m = "isValid (wrap obj)"])
    with keepsD[OF invalid_quiet[OF q] Iw] assms(3) show False by simp
  qed
  have "HasFinalizer obj finalizer"
  proof (rule ccontr)
    assume n: "\<not> HasFinalizer obj finalizer"
    let ?o = "AddFinalizer obj finalizer"
    let ?m = "gbind (ext (k_Update (rc_client r) ?o)) (\<lambda>err. case err of
        Some x \<Rightarrow> ManageError e r ?o (Some x) | None \<Rightarrow> ret (zero_Result, None))"
    have "reconcile req s = ?m (s\<lparr>world := v\<rparr>)"
      using g obj v a ok n
      by (simp add: reconcile_finalizing_def gbind_def[where m = "isValid (wrap obj)"] init_adds unwrap Let_def)
    moreover have "keeps I ?m" by (intro rules)
    ultimately show False using keepsD[OF \<open>keeps I ?m\<close> Iw] assms(3) by metis
  qed
  then show ?thesis using that g obj v a ok by simp
qed

text \<open>What the cleanup and the operation of the object that is read keep, the reconciliation keeps.\<close>

lemma fin_keeps:
  assumes q: "quiet I" and "I s"
    and ops: "\<And>obj w. k_Get (rc_client r) req (world s) = (Inr obj, w) \<Longrightarrow> keeps I (cleanUp obj) \<and> keeps I (logic obj)"
  shows "I (snd (reconcile req s))"
proof -
  note rules = quiet.quiet_rules[OF q] quiet.keeps_Manage[OF q] invalid_quiet[OF q]
  obtain g w where g: "k_Get (rc_client r) req (world s) = (g, w)" by fastforce
  have Iw: "I (s\<lparr>world := w\<rparr>)" using quiet.st_world[OF q assms(2)] .
  show ?thesis
  proof (cases g)
    case (Inl err)
    have "keeps I (if IsNotFound err then ret (zero_Result, None) else ManageError e r zero (Some err))"
      by (intro rules)
    from keepsD[OF this Iw] Inl g show ?thesis by (simp add: reconcile_finalizing_def)
  next
    case (Inr obj)
    have ops: "keeps I (cleanUp obj)" "keeps I (logic obj)" using ops[of obj w] g Inr by simp_all
    have v: "keeps I (isValid (wrap obj))" by (rule asks_keeps[OF valid_asks]) (rule quiet.st_world[OF q])
    define act where "act ok err = (if \<not> ok then onInvalid obj err
      else (case isInitialized (wrap obj) of (ok, obj) \<Rightarrow> let instance = unwrap obj in
        if \<not> ok then
          gbind (ext (k_Update (rc_client r) instance)) (\<lambda>err. case err of
            Some x \<Rightarrow> ManageError e r instance (Some x)
          | None \<Rightarrow> ret (zero_Result, None))
        else if IsBeingDeleted instance then
          if \<not> HasFinalizer instance finalizer then ret (zero_Result, None)
          else gbind (cleanUp instance) (\<lambda>err. case err of
            Some x \<Rightarrow> ManageError e r instance (Some x)
          | None \<Rightarrow> let instance = RemoveFinalizer instance finalizer in
              gbind (ext (k_Update (rc_client r) instance)) (\<lambda>err. case err of
                Some x \<Rightarrow> ManageError e r instance (Some x)
              | None \<Rightarrow> ret (zero_Result, None)))
        else gbind (logic instance) (\<lambda>(instance', err).
          if err \<noteq> None then ManageError e r instance' err
          else ManageSuccess e r instance')))" for ok err
    have "keeps I (act ok err)" for ok err
      unfolding act_def
      by (cases "HasFinalizer obj finalizer") (simp only: init_done init_adds prod.case unwrap Let_def not_False_eq_True not_True_eq_False if_True if_False, intro rules ops)+
    then have "keeps I (gbind (isValid (wrap obj)) (\<lambda>(ok, err). act ok err))"
      by (intro keeps_gbind[OF v] keeps_prod)
    from keepsD[OF this Iw] g Inr show ?thesis by (simp add: reconcile_finalizing_def act_def)
  qed
qed

end

end
