(* ===== verification/MountPoint_Controller.thy ===== *)
theory MountPoint_Controller
  imports Finalizing_Frame
begin

text \<open>
  \<open>controllers/mountpoint\_controller.go\<close>: a \<open>MountPoint\<close> resource is a NETCONF session. Its operation
  dials the device, exchanges the hellos and enters the session into the table; its cleanup closes
  the session and takes it out again.
\<close>

definition DefaultCapabilities :: "string list" where
  "DefaultCapabilities = [NetconfVersion10, NetconfVersion11]"

text \<open>
  Go's conversion \<open>string(rune(n))\<close>: the UTF-8 encoding of the code point, or of U+FFFD if the 32-bit
  value is no code point. Bytes are characters here.
\<close>

definition rune32 :: "int \<Rightarrow> int" where
  "rune32 n = sint (word_of_int n :: 32 word)"

definition utf8 :: "int \<Rightarrow> nat list" where
  "utf8 c =
     (if c < 0 \<or> c > 0x10FFFF \<or> (0xD800 \<le> c \<and> c \<le> 0xDFFF) then [0xEF, 0xBF, 0xBD]
      else let n = nat c in
        if n < 0x80 then [n]
        else if n < 0x800 then [0xC0 + n div 64, 0x80 + n mod 64]
        else if n < 0x10000 then [0xE0 + n div 4096, 0x80 + n div 64 mod 64, 0x80 + n mod 64]
        else [0xF0 + n div 262144, 0x80 + n div 4096 mod 64, 0x80 + n div 64 mod 64, 0x80 + n mod 64])"

definition string_rune :: "int \<Rightarrow> string" where
  "string_rune n = map char_of (utf8 (rune32 n))"

definition isValid_MountPoint :: "Object \<Rightarrow> ('w, bool \<times> gerror option) op" where
  "isValid_MountPoint obj = (case obj of
     OMountPoint _ \<Rightarrow> ret (True, None)
   | _ \<Rightarrow> ret (False, Some (GoError (GetName obj @ '' is not an MountPoint object''))))"

text \<open>\<open>isInitialized\<close> may add the finalizer to the object it is given; it returns the object too.\<close>

definition isInitialized_MountPoint :: "Object \<Rightarrow> bool \<times> Object" where
  "isInitialized_MountPoint obj = (case obj of
     OMountPoint instance \<Rightarrow>
       if HasFinalizer instance mountpointFinalizer then (True, obj)
       else (False, OMountPoint (AddFinalizer instance mountpointFinalizer))
   | _ \<Rightarrow> (False, obj))"

fun the_MountPoint :: "Object \<Rightarrow> MountPoint" where
  "the_MountPoint (OMountPoint m) = m"
| "the_MountPoint _ = zero_MountPoint"

text \<open>Close the session with an RPC; if that fails, or is answered with errors, kill it.\<close>

definition close_or_kill :: "'w env \<Rightarrow> sref \<Rightarrow> 32 word \<Rightarrow> ('w, unit) op" where
  "close_or_kill e sid timeout =
     gbind (NewCloseSession e) (\<lambda>m.
     gbind (SyncRPC e (Some sid) m timeout) (\<lambda>(rpc, err).
     gbind (if err \<noteq> None then ret True
            else (case rpc of None \<Rightarrow> nil_deref | Some r \<Rightarrow> ret (re_Errors r \<noteq> []))) (\<lambda>failed.
       if failed then
         gbind (session_at (Some sid)) (\<lambda>x.
         gbind (NewKillSession e (string_rune (se_SessionID x))) (\<lambda>k.
         gthen (SyncRPC e (Some sid) k timeout) (ret ())))
       else ret ())))"

definition manageCleanUpLogic_MountPoint :: "'w env \<Rightarrow> MountPoint \<Rightarrow> ('w, gerror option) op" where
  "manageCleanUpLogic_MountPoint e mountPoint =
     gbind (session_of (GetNamespacedName mountPoint)) (\<lambda>s. case s of
       None \<Rightarrow> ret None
     | Some sid \<Rightarrow>
         gthen (close_or_kill e sid (mp_Timeout (cr_Spec mountPoint)))
         (gthen (modify (\<lambda>st. st\<lparr>Sessions := (Sessions st)(GetNamespacedName mountPoint := None)\<rparr>))
         (gthen (update_session sid (on_Listener (Remove NetconfNotificationStreamHandler)))
         (Session_Close e sid))))"

text \<open>
  The two dialling functions are given the user name both as user and as password. Appending to the
  default capabilities does not change them: the slice literal is full, so \<open>append\<close> copies it.
\<close>

definition sshConfig_of :: "MountPoint \<Rightarrow> ClientConfig" where
  "sshConfig_of obj = \<lparr>cc_User = mp_Username (cr_Spec obj), cc_Auth = [mp_Username (cr_Spec obj)],
     cc_InsecureIgnoreHostKey = True\<rparr>"

definition dial_MountPoint :: "'w env \<Rightarrow> MountPoint \<Rightarrow> ('w, sref option \<times> gerror option) op" where
  "dial_MountPoint e obj =
     (if mp_Timeout (cr_Spec obj) = 0 then DialSSH e (mp_Target (cr_Spec obj)) (sshConfig_of obj)
      else DialSSHTimeout e (mp_Target (cr_Spec obj)) (sshConfig_of obj) (Duration_seconds (mp_Timeout (cr_Spec obj))))"

definition manageOperatorLogic_MountPoint :: "'w env \<Rightarrow> MountPoint \<Rightarrow> ('w, MountPoint \<times> gerror option) op" where
  "manageOperatorLogic_MountPoint e obj =
     gbind (dial_MountPoint e obj) (\<lambda>(session, err). case err of
       Some x \<Rightarrow> ret (set_Status ''failed'' obj, Some x)
     | None \<Rightarrow>
         let capabilities = DefaultCapabilities @ mp_AdditionalCapabilities (cr_Spec obj) in
         gbind (SendHello e session \<lparr>he_Capabilities = capabilities, he_SessionID = 0\<rparr>) (\<lambda>err. case err of
           Some x \<Rightarrow> ret (set_Status ''failed'' obj, Some x)
         | None \<Rightarrow>
             gbind (session_at session) (\<lambda>x.
             gthen (modify (\<lambda>s. s\<lparr>Sessions := (Sessions s)(GetNamespacedName obj := session)\<rparr>))
               (ret (set_Capabilities (se_Capabilities x) (set_Status ''connected'' obj), None)))))"

type_synonym 'w MountPointReconciler = "('w, MountPointSpec) reconciler"

definition newMountPointReconciler :: "'w env \<Rightarrow> 'w MountPointReconciler" where
  "newMountPointReconciler e = \<lparr>rc_client = mountpoints e, rc_recorder = mountPointControllerName\<rparr>"

definition Reconcile_MountPoint :: "'w env \<Rightarrow> NamespacedName \<Rightarrow> ('w, Result \<times> gerror option) op" where
  "Reconcile_MountPoint e req = reconcile_finalizing e (newMountPointReconciler e) zero_MountPoint OMountPoint
     the_MountPoint isValid_MountPoint (ManageError e (newMountPointReconciler e)) isInitialized_MountPoint
     mountpointFinalizer (manageCleanUpLogic_MountPoint e) (manageOperatorLogic_MountPoint e) req"

section \<open>Laws\<close>

interpretation mp: finalizing_controller e "newMountPointReconciler e" zero_MountPoint OMountPoint the_MountPoint
    isValid_MountPoint "ManageError e (newMountPointReconciler e)" isInitialized_MountPoint mountpointFinalizer
    "manageCleanUpLogic_MountPoint e" "manageOperatorLogic_MountPoint e" for e
  by unfold_locales (simp_all add: isInitialized_MountPoint_def isValid_MountPoint_def asks_basic yields_ret
      quiet.keeps_Manage)

lemma worldly:
  fixes m :: "('w, 'a) op"
  assumes "\<And>I. (\<And>s w. I s \<Longrightarrow> I (s\<lparr>world := w\<rparr>)) \<Longrightarrow> keeps I m" and "m s = (r, t)"
  obtains w where "t = s\<lparr>world := w\<rparr>"
proof -
  have "keeps (\<lambda>u. \<exists>w. u = s\<lparr>world := w\<rparr>) m" by (rule assms(1)) auto
  from keepsD_eq[OF this same_world assms(2)] that show ?thesis by blast
qed

text \<open>A session that has just been opened.\<close>

definition new_session :: "Session \<Rightarrow> bool" where
  "new_session x \<longleftrightarrow> \<not> se_IsClosed x \<and> se_Listener x = Dispatcher_init \<and> \<not> se_IsNotificationStreamCreated x \<and>
     \<not> se_listening x"

lemma NewSession_allocates:
  assumes "NewSession e t s = (Ret i, u)"
  obtains x w where "i = next_sref s" "u = s\<lparr>next_sref := Suc i, heap := (heap s)(i \<mapsto> x), world := w\<rparr>" "new_session x"
proof -
  let ?x = "\<lambda>h. \<lparr>se_Transport = t, se_SessionID = he_SessionID h,
       se_Capabilities = he_Capabilities h, se_IsClosed = False, se_Listener = Dispatcher_init,
       se_IsNotificationStreamCreated = False, se_listening = False, se_rx_out = [], se_rx_win = []\<rparr>"
  obtain h a v where r: "ReceiveHello e t s = (Ret (h, a), v)" and al: "alloc_session (?x h) v = (Ret i, u)"
    using assms unfolding NewSession_def by (auto elim!: gbind_RetE)
  have k: "keeps I (ReceiveHello e t)" if "\<And>s w. I s \<Longrightarrow> I (s\<lparr>world := w\<rparr>)" for I
    unfolding ReceiveHello_def by (intro go_pres that; assumption)
  obtain w where "v = s\<lparr>world := w\<rparr>" using worldly[OF k r] by blast
  with al show ?thesis
    by (intro that[where w = w and x = "?x h"]) (auto simp: alloc_session_def new_session_def)
qed

lemma DialSSH_opens:
  assumes "DialSSH e target cfg s = (Ret (Some i, err), u)"
  obtains t w where "NewSession e t (s\<lparr>world := w\<rparr>) = (Ret i, u)"
proof -
  obtain p v where d: "TransportSSH_Dial e zero_Transport target cfg s = (Ret p, v)"
    and rest: "(case p of (t, err) \<Rightarrow> case err of
       Some _ \<Rightarrow> gbind (TransportSSH_Close e t) (\<lambda>err'. case err' of
           Some x \<Rightarrow> ret (None, Some x) | None \<Rightarrow> ret (None, None))
     | None \<Rightarrow> gbind (NewSession e t) (\<lambda>i. ret (Some i, None))) v = (Ret (Some i, err), u)"
    using assms unfolding DialSSH_def by (rule gbind_RetE)
  obtain w where "v = s\<lparr>world := w\<rparr>" using worldly[OF keeps_Transport(5) d] by blast
  moreover have "NewSession e (fst p) v = (Ret i, u)"
    using rest by (cases p; cases "snd p") (auto elim!: gbind_RetE split: option.splits)
  ultimately show ?thesis using that by blast
qed

lemma DialSSHTimeout_opens:
  assumes "DialSSHTimeout e target cfg timeout s = (Ret (Some i, err), u)"
  obtains t w where "NewSession e t (s\<lparr>world := w\<rparr>) = (Ret i, u)"
proof -
  obtain r v where d: "ext (net_DialTimeout e ''tcp'' target timeout) s = (Ret r, v)"
    and rest: "(case r of Inl err \<Rightarrow> ret (None, Some err)
     | Inr bareConn \<Rightarrow> gbind (connToTransport e bareConn cfg) (\<lambda>r'. case r' of
           Inl err \<Rightarrow> ret (None, Some err)
         | Inr t \<Rightarrow> if sint timeout < 2 then abort (Panic ''non-positive interval for NewTicker'')
             else gbind (NewSession e t) (\<lambda>i. ret (Some i, None)))) v = (Ret (Some i, err), u)"
    using assms unfolding DialSSHTimeout_def by (rule gbind_RetE)
  obtain w1 where v: "v = s\<lparr>world := w1\<rparr>" using worldly[OF keeps_ext d] by blast
  obtain c where "r = Inr c" using rest by (cases r) auto
  then obtain r' v' where c: "connToTransport e c cfg v = (Ret r', v')"
    and rest': "(case r' of Inl err \<Rightarrow> ret (None, Some err)
         | Inr t \<Rightarrow> if sint timeout < 2 then abort (Panic ''non-positive interval for NewTicker'')
             else gbind (NewSession e t) (\<lambda>i. ret (Some i, None))) v' = (Ret (Some i, err), u)"
    using rest by (auto elim: gbind_RetE)
  obtain w2 where v': "v' = v\<lparr>world := w2\<rparr>" using worldly[OF keeps_Transport(6) c] by blast
  obtain t where "NewSession e t v' = (Ret i, u)"
    using rest' by (cases r') (auto elim!: gbind_RetE split: if_splits)
  then show ?thesis using that v v' by simp
qed

lemma dial_MountPoint_opens:
  assumes "dial_MountPoint e obj s = (Ret (Some i, err), u)"
  obtains x w where "i = next_sref s" "u = s\<lparr>next_sref := Suc i, heap := (heap s)(i \<mapsto> x), world := w\<rparr>" "new_session x"
proof -
  obtain t w where "NewSession e t (s\<lparr>world := w\<rparr>) = (Ret i, u)"
    using assms unfolding dial_MountPoint_def by (auto elim: DialSSH_opens DialSSHTimeout_opens split: if_splits)
  then show ?thesis by (rule NewSession_allocates) (use that in simp)
qed

text \<open>The framing version that the capabilities of the device select.\<close>

definition negotiated :: "string list \<Rightarrow> string" where
  "negotiated caps = (if list_ex (\<lambda>c. Contains c NetconfVersion11) caps then ''v1.1'' else ''v1.0'')"

definition started :: "Session \<Rightarrow> Session" where
  "started x = (SetVersion (negotiated (se_Capabilities x)) x)\<lparr>se_listening := True, se_rx_out := [], se_rx_win := []\<rparr>"

lemma SendHello_starts:
  assumes x: "heap s i = Some x" and run: "SendHello e (Some i) hello s = (Ret err, t)"
    and m: "xml_Marshal_Hello e hello = Inr val"
  obtains h w where "t = s\<lparr>heap := (heap s)(i \<mapsto> started x),
     trace := trace s @ [Sent h (Send_frame (tp_version (se_Transport x)) (xml_Header @ val))], world := w\<rparr>"
proof (cases "tp_ReadWriteCloser (se_Transport x)")
  case None
  then show ?thesis
    using run x m by (simp add: SendHello_def Transport_Send_def gbind_def[where m = nil_deref])
next
  case (Some h)
  obtain er w where "Transport_Send e (se_Transport x) (xml_Header @ val) s =
      (Ret er, s\<lparr>trace := trace s @ [Sent h (Send_frame (tp_version (se_Transport x)) (xml_Header @ val))], world := w\<rparr>)"
    using Some by (rule Transport_Send_returns)
  then have "t = s\<lparr>heap := (heap s)(i \<mapsto> started x),
     trace := trace s @ [Sent h (Send_frame (tp_version (se_Transport x)) (xml_Header @ val))], world := w\<rparr>"
    using run x m unfolding SendHello_def negotiated_def[symmetric]
    by (auto simp: update_session_def started_def gthen_def gbind_def[where m = "Transport_Send e (se_Transport x) (xml_Header @ val)"])
  then show ?thesis by (rule that)
qed

lemma MountPoint_opens:
  assumes "manageOperatorLogic_MountPoint e obj s = (Ret (obj', None), t)"
  shows "\<exists>x tr w. new_session x \<and> is_Sent tr \<and> obj' = set_Capabilities (se_Capabilities x) (set_Status ''connected'' obj) \<and>
    t = s\<lparr>Sessions := (Sessions s)(GetNamespacedName obj \<mapsto> next_sref s), next_sref := Suc (next_sref s),
       heap := (heap s)(next_sref s \<mapsto> started x), trace := trace s @ [tr], world := w\<rparr>"
proof -
  let ?hello = "\<lparr>he_Capabilities = DefaultCapabilities @ mp_AdditionalCapabilities (cr_Spec obj), he_SessionID = 0\<rparr>"
  obtain session u where d: "dial_MountPoint e obj s = (Ret (session, None), u)"
    and rest: "gbind (SendHello e session ?hello) (\<lambda>err. case err of
           Some x \<Rightarrow> ret (set_Status ''failed'' obj, Some x)
         | None \<Rightarrow> gbind (session_at session) (\<lambda>x.
             gthen (modify (\<lambda>s. s\<lparr>Sessions := (Sessions s)(GetNamespacedName obj := session)\<rparr>))
               (ret (set_Capabilities (se_Capabilities x) (set_Status ''connected'' obj), None)))) u = (Ret (obj', None), t)"
    using assms unfolding manageOperatorLogic_MountPoint_def Let_def
    by (auto elim!: gbind_RetE split: option.splits)
  obtain err v where hello': "SendHello e session ?hello u = (Ret err, v)"
    and c: "(case err of Some x \<Rightarrow> ret (set_Status ''failed'' obj, Some x)
         | None \<Rightarrow> gbind (session_at session) (\<lambda>x.
             gthen (modify (\<lambda>s. s\<lparr>Sessions := (Sessions s)(GetNamespacedName obj := session)\<rparr>))
               (ret (set_Capabilities (se_Capabilities x) (set_Status ''connected'' obj), None)))) v = (Ret (obj', None), t)"
    using rest by (rule gbind_RetE)
  have err: "err = None" using c by (cases err) auto
  note hello = hello'[unfolded err]
  have at: "gbind (session_at session) (\<lambda>x.
             gthen (modify (\<lambda>s. s\<lparr>Sessions := (Sessions s)(GetNamespacedName obj := session)\<rparr>))
               (ret (set_Capabilities (se_Capabilities x) (set_Status ''connected'' obj), None))) v = (Ret (obj', None :: gerror option), t)"
    using c err by simp
  obtain i where i: "session = Some i" using at by (cases session) auto
  obtain x w where x: "i = next_sref s" "u = s\<lparr>next_sref := Suc i, heap := (heap s)(i \<mapsto> x), world := w\<rparr>" "new_session x"
    using dial_MountPoint_opens[OF d[unfolded i]] by blast
  obtain val where m: "xml_Marshal_Hello e ?hello = Inr val"
    using hello by (cases "xml_Marshal_Hello e ?hello") (simp_all add: SendHello_def)
  have "heap u i = Some x" using x by simp
  then obtain h w' where v: "v = u\<lparr>heap := (heap u)(i \<mapsto> started x),
     trace := trace u @ [Sent h (Send_frame (tp_version (se_Transport x)) (xml_Header @ val))], world := w'\<rparr>"
    using hello[unfolded i] m by (rule SendHello_starts)
  have hv: "heap v i = Some (started x)" using v by simp
  have "obj' = set_Capabilities (se_Capabilities x) (set_Status ''connected'' obj) \<and>
      t = v\<lparr>Sessions := (Sessions v)(GetNamespacedName obj := Some i)\<rparr>"
    using at hv unfolding i by (auto simp: started_def SetVersion_def)
  with v x show ?thesis by (intro exI[of _ x] exI[of _ "Sent h (Send_frame (tp_version (se_Transport x)) (xml_Header @ val))"] exI[of _ w']) simp
qed

text \<open>When the device is dialled and the hellos are exchanged without error, the operation succeeds.\<close>

lemma MountPoint_succeeds:
  assumes "dial_MountPoint e obj s = (Ret (session, None), u)"
    and "SendHello e session \<lparr>he_Capabilities = DefaultCapabilities @ mp_AdditionalCapabilities (cr_Spec obj), he_SessionID = 0\<rparr> u = (Ret None, v)"
  shows "\<exists>obj' t. manageOperatorLogic_MountPoint e obj s = (Ret (obj', None), t)"
proof -
  let ?hello = "\<lparr>he_Capabilities = DefaultCapabilities @ mp_AdditionalCapabilities (cr_Spec obj), he_SessionID = 0\<rparr>"
  obtain val where m: "xml_Marshal_Hello e ?hello = Inr val"
    using assms(2) by (cases "xml_Marshal_Hello e ?hello") (simp_all add: SendHello_def)
  obtain i where i: "session = Some i" using assms(2) m by (cases session) (simp_all add: SendHello_def)
  obtain x w where x: "u = s\<lparr>next_sref := Suc i, heap := (heap s)(i \<mapsto> x), world := w\<rparr>"
    using dial_MountPoint_opens[OF assms(1)[unfolded i]] by blast
  have "heap u i = Some x" using x by simp
  then obtain h w' where "v = u\<lparr>heap := (heap u)(i \<mapsto> started x),
     trace := trace u @ [Sent h (Send_frame (tp_version (se_Transport x)) (xml_Header @ val))], world := w'\<rparr>"
    using assms(2)[unfolded i] m by (rule SendHello_starts)
  then have "heap v i = Some (started x)" by simp
  then show ?thesis
    using assms(1,2) i by (simp add: manageOperatorLogic_MountPoint_def gbind_def[where m = "dial_MountPoint e obj"]
        gbind_def[where m = "SendHello e (Some i) ?hello"])
qed

section \<open>Cleaning up\<close>

lemma keeps_close_or_kill:
  assumes I: "stable_send I"
  shows "keeps I (close_or_kill e sid t)"
proof -
  have q: "quiet I" using I unfolding stable_send_def stable_def by blast
  show ?thesis
    unfolding close_or_kill_def
    by (intro quiet.quiet_rules[OF q] stable_send.keeps_SyncRPC[OF I] keeps_New quiet.st_world[OF q]; assumption)
qed

lemma cleanup_nothing:
  "Sessions s (GetNamespacedName mp) = None \<Longrightarrow> manageCleanUpLogic_MountPoint e mp s = (Ret None, s)"
  by (simp add: manageCleanUpLogic_MountPoint_def)

lemma Session_Close_closes:
  assumes "Session_Close e i s = (Ret err, t)"
  obtains x w where "heap s i = Some x" "t = s\<lparr>heap := (heap s)(i \<mapsto> x\<lparr>se_IsClosed := True\<rparr>), world := w\<rparr>"
proof -
  obtain x where x: "heap s i = Some x"
    using assms by (cases "heap s i") (simp_all add: Session_Close_def session_at_def gbind_def)
  then have "TransportSSH_Close e (se_Transport x) (s\<lparr>heap := (heap s)(i \<mapsto> x\<lparr>se_IsClosed := True\<rparr>)\<rparr>) = (Ret err, t)"
    using assms by (simp add: Session_Close_def update_session_def)
  from worldly[OF keeps_Transport(3) this]
  obtain w where "t = (s\<lparr>heap := (heap s)(i \<mapsto> x\<lparr>se_IsClosed := True\<rparr>)\<rparr>)\<lparr>world := w\<rparr>" by blast
  with x that show ?thesis by simp
qed

lemma cleanup_closes:
  assumes S: "Sessions s (GetNamespacedName mp) = Some i"
    and run: "manageCleanUpLogic_MountPoint e mp s = (Ret err, t)"
  shows "Sessions t = (Sessions s)(GetNamespacedName mp := None) \<and>
    (\<exists>y. heap t i = Some y \<and> se_IsClosed y \<and> callbacks (se_Listener y) NetconfNotificationStreamHandler = None)"
proof -
  obtain u where c: "close_or_kill e i (mp_Timeout (cr_Spec mp)) s = (Ret (), u)"
    and close: "Session_Close e i (u\<lparr>Sessions := (Sessions u)(GetNamespacedName mp := None),
        heap := (heap u)(i := map_option (on_Listener (Remove NetconfNotificationStreamHandler)) (heap u i))\<rparr>) = (Ret err, t)"
    using run S unfolding manageCleanUpLogic_MountPoint_def session_of_run
    by (auto simp: update_session_def elim: gthen_RetE)
  have "Sessions u = Sessions s"
    using keepsD_eq[OF keeps_close_or_kill[OF tbl.stable_send_axioms] refl c] .
  moreover obtain x w where "heap (u\<lparr>Sessions := (Sessions u)(GetNamespacedName mp := None),
        heap := (heap u)(i := map_option (on_Listener (Remove NetconfNotificationStreamHandler)) (heap u i))\<rparr>) i = Some x"
    "t = u\<lparr>Sessions := (Sessions u)(GetNamespacedName mp := None),
        heap := (heap u)(i \<mapsto> x\<lparr>se_IsClosed := True\<rparr>), world := w\<rparr>"
    using close by (rule Session_Close_closes) simp
  ultimately show ?thesis by (auto simp: on_Listener_def)
qed

section \<open>The example\<close>

lemma example_env_ssh [simp]:
  "ssh_Dial example_env net addr cfg w = (Inr 1, w)" "ssh_NewSession example_env c w = (Inr 2, w)"
  "ssh_StdinPipe example_env ss w = (None, w)" "ssh_StdoutPipe example_env ss w = (None, w)"
  "ssh_RequestSubsystem example_env ss sub w = (None, w)"
  "ssh_Session_Close example_env ss w = (None, w)" "ssh_Client_Close example_env c w = (None, w)"
  "conn_Reads example_env h w = ([ReadData (''<hello/>'' @ msgSeparator)], w)"
  by (simp_all add: example_env_def steady_env_def)

lemma example_hello: "Receive [] [ReadData (''<hello/>'' @ msgSeparator)] = Done (Inr ''<hello/>'')"
  by (simp add: Receive_def rx_separator_def WaitForBytes_step_run msgSeparator_def rx_decode_def)

definition example_finalized :: MountPoint where
  "example_finalized = AddFinalizer example_MountPoint mountpointFinalizer"

text \<open>An API server that holds this one mount point and says so of no other name.\<close>

definition example_env' :: "unit env" where
  "example_env' = example_env\<lparr>mountpoints := (example_client example_finalized)\<lparr>k_Get := (\<lambda>nn w.
     (if nn_Namespace nn = ''ns'' \<and> nn_Name nn = ''m'' then Inr example_finalized else Inl (NotFound ''mountpoint''), w))\<rparr>\<rparr>"

lemma example_env'_fields [simp]:
  "ssh_Dial example_env' net addr cfg w = (Inr 1, w)" "ssh_NewSession example_env' c w = (Inr 2, w)"
  "ssh_StdinPipe example_env' ss w = (None, w)" "ssh_StdoutPipe example_env' ss w = (None, w)"
  "ssh_RequestSubsystem example_env' ss sub w = (None, w)" "conn_Write example_env' h d w = (None, w)"
  "xml_Marshal_Hello example_env' hello = Inr ''<hello/>''"
  "xml_Unmarshal_Hello example_env' txt = (\<lparr>he_Capabilities = [''a''], he_SessionID = 5\<rparr>, None)"
  "conn_Reads example_env' h w = ([ReadData (''<hello/>'' @ msgSeparator)], w)"
  by (simp_all add: example_env'_def)

text \<open>The device of the example is reached by every operator that differs from it in its mount points only.\<close>

lemma steady_fields [simp]:
  "ssh_Dial steady_env net addr cfg w = (Inr 1, w)" "ssh_NewSession steady_env sc w = (Inr 2, w)"
  "ssh_StdinPipe steady_env ss w = (None, w)" "ssh_StdoutPipe steady_env ss w = (None, w)"
  "ssh_RequestSubsystem steady_env ss sub w = (None, w)" "conn_Write steady_env h d w = (None, w)"
  "xml_Marshal_Hello steady_env hello = Inr ''<hello/>''"
  "xml_Unmarshal_Hello steady_env txt = (\<lparr>he_Capabilities = [''a''], he_SessionID = 5\<rparr>, None)"
  "conn_Reads steady_env h w = ([ReadData (''<hello/>'' @ msgSeparator)], w)"
  by (simp_all add: steady_env_def)

lemma steady_ReceiveHello:
  fixes c :: "('w, MountPointSpec) client"
  assumes "tp_ReadWriteCloser t = Some h" "tp_version t = []"
  shows "ReceiveHello (steady_env\<lparr>mountpoints := c\<rparr>) t = ret (\<lparr>he_Capabilities = [''a''], he_SessionID = 5\<rparr>, None)"
proof
  fix s :: "'w ostate"
  have "Transport_Receive (steady_env\<lparr>mountpoints := c\<rparr>) t s = (Ret (Inr ''<hello/>''), s)"
    using assms example_hello by (simp add: Transport_Receive_def)
  then show "ReceiveHello (steady_env\<lparr>mountpoints := c\<rparr>) t s = ret (\<lparr>he_Capabilities = [''a''], he_SessionID = 5\<rparr>, None) s"
    by (simp add: ReceiveHello_def gbind_def)
qed

lemma steady_dial:
  "\<exists>x. dial_MountPoint (steady_env\<lparr>mountpoints := c\<rparr>) example_finalized s = (Ret (Some (next_sref s), None),
     s\<lparr>next_sref := Suc (next_sref s), heap := (heap s)(next_sref s \<mapsto> x)\<rparr>) \<and>
     tp_ReadWriteCloser (se_Transport x) = Some 2 \<and> se_Capabilities x = [''a'']"
proof -
  let ?e = "steady_env\<lparr>mountpoints := c\<rparr>"
  let ?t = "\<lparr>tp_version = [], tp_sshClient = Some 1, tp_sshSession = Some 2, tp_ReadWriteCloser = Some 2\<rparr>"
  have d: "TransportSSH_Dial ?e zero_Transport target cfg s = (Ret (?t, None), s)" for target cfg s
    by (simp add: TransportSSH_Dial_def setupSession_def zero_Transport_def Let_def)
  have z: "mp_Timeout (cr_Spec example_finalized) = 0" by (simp add: example_finalized_def example_objects)
  show ?thesis
    by (rule exI[of _ "\<lparr>se_Transport = ?t, se_SessionID = 5, se_Capabilities = [''a''], se_IsClosed = False,
         se_Listener = Dispatcher_init, se_IsNotificationStreamCreated = False, se_listening = False,
         se_rx_out = [], se_rx_win = []\<rparr>"])
      (simp add: dial_MountPoint_def z DialSSH_def gbind_def[where m = "TransportSSH_Dial ?e zero_Transport target cfg" for target cfg]
        d NewSession_def steady_ReceiveHello alloc_session_def gthen_def gbind_assoc)
qed

lemma steady_hello:
  assumes "heap s i = Some x" "tp_ReadWriteCloser (se_Transport x) = Some 2"
  shows "\<exists>t. SendHello (steady_env\<lparr>mountpoints := c\<rparr>) (Some i) hello s = (Ret None, t)"
  using assms by (simp add: SendHello_def Transport_Send_def emit_def update_session_def gthen_def gbind_def ext_def Let_def)

lemma example_dial:
  "\<exists>x. dial_MountPoint example_env' example_finalized s = (Ret (Some (next_sref s), None),
     s\<lparr>next_sref := Suc (next_sref s), heap := (heap s)(next_sref s \<mapsto> x)\<rparr>) \<and>
     tp_ReadWriteCloser (se_Transport x) = Some 2 \<and> se_Capabilities x = [''a'']"
  unfolding example_env'_def example_env_def by (rule steady_dial)

lemma example_MountPoint_runs:
  "\<exists>t. manageOperatorLogic_MountPoint example_env' example_finalized s =
     (Ret (set_Capabilities [''a''] (set_Status ''connected'' example_finalized), None), t)"
proof -
  obtain x where d: "dial_MountPoint example_env' example_finalized s = (Ret (Some (next_sref s), None),
     s\<lparr>next_sref := Suc (next_sref s), heap := (heap s)(next_sref s \<mapsto> x)\<rparr>)"
    and x: "tp_ReadWriteCloser (se_Transport x) = Some 2" "se_Capabilities x = [''a'']"
    using example_dial by blast
  show ?thesis
    unfolding manageOperatorLogic_MountPoint_def gbind_def[where m = "dial_MountPoint example_env' example_finalized"] d
    using x by (simp add: SendHello_def Transport_Send_def emit_def update_session_def gthen_def gbind_def ext_def Let_def SetVersion_def)
qed

lemma example_cleanup_runs:
  "\<exists>t. manageCleanUpLogic_MountPoint example_env example_MountPoint example_state = (Ret None, t)"
proof -
  have key: "Sessions example_state (GetNamespacedName example_MountPoint) = Some 0"
    by (rule keyed_example) (simp add: example_objects example_names)
  have m: "NewCloseSession example_env s = (Ret (MCloseSession example_id []), s)" for s
    by (simp add: NewCloseSession_def gbind_def)
  have h: "heap example_state 0 = Some example_Session" "example_idle example_Session" "chans example_state = Map.empty"
    by (simp_all add: example_state_def example_idle_def example_Session_def)
  have T: "tp_sshSession (se_Transport example_Session) = Some 2" "tp_sshClient (se_Transport example_Session) = Some 1"
    by (simp_all add: example_Session_def)
  show ?thesis
    using example_answers[OF h(1,2), of "MCloseSession example_id []" 0] h(3) key
    by (simp add: manageCleanUpLogic_MountPoint_def close_or_kill_def gbind_def m gthen_def example_objects
        example_answer_def example_reply_def update_session_def Session_Close_def session_at_def TransportSSH_Close_def
        on_Listener_def T ext_def)
qed

lemma example_MountPoint_reconciles:
  "\<exists>res t. Reconcile_MountPoint example_env' example_req s = (Ret res, t) \<and> sends t \<noteq> sends s \<and>
     Sessions t ''ns/m'' = Some (next_sref s)"
proof -
  let ?r = "newMountPointReconciler example_env'"
  let ?obj = "set_Capabilities [''a''] (set_Status ''connected'' example_finalized)"
  obtain t where run: "manageOperatorLogic_MountPoint example_env' example_finalized s = (Ret (?obj, None), t)"
    using example_MountPoint_runs by blast
  have g: "k_Get (rc_client ?r) example_req (world s) = (Inr example_finalized, ())"
    by (simp add: newMountPointReconciler_def example_env'_def example_req_def)
  have v: "isValid_MountPoint (OMountPoint example_finalized) (s\<lparr>world := ()\<rparr>) = (Ret (True, None), s\<lparr>world := ()\<rparr>)"
    by (simp add: isValid_MountPoint_def)
  have f: "HasFinalizer example_finalized mountpointFinalizer" "\<not> IsBeingDeleted example_finalized"
    by (simp_all add: example_finalized_def IsBeingDeleted_def HasFinalizer_def AddFinalizer_def Let_def example_objects)
  have "Reconcile_MountPoint example_env' example_req s = ManageSuccess example_env' ?r ?obj t"
    using mp.fin_acts[OF g v f] run by (simp add: Reconcile_MountPoint_def gbind_def)
  moreover obtain res err w where "ManageSuccess example_env' ?r ?obj t = (Ret (res, err), t\<lparr>world := w\<rparr>)"
    by (rule ManageSuccess_returns)
  moreover have "sends t \<noteq> sends s" "Sessions t ''ns/m'' = Some (next_sref s)"
    using MountPoint_opens[OF run]
    by (auto simp: sends_def example_finalized_def AddFinalizer_def Let_def example_objects example_names)
  ultimately show ?thesis by simp
qed

section \<open>Properties\<close>

text \<open>
  C16: a \<open>MountPoint\<close> whose operation returns without error is connected: a new session object is in the
  table under the resource's own key, it is open and listening, it uses the framing that the device's
  capabilities call for, and the status says \<open>connected\<close> with those capabilities, although the comment
  on the field \<open>Status\<close> of \<open>RPCStatus\<close> lists only success and failed. All other session objects, also
  one that this key had before, stay as they were: a session that is replaced is not closed.
\<close>

theorem MountPoint_connects:
  assumes "manageOperatorLogic_MountPoint e obj s = (Ret (obj', None), t)"
  shows "Sessions t = (Sessions s)(GetNamespacedName obj \<mapsto> next_sref s) \<and>
    (\<exists>y. heap t = (heap s)(next_sref s \<mapsto> y) \<and> se_listening y \<and> \<not> se_IsClosed y \<and>
       tp_version (se_Transport y) = negotiated (se_Capabilities y) \<and>
       obj' = set_Capabilities (se_Capabilities y) (set_Status ''connected'' obj))"
proof -
  obtain x tr w where x: "new_session x" "obj' = set_Capabilities (se_Capabilities x) (set_Status ''connected'' obj)"
    and t: "t = s\<lparr>Sessions := (Sessions s)(GetNamespacedName obj \<mapsto> next_sref s), next_sref := Suc (next_sref s),
       heap := (heap s)(next_sref s \<mapsto> started x), trace := trace s @ [tr], world := w\<rparr>"
    using MountPoint_opens[OF assms] by blast
  have "se_Capabilities (started x) = se_Capabilities x \<and> se_listening (started x) \<and> \<not> se_IsClosed (started x) \<and>
      tp_version (se_Transport (started x)) = negotiated (se_Capabilities (started x))"
    using x(1) by (simp add: started_def SetVersion_def new_session_def)
  with x(2) t show ?thesis by auto
qed

theorem MountPoint_connects_witness:
  "\<exists>t y. manageOperatorLogic_MountPoint example_env' example_finalized example_state =
     (Ret (set_Capabilities [''a''] (set_Status ''connected'' example_finalized), None), t) \<and>
    Sessions t = (Sessions example_state)(GetNamespacedName example_finalized \<mapsto> next_sref example_state) \<and>
    heap t = (heap example_state)(next_sref example_state \<mapsto> y) \<and> se_listening y \<and> \<not> se_IsClosed y"
proof -
  obtain t where run: "manageOperatorLogic_MountPoint example_env' example_finalized example_state =
     (Ret (set_Capabilities [''a''] (set_Status ''connected'' example_finalized), None), t)"
    using example_MountPoint_runs by blast
  from MountPoint_connects[OF run] run show ?thesis by blast
qed

text \<open>
  C17: cleaning up a \<open>MountPoint\<close> whose session is in the table takes exactly this entry out of the table, marks the session
  as closed, so that its listener ends, and removes the handler of its notification stream, whether
  the device answered the request to close, refused it or did not answer.
\<close>

theorem MountPoint_cleanup_closes:
  assumes "Sessions s (GetNamespacedName mp) = Some i" and "manageCleanUpLogic_MountPoint e mp s = (Ret err, t)"
  shows "Sessions t = (Sessions s)(GetNamespacedName mp := None) \<and>
    (\<exists>y. heap t i = Some y \<and> se_IsClosed y \<and> callbacks (se_Listener y) NetconfNotificationStreamHandler = None)"
  using assms by (rule cleanup_closes)

theorem MountPoint_cleanup_closes_witness:
  "\<exists>t. manageCleanUpLogic_MountPoint example_env example_MountPoint example_state = (Ret None, t) \<and>
    Sessions t = (Sessions example_state)(GetNamespacedName example_MountPoint := None) \<and>
    (\<exists>y. heap t 0 = Some y \<and> se_IsClosed y \<and> callbacks (se_Listener y) NetconfNotificationStreamHandler = None)"
proof -
  obtain t where run: "manageCleanUpLogic_MountPoint example_env example_MountPoint example_state = (Ret None, t)"
    using example_cleanup_runs by blast
  have "Sessions example_state (GetNamespacedName example_MountPoint) = Some 0"
    by (rule keyed_example) (simp add: example_objects example_names)
  from MountPoint_cleanup_closes[OF this run] run show ?thesis by blast
qed

text \<open>
  C18: nothing happens to the outside before the finalizer is in place: if a reconciliation of a
  \<open>MountPoint\<close> writes to a device or changes the session table, then the object it read already had the
  finalizer, so its deletion will come back to the operator.
\<close>

theorem Reconcile_MountPoint_guarded:
  assumes "sends (snd (Reconcile_MountPoint e req s)) \<noteq> sends s \<or> Sessions (snd (Reconcile_MountPoint e req s)) \<noteq> Sessions s"
  shows "\<exists>obj w. k_Get (mountpoints e) req (world s) = (Inr obj, w) \<and> HasFinalizer obj mountpointFinalizer"
proof -
  let ?I = "\<lambda>u. sends u = sends s \<and> Sessions u = Sessions s"
  have q: "quiet ?I" by unfold_locales (simp_all add: sends_def)
  have "\<not> ?I (snd (Reconcile_MountPoint e req s))" using assms by blast
  then obtain obj w where "k_Get (rc_client (newMountPointReconciler e)) req (world s) = (Inr obj, w)"
    "HasFinalizer obj mountpointFinalizer"
    using mp.fin_guarded[OF q, of s e req] unfolding Reconcile_MountPoint_def by blast
  then show ?thesis by (auto simp: newMountPointReconciler_def)
qed

theorem Reconcile_MountPoint_guarded_witness:
  "\<exists>obj w. k_Get (mountpoints example_env') example_req (world example_state) = (Inr obj, w) \<and> HasFinalizer obj mountpointFinalizer"
proof (rule Reconcile_MountPoint_guarded)
  obtain res t where "Reconcile_MountPoint example_env' example_req example_state = (Ret res, t)" "sends t \<noteq> sends example_state"
    using example_MountPoint_reconciles[of example_state] by blast
  then show "sends (snd (Reconcile_MountPoint example_env' example_req example_state)) \<noteq> sends example_state \<or>
    Sessions (snd (Reconcile_MountPoint example_env' example_req example_state)) \<noteq> Sessions example_state" by simp
qed

text \<open>
  C20: deleting a \<open>MountPoint\<close> completes: once its session has been taken out of the table, which the
  first cleanup does even if closing the connection fails, reconciling the object that is being
  deleted only asks the API server to drop the finalizer and succeeds when that update does.
\<close>

theorem Reconcile_MountPoint_deletes:
  assumes "k_Get (mountpoints e) req (world s) = (Inr obj, w)"
    and "HasFinalizer obj mountpointFinalizer" "IsBeingDeleted obj"
    and "Sessions s (GetNamespacedName obj) = None"
    and "k_Update (mountpoints e) (RemoveFinalizer obj mountpointFinalizer) w = (None, v)"
  shows "Reconcile_MountPoint e req s = (Ret (zero_Result, None), s\<lparr>world := v\<rparr>) \<and>
    \<not> HasFinalizer (RemoveFinalizer obj mountpointFinalizer) mountpointFinalizer"
proof -
  have g: "k_Get (rc_client (newMountPointReconciler e)) req (world s) = (Inr obj, w)"
    using assms(1) by (simp add: newMountPointReconciler_def)
  have v: "isValid_MountPoint (OMountPoint obj) (s\<lparr>world := w\<rparr>) = (Ret (True, None), s\<lparr>world := w\<rparr>)"
    by (simp add: isValid_MountPoint_def)
  have c: "manageCleanUpLogic_MountPoint e obj (s\<lparr>world := w\<rparr>) = (Ret None, s\<lparr>world := w\<rparr>)"
    using assms(4) by (simp add: cleanup_nothing)
  show ?thesis
    using mp.fin_cleans[OF g v assms(2,3) c] assms(5)
    by (simp add: Reconcile_MountPoint_def newMountPointReconciler_def)
qed

theorem Reconcile_MountPoint_deletes_witness:
  "Reconcile_MountPoint (example_env'\<lparr>mountpoints := example_client (example_finalized\<lparr>cr_Meta := (cr_Meta example_finalized)\<lparr>om_DeletionTimestamp := Some 1\<rparr>\<rparr>)\<rparr>)
      example_req (example_state\<lparr>Sessions := Map.empty\<rparr>) =
    (Ret (zero_Result, None), example_state\<lparr>Sessions := Map.empty, world := ()\<rparr>) \<and>
   \<not> HasFinalizer (RemoveFinalizer (example_finalized\<lparr>cr_Meta := (cr_Meta example_finalized)\<lparr>om_DeletionTimestamp := Some 1\<rparr>\<rparr>)
      mountpointFinalizer) mountpointFinalizer"
  by (rule Reconcile_MountPoint_deletes[where w = "()"])
    (simp_all add: example_client_def HasFinalizer_def IsBeingDeleted_def example_finalized_def AddFinalizer_def Let_def)

text \<open>
  C19: a new \<open>MountPoint\<close> is taken up in two reconciliations. The first one only writes the object back
  with the finalizer and asks for no retry; it need not, because the predicate of the controller's watch
  lets the update event of that write through. The second one, which reads the object with the finalizer
  and not being deleted, opens the session: if the device can be dialled and the hello can be sent, it
  returns, and in the end the session table has, under the key of the mount point, a new session object
  that is open and listening and uses the framing that the device's capabilities call for.
\<close>

theorem Reconcile_MountPoint_initializes:
  assumes "k_Get (mountpoints e) req (world s) = (Inr obj, w)" and "\<not> HasFinalizer obj mountpointFinalizer"
    and "k_Update (mountpoints e) (AddFinalizer obj mountpointFinalizer) w = (None, v)"
    and "k_Get (mountpoints e) req (world t) = (Inr (AddFinalizer obj mountpointFinalizer), u)" and "\<not> IsBeingDeleted obj"
    and "dial_MountPoint e (AddFinalizer obj mountpointFinalizer) (t\<lparr>world := u\<rparr>) = (Ret (session, None), t1)"
    and "SendHello e session \<lparr>he_Capabilities = DefaultCapabilities @ mp_AdditionalCapabilities (cr_Spec obj), he_SessionID = 0\<rparr> t1 =
      (Ret None, t2)"
  shows "Reconcile_MountPoint e req s = (Ret (zero_Result, None), s\<lparr>world := v\<rparr>) \<and>
    ResourceChanged_Update (Some obj) (Some (AddFinalizer obj mountpointFinalizer)) \<and>
    (\<exists>res t' y. Reconcile_MountPoint e req t = (Ret res, t') \<and>
       Sessions t' = (Sessions t)(GetNamespacedName obj \<mapsto> next_sref t) \<and> heap t' = (heap t)(next_sref t \<mapsto> y) \<and>
       se_listening y \<and> \<not> se_IsClosed y \<and> tp_version (se_Transport y) = negotiated (se_Capabilities y))"
proof (intro conjI)
  let ?obj = "AddFinalizer obj mountpointFinalizer" and ?r = "newMountPointReconciler e"
  have v: "isValid_MountPoint (OMountPoint x) a = (Ret (True, None), a\<lparr>world := world a\<rparr>)" for x and a :: "'a ostate"
    by (simp add: isValid_MountPoint_def)
  have g: "k_Get (rc_client ?r) req (world s) = (Inr obj, w)" "k_Get (rc_client ?r) req (world t) = (Inr ?obj, u)"
    "k_Update (rc_client ?r) ?obj w = (None, v)"
    using assms(1,3,4) by (simp_all add: newMountPointReconciler_def)
  show "Reconcile_MountPoint e req s = (Ret (zero_Result, None), s\<lparr>world := v\<rparr>)"
    using mp.fin_initializes[OF g(1) _ assms(2) g(3)] v[of obj "s\<lparr>world := w\<rparr>"] by (simp add: Reconcile_MountPoint_def)
  show "ResourceChanged_Update (Some obj) (Some ?obj)"
    using assms(2) by (simp add: ResourceChanged_Update_def HasFinalizer_def AddFinalizer_def Let_def)
  have "HasFinalizer ?obj mountpointFinalizer" "\<not> IsBeingDeleted ?obj"
    using assms(5) by (simp_all add: HasFinalizer_def IsBeingDeleted_def AddFinalizer_def Let_def)
  then have run: "Reconcile_MountPoint e req t = gbind (manageOperatorLogic_MountPoint e ?obj) (\<lambda>(obj', err).
        if err \<noteq> None then ManageError e ?r obj' err else ManageSuccess e ?r obj') (t\<lparr>world := u\<rparr>)"
    using mp.fin_acts[OF g(2), of None u] v[of ?obj "t\<lparr>world := u\<rparr>"] by (simp add: Reconcile_MountPoint_def)
  have same: "cr_Spec ?obj = cr_Spec obj" "GetNamespacedName ?obj = GetNamespacedName obj"
    by (simp_all add: AddFinalizer_def Let_def GetNamespacedName_def)
  obtain obj' t3 where op: "manageOperatorLogic_MountPoint e ?obj (t\<lparr>world := u\<rparr>) = (Ret (obj', None), t3)"
    using MountPoint_succeeds[OF assms(6)] assms(7) unfolding same(1) by blast
  obtain res err w' where "ManageSuccess e ?r obj' t3 = (Ret (res, err), t3\<lparr>world := w'\<rparr>)" by (rule ManageSuccess_returns)
  then have "Reconcile_MountPoint e req t = (Ret (res, err), t3\<lparr>world := w'\<rparr>)"
    unfolding run using op by (simp add: gbind_def)
  moreover obtain x tr w'' where "new_session x" "t3 = (t\<lparr>world := u\<rparr>)\<lparr>Sessions := (Sessions t)(GetNamespacedName obj \<mapsto> next_sref t),
      next_sref := Suc (next_sref t), heap := (heap t)(next_sref t \<mapsto> started x), trace := trace t @ [tr], world := w''\<rparr>"
    using MountPoint_opens[OF op] unfolding same(2) by auto
  moreover from this have "se_listening (started x)" "\<not> se_IsClosed (started x)"
      "tp_version (se_Transport (started x)) = negotiated (se_Capabilities (started x))"
    by (simp_all add: started_def SetVersion_def new_session_def)
  ultimately show "\<exists>res t' y. Reconcile_MountPoint e req t = (Ret res, t') \<and>
       Sessions t' = (Sessions t)(GetNamespacedName obj \<mapsto> next_sref t) \<and> heap t' = (heap t)(next_sref t \<mapsto> y) \<and>
       se_listening y \<and> \<not> se_IsClosed y \<and> tp_version (se_Transport y) = negotiated (se_Capabilities y)"
    by (intro exI[of _ "(res, err)"] exI[of _ "t3\<lparr>world := w'\<rparr>"] exI[of _ "started x"]) simp
qed

text \<open>An API server that remembers that the mount point was updated.\<close>

definition updating_env :: "bool env" where
  "updating_env = steady_env\<lparr>mountpoints := \<lparr>k_Get = (\<lambda>_ w. (Inr (if w then example_finalized else example_MountPoint), w)),
     k_Update = (\<lambda>_ w. (None, True)), k_StatusUpdate = (\<lambda>_ w. (None, w))\<rparr>\<rparr>"

definition updating_state :: "bool \<Rightarrow> bool ostate" where
  "updating_state w = \<lparr>Sessions = Map.empty, heap = Map.empty, next_sref = 0, chans = Map.empty, next_chan = 0,
     trace = [], world = w\<rparr>"

theorem Reconcile_MountPoint_initializes_witness:
  "Reconcile_MountPoint updating_env example_req (updating_state False) = (Ret (zero_Result, None), updating_state True) \<and>
   ResourceChanged_Update (Some example_MountPoint) (Some example_finalized) \<and>
   (\<exists>res t y. Reconcile_MountPoint updating_env example_req (updating_state True) = (Ret res, t) \<and>
      Sessions t = [GetNamespacedName example_MountPoint \<mapsto> 0] \<and> heap t = [0 \<mapsto> y] \<and>
      se_listening y \<and> \<not> se_IsClosed y \<and> tp_version (se_Transport y) = negotiated (se_Capabilities y))"
proof -
  have k: "k_Get (mountpoints updating_env) example_req (world (updating_state w)) =
      (Inr (if w then AddFinalizer example_MountPoint mountpointFinalizer else example_MountPoint), w)"
    "k_Update (mountpoints updating_env) x w = (None, True)" for w x
    by (simp_all add: updating_env_def updating_state_def example_finalized_def)
  have o: "\<not> HasFinalizer example_MountPoint mountpointFinalizer" "\<not> IsBeingDeleted example_MountPoint"
    by (simp_all add: HasFinalizer_def IsBeingDeleted_def example_objects)
  have u: "(updating_state w)\<lparr>world := True\<rparr> = updating_state True" for w by (simp add: updating_state_def)
  have f: "Sessions (updating_state w) = Map.empty" "heap (updating_state w) = Map.empty" "next_sref (updating_state w) = 0" for w
    by (simp_all add: updating_state_def)
  obtain x where d: "dial_MountPoint updating_env example_finalized (updating_state True) = (Ret (Some 0, None),
      (updating_state True)\<lparr>next_sref := Suc 0, heap := [0 \<mapsto> x]\<rparr>)" and x: "tp_ReadWriteCloser (se_Transport x) = Some 2"
    using steady_dial[of _ "updating_state True"] unfolding updating_env_def f by blast
  have d': "dial_MountPoint updating_env (AddFinalizer example_MountPoint mountpointFinalizer) ((updating_state True)\<lparr>world := True\<rparr>) =
      (Ret (Some 0, None), (updating_state True)\<lparr>next_sref := Suc 0, heap := [0 \<mapsto> x]\<rparr>)"
    using d unfolding u example_finalized_def .
  obtain t2 where h: "SendHello updating_env (Some 0) \<lparr>he_Capabilities = DefaultCapabilities @ mp_AdditionalCapabilities (cr_Spec example_MountPoint),
      he_SessionID = 0\<rparr> ((updating_state True)\<lparr>next_sref := Suc 0, heap := [0 \<mapsto> x]\<rparr>) = (Ret None, t2)"
    using steady_hello[of "(updating_state True)\<lparr>next_sref := Suc 0, heap := [0 \<mapsto> x]\<rparr>" 0 x] x unfolding updating_env_def by auto
  from Reconcile_MountPoint_initializes[OF k(1)[of False, simplified] o(1) k(2) k(1)[of True, simplified] o(2)
      d' h]
  show ?thesis unfolding u f example_finalized_def .
qed

text \<open>
  C40: what becomes of a device that cannot be connected, when the resource asks for no timeout. If no SSH
  connection can be made, the operation fails, but the error of the dial is replaced by \<open>no connection to
  close\<close>. If the connection is made and the NETCONF session on it is refused, \<open>DialSSH\<close> closes the
  connection and returns neither a session nor an error, and the operation ends the operator with a nil
  dereference.
\<close>

theorem MountPoint_dial_failures:
  assumes "mp_Timeout (cr_Spec obj) = 0"
    and "TransportSSH_Dial e zero_Transport (mp_Target (cr_Spec obj)) (sshConfig_of obj) s = (Ret (t, Some er), s')"
  shows "(ssh_Dial e ''tcp'' (default_port (mp_Target (cr_Spec obj))) (sshConfig_of obj) (world s) = (Inl er, w) \<longrightarrow>
      manageOperatorLogic_MountPoint e obj s =
        (Ret (set_Status ''failed'' obj, Some (GoError ''no connection to close'')), s\<lparr>world := w\<rparr>)) \<and>
    (TransportSSH_Close e t s' = (Ret None, u) \<and>
     xml_Marshal_Hello e \<lparr>he_Capabilities = DefaultCapabilities @ mp_AdditionalCapabilities (cr_Spec obj), he_SessionID = 0\<rparr> = Inr x \<longrightarrow>
      manageOperatorLogic_MountPoint e obj s = (Abort (Panic ''invalid memory address or nil pointer dereference''), u))"
proof (intro conjI impI)
  have dial: "dial_MountPoint e obj s = gbind (TransportSSH_Close e t) (\<lambda>err'. case err' of
           Some x \<Rightarrow> ret (None, Some x) | None \<Rightarrow> ret (None, None)) s'"
    using assms by (simp add: dial_MountPoint_def DialSSH_def gbind_def[where m = "TransportSSH_Dial e zero_Transport a b" for a b])
  {
    assume "ssh_Dial e ''tcp'' (default_port (mp_Target (cr_Spec obj))) (sshConfig_of obj) (world s) = (Inl er, w)"
    then have "t = zero_Transport\<lparr>tp_sshClient := None\<rparr>" "s' = s\<lparr>world := w\<rparr>"
      using assms(2) by (simp_all add: TransportSSH_Dial_def)
    then have c: "TransportSSH_Close e t s' = (Ret (Some (GoError ''no connection to close'')), s\<lparr>world := w\<rparr>)"
      by (simp add: TransportSSH_Close_def zero_Transport_def)
    have "dial_MountPoint e obj s = (Ret (None, Some (GoError ''no connection to close'')), s\<lparr>world := w\<rparr>)"
      using dial c by (simp add: gbind_def[where m = "TransportSSH_Close e t"])
    then show "manageOperatorLogic_MountPoint e obj s =
        (Ret (set_Status ''failed'' obj, Some (GoError ''no connection to close'')), s\<lparr>world := w\<rparr>)"
      by (simp add: manageOperatorLogic_MountPoint_def gbind_def[where m = "dial_MountPoint e obj"])
  }
  assume "TransportSSH_Close e t s' = (Ret None, u) \<and>
     xml_Marshal_Hello e \<lparr>he_Capabilities = DefaultCapabilities @ mp_AdditionalCapabilities (cr_Spec obj), he_SessionID = 0\<rparr> = Inr x"
  then show "manageOperatorLogic_MountPoint e obj s = (Abort (Panic ''invalid memory address or nil pointer dereference''), u)"
    using dial by (simp add: manageOperatorLogic_MountPoint_def SendHello_def gbind_def[where m = "dial_MountPoint e obj"]
        gbind_def[where m = "TransportSSH_Close e t"])
qed

text \<open>A device that accepts SSH connections but knows no NETCONF.\<close>

definition refusing_env :: "unit env" where
  "refusing_env = example_env\<lparr>ssh_RequestSubsystem := \<lambda>_ _ w. (Some (GoError ''ssh: subsystem request failed''), w)\<rparr>"

theorem MountPoint_dial_failures_witness:
  "manageOperatorLogic_MountPoint refusing_env example_MountPoint example_state =
    (Abort (Panic ''invalid memory address or nil pointer dereference''), example_state)"
proof -
  let ?t = "zero_Transport\<lparr>tp_sshClient := Some 1, tp_sshSession := Some 2, tp_ReadWriteCloser := Some 2\<rparr>"
  have d: "TransportSSH_Dial refusing_env zero_Transport (mp_Target (cr_Spec example_MountPoint)) (sshConfig_of example_MountPoint) example_state =
      (Ret (?t, Some (GoError ''ssh: subsystem request failed'')), example_state)"
    by (simp add: TransportSSH_Dial_def setupSession_def refusing_env_def Let_def)
  have c: "TransportSSH_Close refusing_env ?t example_state = (Ret None, example_state)"
    by (simp add: TransportSSH_Close_def refusing_env_def zero_Transport_def ext_def)
  have z: "mp_Timeout (cr_Spec example_MountPoint) = 0" by (simp add: example_objects)
  have h: "xml_Marshal_Hello refusing_env m = Inr ''<hello/>''" for m by (simp add: refusing_env_def)
  from MountPoint_dial_failures[OF z d, of w example_state "''<hello/>''" for w] c h show ?thesis by (simp only:)
qed

end
