(* ===== verification/EstablishSubscription_Controller.thy ===== *)
theory EstablishSubscription_Controller
  imports Finalizing_Frame Notification_Laws
begin

text \<open>
  \<open>controllers/establishsubscription\_controller.go\<close>: an \<open>EstablishSubscription\<close> resource sends its XML as a
  subscription request and registers a callback under the identifier that the device assigns; its
  cleanup takes the callback out and deletes the subscription on the device.
\<close>

definition isValid_EstablishSubscription :: "'w env \<Rightarrow> Object \<Rightarrow> ('w, bool \<times> gerror option) op" where
  "isValid_EstablishSubscription e obj = (case obj of
     OEstablishSubscription instance \<Rightarrow>
       gbind (require_MountPoint e (om_Namespace (cr_Meta instance)) (es_MountPoint (cr_Spec instance))) (\<lambda>(ok, err).
         if \<not> ok then ret (False, err)
         else (case ValidateXML e (es_XML (cr_Spec instance)) of
           Some x \<Rightarrow> ret (False, Some x)
         | None \<Rightarrow> ret (True, None)))
   | _ \<Rightarrow> ret (False, Some (GoError ''not an EstablishSubscription object'')))"

definition isInitialized_EstablishSubscription :: "Object \<Rightarrow> bool \<times> Object" where
  "isInitialized_EstablishSubscription obj = (case obj of
     OEstablishSubscription instance \<Rightarrow>
       if HasFinalizer instance establishSubscriptionFinalizer then (True, obj)
       else (False, OEstablishSubscription (AddFinalizer instance establishSubscriptionFinalizer))
   | _ \<Rightarrow> (False, obj))"

fun the_EstablishSubscription :: "Object \<Rightarrow> EstablishSubscription" where
  "the_EstablishSubscription (OEstablishSubscription x) = x"
| "the_EstablishSubscription _ = zero_EstablishSubscription"

definition delSub :: "string \<Rightarrow> string" where
  "delSub subID = ''<delete-subscription xmlns='' @ [CHR 0x22] @
     ''urn:ietf:params:xml:ns:yang:ietf-event-notifications'' @ [CHR 0x22] @ ''><subscription-id>'' @ subID @
     ''</subscription-id></delete-subscription>''"

definition manageCleanUpLogic_EstablishSubscription ::
    "'w env \<Rightarrow> EstablishSubscription \<Rightarrow> ('w, gerror option) op" where
  "manageCleanUpLogic_EstablishSubscription e obj =
     (let subID = st_SubscriptionID (cr_RPCStatus obj) in
      if subID \<noteq> [] then
        gbind (session_of (GetMountPointNamespacedName obj (es_MountPoint (cr_Spec obj)))) (\<lambda>s.
        gbind (session_at s) (\<lambda>_. case s of None \<Rightarrow> nil_deref | Some sid \<Rightarrow>
        gthen (update_session sid (on_Listener (Remove subID)))
        (gbind (NewRPC e (delSub subID)) (\<lambda>m.
         gbind (SyncRPC e s m 1) (\<lambda>(_, err). ret err)))))
      else ret None)"

definition manageOperatorLogic_EstablishSubscription ::
    "'w env \<Rightarrow> string \<Rightarrow> EstablishSubscription \<Rightarrow> ('w, EstablishSubscription \<times> gerror option) op" where
  "manageOperatorLogic_EstablishSubscription e recorder obj =
     gbind (session_of (GetMountPointNamespacedName obj (es_MountPoint (cr_Spec obj)))) (\<lambda>s.
     gbind (NewEstablishSubscription e (es_XML (cr_Spec obj))) (\<lambda>m.
     gbind (SyncRPC e s m (es_Timeout (cr_Spec obj))) (\<lambda>(reply, err).
       if err \<noteq> None then
         ret ((case reply of
                 None \<Rightarrow> set_Status ''failed'' obj
               | Some r \<Rightarrow> set_RpcReply (re_RawReply r) (set_Status ''failed'' obj)), err)
       else (case reply of None \<Rightarrow> nil_deref | Some r \<Rightarrow>
         if re_Errors r \<noteq> [] then ret (set_RpcReply (re_RawReply r) (set_Status ''failed'' obj), err)
         else (case s of None \<Rightarrow> nil_deref | Some sid \<Rightarrow>
           gthen (update_session sid (on_Listener (Register (re_SubscriptionID r) (CbEstablishSubscription recorder obj))))
             (ret (set_SubscriptionID (re_SubscriptionID r) (set_Status ''subscribed'' obj), None)))))))"

type_synonym 'w EstablishSubscriptionReconciler = "('w, EstablishSubscriptionSpec) reconciler \<times> string"

definition newEstablishSubscriptionReconciler :: "'w env \<Rightarrow> 'w EstablishSubscriptionReconciler" where
  "newEstablishSubscriptionReconciler e =
     (\<lparr>rc_client = establishsubscriptions e, rc_recorder = establishSubscriptionControllerName\<rparr>,
      establishSubscriptionControllerName)"

definition Reconcile_EstablishSubscription :: "'w env \<Rightarrow> NamespacedName \<Rightarrow> ('w, Result \<times> gerror option) op" where
  "Reconcile_EstablishSubscription e req = (case newEstablishSubscriptionReconciler e of (r, recorder) \<Rightarrow>
     reconcile_finalizing e r zero_EstablishSubscription OEstablishSubscription the_EstablishSubscription
       (isValid_EstablishSubscription e) (\<lambda>obj err. ManageErrorWithRequeue e r obj err (2 * second))
       isInitialized_EstablishSubscription establishSubscriptionFinalizer
       (manageCleanUpLogic_EstablishSubscription e) (manageOperatorLogic_EstablishSubscription e recorder) req)"

section \<open>Laws\<close>

lemma asks_isValid_EstablishSubscription: "asks (isValid_EstablishSubscription e (OEstablishSubscription obj))"
  unfolding isValid_EstablishSubscription_def Object.case by (intro go_asks)

lemma isValid_EstablishSubscription_error:
  "yields (\<lambda>(ok, err). ok \<or> err \<noteq> None) (isValid_EstablishSubscription e (OEstablishSubscription obj))"
  unfolding isValid_EstablishSubscription_def Object.case
  by (intro yields_refuse require_MountPoint_error go_yields) auto

interpretation es: finalizing_controller e "fst (newEstablishSubscriptionReconciler e)" zero_EstablishSubscription
    OEstablishSubscription the_EstablishSubscription "isValid_EstablishSubscription e"
    "\<lambda>obj err. ManageErrorWithRequeue e (fst (newEstablishSubscriptionReconciler e)) obj err (2 * second)"
    isInitialized_EstablishSubscription establishSubscriptionFinalizer
    "manageCleanUpLogic_EstablishSubscription e"
    "manageOperatorLogic_EstablishSubscription e (snd (newEstablishSubscriptionReconciler e))" for e
  by unfold_locales (simp_all add: isInitialized_EstablishSubscription_def asks_isValid_EstablishSubscription
      isValid_EstablishSubscription_error quiet.keeps_Manage del: not_None_eq)

text \<open>Nobody registers the identifier again while a request with another one is under way.\<close>

definition silent :: "sref \<Rightarrow> string \<Rightarrow> 'w ostate \<Rightarrow> bool" where
  "silent i k s \<longleftrightarrow> (\<forall>x. heap s i = Some x \<longrightarrow> callbacks (se_Listener x) k = None)"

lemma silent_fields [simp]:
  "silent i k (s\<lparr>world := w\<rparr>) = silent i k s" "silent i k (s\<lparr>trace := tr\<rparr>) = silent i k s"
  "silent i k (s\<lparr>chans := c\<rparr>) = silent i k s" "silent i k (s\<lparr>next_chan := n\<rparr>) = silent i k s"
  by (simp_all add: silent_def)

interpretation sil: chan_send "\<lambda>s. chan_inv s \<and> silent i k s" "\<lambda>mid. mid \<noteq> k" for i k
proof unfold_locales
  fix s :: "'a ostate" and f :: "Session \<Rightarrow> Session" and j
  assume *: "chan_inv s \<and> silent i k s" "\<And>x. se_Listener (f x) = se_Listener x"
  then show "chan_inv (s\<lparr>heap := (heap s)(j := map_option f (heap s j))\<rparr>) \<and>
     silent i k (s\<lparr>heap := (heap s)(j := map_option f (heap s j))\<rparr>)"
    using chn.cp_listener[of s f j] by (auto simp: silent_def)
next
  fix s :: "'a ostate" and j x ch and r :: RPCReply
  assume *: "chan_inv s \<and> silent i k s" "heap s j = Some x"
    "callbacks (se_Listener x) (re_MessageID r) = Some (CbReply ch)"
  then show "chan_inv (s\<lparr>chans := (chans s)(ch \<mapsto> r), heap := (heap s)(j \<mapsto> on_Listener (Remove (re_MessageID r)) x)\<rparr>) \<and>
     silent i k (s\<lparr>chans := (chans s)(ch \<mapsto> r), heap := (heap s)(j \<mapsto> on_Listener (Remove (re_MessageID r)) x)\<rparr>)"
    using chn.cp_reply[OF _ *(2,3)] by (auto simp: silent_def on_Listener_def)
next
  fix s :: "'a ostate" and j x l ch
  assume "chan_inv s \<and> silent i k s" "heap s j = Some x" "callbacks (se_Listener x) l = Some (CbReply ch)"
  then show "chans s ch = None" using chn.cp_free by blast
next
  fix s :: "'a ostate" and sid x h req w and oper :: RPCMethod
  assume *: "chan_inv s \<and> silent i k s" "heap s sid = Some x" "GetMessageID oper \<noteq> k"
  then show "chan_inv (rpc_sent sid x h oper req w s) \<and> silent i k (rpc_sent sid x h oper req w s)"
    using chan_inv_rpc_sent[of s sid x h oper req w] by (auto simp: silent_def rpc_sent_def on_Listener_def)
qed (auto simp: chan_inv_next chan_inv_take)

text \<open>The cleanup once its session is found.\<close>

lemma cleanup_run:
  assumes "st_SubscriptionID (cr_RPCStatus obj) \<noteq> []"
    and "Sessions s (GetMountPointNamespacedName obj (es_MountPoint (cr_Spec obj))) = Some i" "heap s i = Some x"
  obtains m w where "length (GetMessageID m) = 36" "m = MRPC (GetMessageID m) (delSub (st_SubscriptionID (cr_RPCStatus obj)))"
    "manageCleanUpLogic_EstablishSubscription e obj s = gbind (SyncRPC e (Some i) m 1) (\<lambda>(_, err). ret err)
      (s\<lparr>heap := (heap s)(i := map_option (on_Listener (Remove (st_SubscriptionID (cr_RPCStatus obj)))) (heap s i)), world := w\<rparr>)"
proof -
  let ?k = "st_SubscriptionID (cr_RPCStatus obj)"
  let ?s = "s\<lparr>heap := (heap s)(i := map_option (on_Listener (Remove ?k)) (heap s i))\<rparr>"
  obtain j w where m: "NewRPC e (delSub ?k) ?s = (Ret (MRPC j (delSub ?k)), ?s\<lparr>world := w\<rparr>)" "length j = 36"
    by (rule buildsE[OF NewRPC_builds])
  show ?thesis
    by (rule that[of "MRPC j (delSub ?k)" w])
      (use assms m in \<open>simp_all add: manageCleanUpLogic_EstablishSubscription_def Let_def gthen_def update_session_def
        gbind_def[where m = "NewRPC e (delSub ?k)"]\<close>)
qed

section \<open>Properties\<close>


text \<open>
  An \<open>EstablishSubscription\<close> request that gets no reply is an error that the operation returns, with
  the resource marked as failed, so the reconciliation is retried; it does not end the operator.
\<close>

theorem EstablishSubscription_timeout_is_error:
  assumes "NewEstablishSubscription e (es_XML (cr_Spec obj)) s = (Ret m, s\<lparr>world := w\<rparr>)"
    and "SyncRPC e (Sessions s (GetMountPointNamespacedName obj (es_MountPoint (cr_Spec obj)))) m
      (es_Timeout (cr_Spec obj)) (s\<lparr>world := w\<rparr>) = (Ret (None, Some x), t)"
  shows "manageOperatorLogic_EstablishSubscription e recorder obj s = (Ret (set_Status ''failed'' obj, Some x), t)"
  using assms by (simp add: manageOperatorLogic_EstablishSubscription_def
      gbind_def[where m = "NewEstablishSubscription e (es_XML (cr_Spec obj))"]
      gbind_def[where m = "SyncRPC e (Sessions s (GetMountPointNamespacedName obj (es_MountPoint (cr_Spec obj)))) m (es_Timeout (cr_Spec obj))"])

text \<open>
  C30: the cleanup of a subscription stops its notifications: when it returns, whatever it returns, no
  callback is registered under the subscription's identifier any more. (The identifier is not one of
  the 36 characters that the operator's own requests have.)
\<close>

theorem EstablishSubscription_cleanup_silences:
  assumes "chan_inv s" and "st_SubscriptionID (cr_RPCStatus obj) \<noteq> []" "length (st_SubscriptionID (cr_RPCStatus obj)) \<noteq> 36"
    and "Sessions s (GetMountPointNamespacedName obj (es_MountPoint (cr_Spec obj))) = Some i" "heap s i = Some x"
    and "manageCleanUpLogic_EstablishSubscription e obj s = (Ret err, t)"
  shows "silent i (st_SubscriptionID (cr_RPCStatus obj)) t \<and> chan_inv t"
proof -
  let ?k = "st_SubscriptionID (cr_RPCStatus obj)"
  obtain m w where m: "length (GetMessageID m) = 36"
    and run: "manageCleanUpLogic_EstablishSubscription e obj s = gbind (SyncRPC e (Some i) m 1) (\<lambda>(_, err). ret err)
      (s\<lparr>heap := (heap s)(i := map_option (on_Listener (Remove ?k)) (heap s i)), world := w\<rparr>)"
    using assms(2,4,5) by (rule cleanup_run)
  let ?s = "s\<lparr>heap := (heap s)(i := map_option (on_Listener (Remove ?k)) (heap s i))\<rparr>"
  have "silent i ?k ?s" using assms(5) by (simp add: silent_def on_Listener_def)
  then have I: "chan_inv (?s\<lparr>world := w\<rparr>) \<and> silent i ?k (?s\<lparr>world := w\<rparr>)" using chan_inv_remove[OF assms(1)] by simp
  have ne: "GetMessageID m \<noteq> ?k" using m assms(3) by auto
  have "keeps (\<lambda>s. chan_inv s \<and> silent i ?k s) (gbind (SyncRPC e (Some i) m 1) (\<lambda>(_, err). ret err))"
    by (intro keeps_gbind keeps_prod keeps_ret sil.keeps_SyncRPC_cp[OF ne])
  from keepsD_eq[OF this I] assms(6) run show ?thesis by simp
qed

text \<open>
  C31: an \<open>EstablishSubscription\<close> whose mount point is gone cannot be deleted: validation comes before
  finalization, so reconciling it reports the missing mount point and is retried for ever, and the
  finalizer is not removed, deletion requested or not.
\<close>

theorem EstablishSubscription_deletion_waits_for_mountpoint:
  assumes "k_Get (establishsubscriptions e) req (world s) = (Inr obj, w)"
    and "\<not> mountpoint_ready e (om_Namespace (cr_Meta obj)) (es_MountPoint (cr_Spec obj)) (s\<lparr>world := w\<rparr>)"
  shows "\<exists>v res. Reconcile_EstablishSubscription e req s =
      ManageErrorWithRequeue e (fst (newEstablishSubscriptionReconciler e)) obj
        (Some (GoError (''MountPoint '' @ es_MountPoint (cr_Spec obj) @ '' doesn't exists''))) (2 * second) (s\<lparr>world := v\<rparr>) \<and>
    fst (Reconcile_EstablishSubscription e req s) = Ret res \<and> reconcileHandler res = AddRateLimited"
proof -
  let ?iss = "GoError (''MountPoint '' @ es_MountPoint (cr_Spec obj) @ '' doesn't exists'')"
  obtain v where v: "require_MountPoint e (om_Namespace (cr_Meta obj)) (es_MountPoint (cr_Spec obj)) (s\<lparr>world := w\<rparr>) =
    (Ret (if mountpoint_ready e (om_Namespace (cr_Meta obj)) (es_MountPoint (cr_Spec obj)) (s\<lparr>world := w\<rparr>) then (True, None)
      else (False, Some ?iss)), (s\<lparr>world := w\<rparr>)\<lparr>world := v\<rparr>)"
    by (rule require_MountPoint_run)
  have "isValid_EstablishSubscription e (OEstablishSubscription obj) (s\<lparr>world := w\<rparr>) = (Ret (False, Some ?iss), s\<lparr>world := v\<rparr>)"
    using v assms(2) by (simp add: isValid_EstablishSubscription_def gbind_def)
  then have run: "Reconcile_EstablishSubscription e req s =
      ManageErrorWithRequeue e (fst (newEstablishSubscriptionReconciler e)) obj (Some ?iss) (2 * second) (s\<lparr>world := v\<rparr>)"
    using assms(1) by (simp add: Reconcile_EstablishSubscription_def newEstablishSubscriptionReconciler_def
        reconcile_finalizing_def gbind_def[where m = "isValid_EstablishSubscription e (OEstablishSubscription obj)"])
  obtain res er where "fst (ManageErrorWithRequeue e (fst (newEstablishSubscriptionReconciler e)) obj (Some ?iss) (2 * second) (s\<lparr>world := v\<rparr>)) = Ret (res, Some er)"
    by (rule ManageErrorWithRequeue_returns[of e "fst (newEstablishSubscriptionReconciler e)" obj ?iss "2 * second" "s\<lparr>world := v\<rparr>"]) simp
  then show ?thesis
    unfolding run by (intro exI[of _ v] exI[of _ "(res, Some er)"]) (simp add: reconcileHandler_def)
qed

section \<open>The example\<close>

definition example_no_mountpoint :: "unit env" where
  "example_no_mountpoint = example_env\<lparr>mountpoints := (example_client example_MountPoint)\<lparr>k_Get :=
     (\<lambda>_ w. (Inl (NotFound ''mountpoint''), w))\<rparr>\<rparr>"

definition example_established :: EstablishSubscription where
  "example_established = set_SubscriptionID ''7'' example_EstablishSubscription"

lemma example_ES_session:
  "Sessions example_state (GetMountPointNamespacedName example_EstablishSubscription
     (es_MountPoint (cr_Spec example_EstablishSubscription))) = Some 0"
  "heap example_state 0 = Some example_Session" "example_idle example_Session" "chans example_state = Map.empty"
  by (simp_all add: keyed_example example_objects example_names, simp_all add: example_state_def example_idle_def example_Session_def)

lemma example_ES_request:
  "NewEstablishSubscription example_env d s = (Ret (MEstablishSubscription example_id d), s)"
  "NewRPC example_env d s = (Ret (MRPC example_id d), s)"
  by (simp_all add: NewEstablishSubscription_def NewRPC_def gbind_def)



lemma example_ES_cleanup_runs:
  "\<exists>t. manageCleanUpLogic_EstablishSubscription example_env example_established example_state = (Ret None, t)"
proof -
  let ?s = "example_state\<lparr>heap := (heap example_state)(0 := map_option (on_Listener (Remove ''7'')) (heap example_state 0))\<rparr>"
  have "heap ?s 0 = Some (on_Listener (Remove ''7'') example_Session)" "example_idle (on_Listener (Remove ''7'') example_Session)"
    using example_ES_session(2,3) by (simp_all add: example_idle_def on_Listener_def)
  from example_answers[OF this, of "MRPC example_id d" for d] example_ES_session show ?thesis
    by (simp add: manageCleanUpLogic_EstablishSubscription_def example_established_def GetMountPointNamespacedName_def
        example_ES_request gbind_def gthen_def update_session_def session_at_def Let_def)
qed

theorem EstablishSubscription_cleanup_silences_witness:
  "\<exists>t. manageCleanUpLogic_EstablishSubscription example_env example_established example_state = (Ret None, t) \<and>
     silent 0 (st_SubscriptionID (cr_RPCStatus example_established)) t \<and> chan_inv t"
proof -
  obtain t where run: "manageCleanUpLogic_EstablishSubscription example_env example_established example_state = (Ret None, t)"
    using example_ES_cleanup_runs by blast
  have "st_SubscriptionID (cr_RPCStatus example_established) \<noteq> []" "length (st_SubscriptionID (cr_RPCStatus example_established)) \<noteq> 36"
    by (simp_all add: example_established_def)
  moreover have "Sessions example_state (GetMountPointNamespacedName example_established (es_MountPoint (cr_Spec example_established))) = Some 0"
    using example_ES_session(1) by (simp add: example_established_def GetMountPointNamespacedName_def)
  ultimately show ?thesis
    using EstablishSubscription_cleanup_silences[OF example_chan_inv _ _ _ example_ES_session(2) run] run by blast
qed

theorem EstablishSubscription_deletion_waits_for_mountpoint_witness:
  "\<exists>v res. Reconcile_EstablishSubscription example_no_mountpoint example_req example_state =
      ManageErrorWithRequeue example_no_mountpoint (fst (newEstablishSubscriptionReconciler example_no_mountpoint)) example_EstablishSubscription
        (Some (GoError (''MountPoint '' @ es_MountPoint (cr_Spec example_EstablishSubscription) @ '' doesn't exists''))) (2 * second)
        (example_state\<lparr>world := v\<rparr>) \<and>
    fst (Reconcile_EstablishSubscription example_no_mountpoint example_req example_state) = Ret res \<and> reconcileHandler res = AddRateLimited"
  by (rule EstablishSubscription_deletion_waits_for_mountpoint[where w = "()"])
    (simp_all add: example_no_mountpoint_def mountpoint_ready_def)

end
