(* ===== verification/Operator.thy ===== *)
theory Operator
  imports Lock_Controller Unlock_Controller Commit_Controller EditConfig_Controller Get_Controller
    GetConfig_Controller RPC_Controller CreateSubscription_Controller MountPoint_Controller
    EstablishSubscription_Controller
begin

text \<open>
  The running operator: the ten reconcilers behind one entry point, and the steps the process makes.
  A step is a whole reconciliation, one read of a session's listener, a change of the world, or a
  crash, after which the process starts again with empty memory. The states that can be reached this
  way have no dangling session reference and reply channels in order.
\<close>

datatype Kind = KMountPoint | KLock | KUnlock | KCommit | KEditConfig | KGet | KGetConfig | KRPC
  | KCreateSubscription | KEstablishSubscription

fun reconcile_kind :: "'w env \<Rightarrow> Kind \<Rightarrow> NamespacedName \<Rightarrow> ('w, Result \<times> gerror option) op" where
  "reconcile_kind e KMountPoint = Reconcile_MountPoint e"
| "reconcile_kind e KLock = Reconcile_Lock e"
| "reconcile_kind e KUnlock = Reconcile_Unlock e"
| "reconcile_kind e KCommit = Reconcile_Commit e"
| "reconcile_kind e KEditConfig = Reconcile_EditConfig e"
| "reconcile_kind e KGet = Reconcile_Get e"
| "reconcile_kind e KGetConfig = Reconcile_GetConfig e"
| "reconcile_kind e KRPC = Reconcile_RPC e"
| "reconcile_kind e KCreateSubscription = Reconcile_CreateSubscription e"
| "reconcile_kind e KEstablishSubscription = Reconcile_EstablishSubscription e"

text \<open>A process that starts again has lost its memory; what it has sent stays sent.\<close>

definition restart :: "'w ostate \<Rightarrow> 'w ostate" where
  "restart s = s\<lparr>Sessions := Map.empty, heap := Map.empty, next_sref := 0, chans := Map.empty, next_chan := 0\<rparr>"

inductive op_step :: "'w env \<Rightarrow> 'w ostate \<Rightarrow> 'w ostate \<Rightarrow> bool" for e where
  reconciled: "reconcile_kind e k req s = (Ret r, t) \<Longrightarrow> op_step e s t"
| listened: "listen_read e i rd s = (Ret (), t) \<Longrightarrow> op_step e s t"
| crashed: "reconcile_kind e k req s = (Abort x, t) \<Longrightarrow> x \<noteq> Blocked \<Longrightarrow> op_step e s (restart t)"
| listener_crashed: "listen_read e i rd s = (Abort x, t) \<Longrightarrow> x \<noteq> Blocked \<Longrightarrow> op_step e s (restart t)"
| world_moves: "op_step e s (s\<lparr>world := w\<rparr>)"

inductive reachable :: "'w env \<Rightarrow> 'w ostate \<Rightarrow> bool" for e where
  boot: "reachable e (restart s)"
| step: "reachable e s \<Longrightarrow> op_step e s t \<Longrightarrow> reachable e t"

inductive_cases op_stepE [consumes 1, case_names reconciled listened crashed listener_crashed world_moves]: "op_step e s t"

section \<open>The channels\<close>

lemma chan_rpc: "keeps chan_inv (SyncRPC e r m t)"
  by (rule keeps_SyncRPC_chan)

lemma chan_register: "\<not> is_reply_cb cb \<Longrightarrow> keeps chan_inv (update_session i (on_Listener (Register k cb)))"
  unfolding update_session_def by (rule keeps_modify) (rule chan_inv_register)

lemma chan_remove: "keeps chan_inv (update_session i (on_Listener (Remove k)))"
  unfolding update_session_def by (rule keeps_modify) (rule chan_inv_remove)

lemmas chan_rules = chn.quiet_rules chan_rpc chan_remove chn.keeps_listener_update keeps_session_of keeps_New
  chn.st_world

lemma chan_Session_Close: "keeps chan_inv (Session_Close e i)"
  unfolding Session_Close_def by (intro chan_rules keeps_Transport; simp)

lemma chan_alloc: "callbacks (se_Listener x) = Map.empty \<Longrightarrow> keeps chan_inv (alloc_session x)"
  unfolding alloc_session_def
proof (intro chn.quiet_rules keeps_modify)
  fix i and s :: "'a ostate"
  assume x: "callbacks (se_Listener x) = Map.empty" and s: "chan_inv s"
  have "reply_cb (s\<lparr>next_sref := Suc i, heap := (heap s)(i \<mapsto> x)\<rparr>) j k ch \<Longrightarrow> reply_cb s j k ch" for j k ch
    using x by (auto simp: reply_cb_def split: if_splits)
  then show "chan_inv (s\<lparr>next_sref := Suc i, heap := (heap s)(i \<mapsto> x)\<rparr>)"
    using s unfolding chan_inv_def by simp blast
qed

lemma chan_NewSession: "keeps chan_inv (NewSession e t)"
  unfolding NewSession_def ReceiveHello_def
  by (intro chan_rules keeps_Transport chan_alloc; simp)

lemma chan_dial: "keeps chan_inv (dial_MountPoint e obj)"
  unfolding dial_MountPoint_def DialSSH_def DialSSHTimeout_def
  by (intro chan_rules keeps_Transport chan_NewSession; simp)

lemma chan_SendHello: "keeps chan_inv (SendHello e r h)"
  unfolding SendHello_def
  by (intro chan_rules keeps_Transport_Send; simp add: SetVersion_def)

lemma chan_MountPoint_cleanup: "keeps chan_inv (manageCleanUpLogic_MountPoint e obj)"
  unfolding manageCleanUpLogic_MountPoint_def close_or_kill_def
  by (intro chan_rules chan_Session_Close keeps_modify; simp)

lemma chan_MountPoint: "keeps chan_inv (manageOperatorLogic_MountPoint e obj)"
  unfolding manageOperatorLogic_MountPoint_def
  by (intro chan_rules chan_dial chan_SendHello keeps_modify; simp)

lemma chan_EstablishSubscription:
  "keeps chan_inv (manageCleanUpLogic_EstablishSubscription e eobj)"
  "keeps chan_inv (manageOperatorLogic_EstablishSubscription e recorder eobj)"
  unfolding manageCleanUpLogic_EstablishSubscription_def manageOperatorLogic_EstablishSubscription_def Let_def
  by (intro chan_rules chan_register; simp)+

lemma chan_CreateSubscription: "keeps chan_inv (manageOperatorLogic_CreateSubscription e recorder obj)"
  unfolding manageOperatorLogic_CreateSubscription_def CreateNotificationStream_def Let_def
  by (intro chan_rules chan_register; simp)

lemma chan_with_dependency: "(\<And>o'. keeps chan_inv (rest o')) \<Longrightarrow> keeps chan_inv (with_dependency e ns dep rest obj)"
  by (rule keeps_with_dependency[OF chn.quiet_axioms])

lemma chan_EditConfig: "keeps chan_inv (send_EditConfig e obj)"
  unfolding send_EditConfig_def rpc_or_nil_def Let_def by (intro chan_rules; assumption)

lemma chan_reconcile: "keeps chan_inv (reconcile_kind e k req)"
proof -
  note rpc = keeps_reconcile_rpc[OF chn.quiet_axioms] and fin = keeps_reconcile_finalizing[OF chn.quiet_axioms]
    and once = chn.quiet_axioms chan_rpc and mng = chn.keeps_Manage
  show ?thesis
  proof (cases k)
    case KMountPoint
    then show ?thesis
      by (auto simp: Reconcile_MountPoint_def intro!: fin mp.valid_asks mng chan_MountPoint_cleanup chan_MountPoint)
  next
    case KEstablishSubscription
    then show ?thesis
      by (auto simp: Reconcile_EstablishSubscription_def newEstablishSubscriptionReconciler_def
          intro!: fin asks_isValid_EstablishSubscription mng chan_EstablishSubscription)
  next
    case KLock
    then show ?thesis by (auto simp: Reconcile_Lock_def intro!: rpc lock.kind_asks lock.once_keeps_rpc once)
  next
    case KCommit
    then show ?thesis by (auto simp: Reconcile_Commit_def intro!: rpc commit.kind_asks commit.once_keeps_rpc once)
  next
    case KGet
    then show ?thesis by (auto simp: Reconcile_Get_def intro!: rpc get.kind_asks get.once_keeps_rpc once)
  next
    case KGetConfig
    then show ?thesis by (auto simp: Reconcile_GetConfig_def intro!: rpc getconfig.kind_asks getconfig.once_keeps_rpc once)
  next
    case KRPC
    then show ?thesis by (auto simp: Reconcile_RPC_def intro!: rpc rpc.kind_asks rpc.once_keeps_rpc once)
  next
    case KUnlock
    then show ?thesis by (auto simp: Reconcile_Unlock_def manageOperatorLogic_Unlock_def
          intro!: rpc unlock.valid_asks chan_with_dependency unlock1.once_keeps_rpc once)
  next
    case KEditConfig
    then show ?thesis by (auto simp: Reconcile_EditConfig_def manageOperatorLogic_EditConfig_def
          intro!: rpc editconfig.valid_asks chan_with_dependency chan_EditConfig)
  next
    case KCreateSubscription
    then show ?thesis by (auto simp: Reconcile_CreateSubscription_def newCreateSubscriptionReconciler_def
          intro!: rpc createsub.valid_asks chan_CreateSubscription)
  qed
qed

section \<open>The heap\<close>

lemmas heap_rules = wfh.st_rules wfh.keeps_SyncRPC wfh.keeps_Transport_Send_st keeps_session_of keeps_New wfh.st_world

lemma heap_session: "keeps heap_wf (update_session i f)"
  unfolding update_session_def by (rule keeps_modify) (auto simp: heap_wf_def)

lemma heap_alloc: "keeps heap_wf (alloc_session x)"
proof (rule keepsI)
  fix s :: "'a ostate" assume "heap_wf s"
  then show "heap_wf (snd (alloc_session x s))"
    by (auto simp: alloc_session_def heap_wf_def dest: less_SucI)
qed

lemma heap_dial: "keeps heap_wf (dial_MountPoint e obj)"
  unfolding dial_MountPoint_def DialSSH_def DialSSHTimeout_def NewSession_def ReceiveHello_def
  by (intro heap_rules keeps_Transport heap_alloc; assumption)

lemma heap_SendHello: "keeps heap_wf (SendHello e r h)"
  unfolding SendHello_def by (intro wfh.quiet_rules heap_session wfh.keeps_Transport_Send_st)

lemma heap_install:
  "keeps heap_wf (gbind (session_at session) (\<lambda>x. gthen (modify (\<lambda>s. s\<lparr>Sessions := (Sessions s)(k := session)\<rparr>)) (ret (f x))))"
proof (rule keepsI)
  fix s :: "'a ostate" assume s: "heap_wf s"
  show "heap_wf (snd (gbind (session_at session) (\<lambda>x. gthen (modify (\<lambda>s. s\<lparr>Sessions := (Sessions s)(k := session)\<rparr>)) (ret (f x))) s))"
  proof (cases session)
    case None
    with s show ?thesis by simp
  next
    case (Some i)
    with s show ?thesis by (cases "heap s i") (auto simp: session_at_def gbind_def heap_wf_def)
  qed
qed

lemma heap_MountPoint: "keeps heap_wf (manageOperatorLogic_MountPoint e obj)"
  unfolding manageOperatorLogic_MountPoint_def
  by (intro keeps_gbind keeps_prod keeps_option keeps_let keeps_ret heap_dial heap_SendHello heap_install)

lemma heap_MountPoint_cleanup: "keeps heap_wf (manageCleanUpLogic_MountPoint e obj)"
  unfolding manageCleanUpLogic_MountPoint_def close_or_kill_def Session_Close_def
  by (intro heap_rules heap_session keeps_Transport keeps_modify; (assumption | simp add: heap_wf_def))

lemma heap_EstablishSubscription:
  "keeps heap_wf (manageCleanUpLogic_EstablishSubscription e eobj)"
  "keeps heap_wf (manageOperatorLogic_EstablishSubscription e recorder eobj)"
  unfolding manageCleanUpLogic_EstablishSubscription_def manageOperatorLogic_EstablishSubscription_def Let_def
  by (intro heap_rules heap_session; (assumption | simp))+

lemma heap_reconcile: "keeps heap_wf (reconcile_kind e k req)"
proof -
  note fin = keeps_reconcile_finalizing[OF wfh.quiet_axioms] and st = wfh.stable_send_axioms and mng = wfh.keeps_Manage
  show ?thesis
    by (cases k) (auto simp: Reconcile_MountPoint_def Reconcile_EstablishSubscription_def newEstablishSubscriptionReconciler_def
        Reconcile_Lock_def Reconcile_Unlock_def Reconcile_Commit_def Reconcile_EditConfig_def Reconcile_Get_def
        Reconcile_GetConfig_def Reconcile_RPC_def Reconcile_CreateSubscription_def case_prod_beta
        intro!: fin mp.valid_asks asks_isValid_EstablishSubscription mng heap_MountPoint heap_MountPoint_cleanup
          heap_EstablishSubscription lock.ctl.keeps_reconcile[OF st] unlock.keeps_reconcile[OF st]
          commit.ctl.keeps_reconcile[OF st] editconfig.keeps_reconcile[OF st] get.ctl.keeps_reconcile[OF st]
          getconfig.ctl.keeps_reconcile[OF st] rpc.ctl.keeps_reconcile[OF st] createsub.keeps_reconcile[OF st])
qed

section \<open>Reachable states\<close>

definition op_inv :: "'w ostate \<Rightarrow> bool" where
  "op_inv s \<longleftrightarrow> chan_inv s \<and> heap_wf s"

lemma op_inv_restart: "op_inv (restart s)"
  by (simp add: op_inv_def restart_def chan_inv_def reply_cb_def heap_wf_def)

lemma op_step_inv:
  assumes "op_step e s t" "op_inv s"
  shows "op_inv t"
  using assms
proof (cases rule: op_stepE)
  case (reconciled k req r)
  then show ?thesis
    using keepsD_eq[OF chan_reconcile _ reconciled(1)] keepsD_eq[OF heap_reconcile _ reconciled(1)] assms(2)
    by (simp add: op_inv_def)
next
  case (listened i rd)
  then show ?thesis
    using keepsD_eq[OF chn.keeps_listen_read _ listened(1)] keepsD_eq[OF wfh.keeps_listen_read _ listened(1)] assms(2)
    by (simp add: op_inv_def)
next
  case (world_moves w)
  then show ?thesis using assms(2) by (simp add: op_inv_def heap_wf_def)
qed (simp_all add: op_inv_restart)

lemma reachable_inv: "reachable e s \<Longrightarrow> op_inv s"
  by (induction rule: reachable.induct) (auto intro: op_inv_restart op_step_inv)

section \<open>Only a mount point changes the session table\<close>

lemma reconcile_sessions:
  assumes "k \<noteq> KMountPoint"
  shows "keeps (\<lambda>s. Sessions s = X) (reconcile_kind e k req)"
proof -
  note st = tbl.stable_send_axioms[of X]
  have es: "keeps (\<lambda>s. Sessions s = X) (manageCleanUpLogic_EstablishSubscription e eobj)"
    "keeps (\<lambda>s. Sessions s = X) (manageOperatorLogic_EstablishSubscription e recorder eobj)" for eobj recorder
    unfolding manageCleanUpLogic_EstablishSubscription_def manageOperatorLogic_EstablishSubscription_def Let_def
    by (intro tbl.st_rules tbl.keeps_SyncRPC keeps_session_of keeps_New tbl.st_world; (assumption | simp))+
  from assms show ?thesis
    by (cases k) (auto simp: Reconcile_EstablishSubscription_def newEstablishSubscriptionReconciler_def
        Reconcile_Lock_def Reconcile_Unlock_def Reconcile_Commit_def Reconcile_EditConfig_def Reconcile_Get_def
        Reconcile_GetConfig_def Reconcile_RPC_def Reconcile_CreateSubscription_def case_prod_beta
        intro!: keeps_reconcile_finalizing[OF tbl.quiet_axioms] asks_isValid_EstablishSubscription tbl.keeps_Manage es
          lock.ctl.keeps_reconcile[OF st] unlock.keeps_reconcile[OF st]
          commit.ctl.keeps_reconcile[OF st] editconfig.keeps_reconcile[OF st] get.ctl.keeps_reconcile[OF st]
          getconfig.ctl.keeps_reconcile[OF st] rpc.ctl.keeps_reconcile[OF st] createsub.keeps_reconcile[OF st])
qed

text \<open>And a mount point changes its own entry only.\<close>

interpretation oth: stable_send "\<lambda>s. \<forall>k. k \<noteq> key \<longrightarrow> Sessions s k = X k" for key :: string and X
  by unfold_locales auto

lemma MountPoint_own_entry:
  "keeps (\<lambda>s. \<forall>k. k \<noteq> GetNamespacedName obj \<longrightarrow> Sessions s k = X k) (manageCleanUpLogic_MountPoint e obj)"
  "keeps (\<lambda>s. \<forall>k. k \<noteq> GetNamespacedName obj \<longrightarrow> Sessions s k = X k) (manageOperatorLogic_MountPoint e obj)"
proof -
  let ?I = "\<lambda>s. \<forall>k. k \<noteq> GetNamespacedName obj \<longrightarrow> Sessions s k = X k"
  have alloc: "keeps ?I (NewSession e t)" for t
    unfolding NewSession_def ReceiveHello_def alloc_session_def
    by (intro oth.st_rules keeps_Transport oth.st_world keeps_modify; (assumption | simp))
  have dial: "keeps ?I (dial_MountPoint e obj)"
    unfolding dial_MountPoint_def DialSSH_def DialSSHTimeout_def
    by (intro oth.st_rules keeps_Transport oth.st_world alloc; (assumption | simp))
  have hello: "keeps ?I (SendHello e r h)" for r h
    unfolding SendHello_def update_session_def
    by (intro oth.quiet_rules oth.keeps_Transport_Send_st keeps_modify; (assumption | simp))
  show "keeps ?I (manageCleanUpLogic_MountPoint e obj)"
    unfolding manageCleanUpLogic_MountPoint_def Session_Close_def
    by (intro oth.st_rules keeps_close_or_kill[OF oth.stable_send_axioms] keeps_Transport oth.st_world keeps_session_of keeps_modify; (assumption | simp))
  show "keeps ?I (manageOperatorLogic_MountPoint e obj)"
    unfolding manageOperatorLogic_MountPoint_def Let_def
    by (intro oth.st_rules dial hello keeps_modify; (assumption | simp))
qed

lemma Reconcile_MountPoint_own_entry:
  assumes "Sessions (snd (Reconcile_MountPoint e req s)) key \<noteq> Sessions s key"
  shows "\<exists>obj w. k_Get (mountpoints e) req (world s) = (Inr obj, w) \<and> HasFinalizer obj mountpointFinalizer \<and>
    GetNamespacedName obj = key"
proof -
  let ?r = "newMountPointReconciler e"
  have q: "quiet (\<lambda>u. Sessions u key = Sessions s key)" by unfold_locales simp_all
  obtain obj w where obj: "k_Get (rc_client ?r) req (world s) = (Inr obj, w)" "HasFinalizer obj mountpointFinalizer"
    using mp.fin_guarded[OF q, of s e req] assms unfolding Reconcile_MountPoint_def by blast
  let ?I = "\<lambda>u. \<forall>k. k \<noteq> GetNamespacedName obj \<longrightarrow> Sessions u k = Sessions s k"
  have "?I (snd (Reconcile_MountPoint e req s))"
    unfolding Reconcile_MountPoint_def
    by (rule mp.fin_keeps[OF oth.quiet_axioms]) (use obj MountPoint_own_entry in auto)
  then have "GetNamespacedName obj = key" using assms by metis
  with obj show ?thesis by (auto simp: newMountPointReconciler_def)
qed

section \<open>A state that is reached\<close>

text \<open>After the first reconciliation of the example mount point the operator has its session.\<close>

lemma example_reached: "\<exists>t. reachable example_env' t \<and> Sessions t ''ns/m'' \<noteq> None"
proof -
  let ?s = "restart example_state"
  obtain res t where "Reconcile_MountPoint example_env' example_req ?s = (Ret res, t)" "Sessions t ''ns/m'' = Some (next_sref ?s)"
    using example_MountPoint_reconciles by blast
  moreover from this(1) have "op_step example_env' ?s t"
    by (intro op_step.reconciled[of example_env' KMountPoint]) simp
  ultimately show ?thesis using reachable.step[OF reachable.boot] by auto
qed

lemma example_honest: "honest_Get (mountpoints example_env')"
  by (simp add: honest_Get_def example_env'_def example_finalized_def AddFinalizer_def Let_def example_objects)

section \<open>Properties\<close>

text \<open>
  C1: in every state the operator can reach, through any sequence of reconciliations of the ten kinds,
  messages from devices, changes of the world, crashes and restarts, the session table has no dangling
  reference, every registered reply callback owns an empty channel of its own, and no listener can be
  blocked by the next message, whatever it is.
\<close>

theorem reachable_states_safe:
  assumes "reachable e s"
  shows "heap_wf s \<and> chan_inv s \<and> fst (listen_read e i r s) \<noteq> Abort Blocked"
proof -
  have "op_inv s" using assms by (rule reachable_inv)
  then show ?thesis using unblocked_listen_read[of e i r] by (simp add: op_inv_def unblocked_def)
qed

theorem reachable_states_safe_witness:
  "\<exists>t. Sessions t ''ns/m'' \<noteq> None \<and> heap_wf t \<and> chan_inv t \<and>
     fst (listen_read example_env' 0 (ReadData ''<rpc-reply'') t) \<noteq> Abort Blocked"
proof -
  obtain t where t: "reachable example_env' t" "Sessions t ''ns/m'' \<noteq> None" using example_reached by blast
  from reachable_states_safe[OF t(1)] t(2) show ?thesis by blast
qed

text \<open>
  C14: the check that every operation starts with is enough: in every reachable state, if the API server
  returns the objects it is asked for and \<open>CheckMountPointExists\<close> accepts the mount point of a resource,
  then the lookup of the session by the resource's mount point gives a session object that exists. No
  operation that passed its validation dereferences a nil session in that state.
\<close>

theorem valid_operation_has_session:
  assumes "reachable e s" and "honest_Get (mountpoints e)"
    and "CheckMountPointExists e \<lparr>nn_Namespace = om_Namespace (cr_Meta obj), nn_Name = mountpoint\<rparr> s = (Ret True, t)"
  shows "\<exists>i x. Sessions t (GetMountPointNamespacedName obj mountpoint) = Some i \<and> heap t i = Some x"
proof -
  have t: "mountpoint_ready e (om_Namespace (cr_Meta obj)) mountpoint s" "Sessions t = Sessions s" "heap t = heap s"
    using assms(3) by (auto simp: CheckMountPointExists_def mountpoint_ready_def ext_def gbind_def split: sum.splits prod.splits)
  have "heap_wf s" using reachable_inv[OF assms(1)] by (simp add: op_inv_def)
  moreover obtain i where "Sessions s (GetMountPointNamespacedName obj mountpoint) = Some i"
    using mountpoint_ready_session[OF assms(2) t(1)] by auto
  ultimately show ?thesis using t by (fastforce simp: heap_wf_def)
qed

theorem valid_operation_has_session_witness:
  "\<exists>s t i x. reachable example_env' s \<and>
     CheckMountPointExists example_env' \<lparr>nn_Namespace = om_Namespace (cr_Meta example_Lock), nn_Name = ''m''\<rparr> s = (Ret True, t) \<and>
     Sessions t (GetMountPointNamespacedName example_Lock ''m'') = Some i \<and> heap t i = Some x"
proof -
  obtain s where s: "reachable example_env' s" "Sessions s ''ns/m'' \<noteq> None" using example_reached by blast
  have "CheckMountPointExists example_env' \<lparr>nn_Namespace = om_Namespace (cr_Meta example_Lock), nn_Name = ''m''\<rparr> s =
      (Ret True, s\<lparr>world := ()\<rparr>)"
    using s(2) by (simp add: CheckMountPointExists_def ext_def gbind_def example_env'_def example_finalized_def AddFinalizer_def Let_def
        example_objects example_names)
  from valid_operation_has_session[OF s(1) example_honest this] this s(1) show ?thesis by blast
qed

text \<open>
  C15: the session of a mount point is not disturbed by what happens to other resources. If a step of the
  operator (a reconciliation of any kind, a message from a device, a change of the world, a crash) changes
  the entry of the session table under some key, then either the step was a crash, in which a reconciliation
  or a listener ended with a panic or a fatal error and the process started again without memory, or the
  step reconciled the very \<open>MountPoint\<close> that the key names, and its object carried the finalizer.
\<close>

theorem session_entry_changes:
  assumes "op_step e s t" and "Sessions t key \<noteq> Sessions s key"
  shows "(\<exists>x u. x \<noteq> Blocked \<and> t = restart u \<and>
      ((\<exists>k req. reconcile_kind e k req s = (Abort x, u)) \<or> (\<exists>i rd. listen_read e i rd s = (Abort x, u)))) \<or>
    (\<exists>req r obj w. reconcile_kind e KMountPoint req s = (Ret r, t) \<and> k_Get (mountpoints e) req (world s) = (Inr obj, w) \<and>
       HasFinalizer obj mountpointFinalizer \<and> GetNamespacedName obj = key)"
  using assms(1)
proof (cases rule: op_stepE)
  case (reconciled k req r)
  then have "k \<noteq> KMountPoint \<Longrightarrow> Sessions t = Sessions s" using keepsD[OF reconcile_sessions[of k "Sessions s" e req], of s] by simp
  then have k: "k = KMountPoint" using assms(2) by metis
  have "Sessions (snd (Reconcile_MountPoint e req s)) key \<noteq> Sessions s key" using reconciled k assms(2) by simp
  from Reconcile_MountPoint_own_entry[OF this] reconciled k show ?thesis by blast
next
  case (listened i rd)
  then have "Sessions t = Sessions s" using keepsD[OF tbl.keeps_listen_read[where X = "Sessions s"], of s e i rd] by simp
  with assms(2) show ?thesis by simp
next
  case (world_moves w)
  with assms(2) show ?thesis by simp
qed blast+

theorem session_entry_changes_witness:
  "\<exists>t req obj w. op_step example_env' (restart example_state) t \<and> Sessions t ''ns/m'' \<noteq> None \<and>
     k_Get (mountpoints example_env') req () = (Inr obj, w) \<and> HasFinalizer obj mountpointFinalizer \<and> GetNamespacedName obj = ''ns/m''"
proof -
  let ?s = "restart example_state"
  obtain res t where run: "Reconcile_MountPoint example_env' example_req ?s = (Ret res, t)" "Sessions t ''ns/m'' = Some (next_sref ?s)"
    using example_MountPoint_reconciles by blast
  have st: "op_step example_env' ?s t"
    by (rule op_step.reconciled[of example_env' KMountPoint example_req _ res]) (simp add: run)
  have ne: "Sessions t ''ns/m'' \<noteq> Sessions ?s ''ns/m''" using run(2) by (simp add: restart_def)
  have "t \<noteq> restart u" for u using run(2) by (auto simp: restart_def)
  with session_entry_changes[OF st ne] obtain req obj w where
    "k_Get (mountpoints example_env') req (world ?s) = (Inr obj, w)" "HasFinalizer obj mountpointFinalizer" "GetNamespacedName obj = ''ns/m''"
    by blast
  with st run(2) show ?thesis by (intro exI[of _ t] exI[of _ req] exI[of _ obj] exI[of _ w]) simp
qed

text \<open>
  Two mount points share a session only if they are the same object: the keys under which two
  resources look their mount points up are equal exactly when namespace and mount point are, for
  namespaces without a slash, which Kubernetes names never have.
\<close>

theorem session_keys_distinct:
  assumes "CHR ''/'' \<notin> set (om_Namespace (cr_Meta x))" "CHR ''/'' \<notin> set (om_Namespace (cr_Meta y))"
  shows "GetMountPointNamespacedName x a = GetMountPointNamespacedName y b \<longleftrightarrow>
    om_Namespace (cr_Meta x) = om_Namespace (cr_Meta y) \<and> a = b"
  using GetMountPointNamespacedName_inject[OF _ assms] by (auto simp: GetMountPointNamespacedName_def)

end
