(* ===== verification/Command_Line.thy ===== *)
theory Command_Line
  imports Prelude
begin

text \<open>
  The command line of the operator (\<open>main.go\<close>): the three flags that \<open>main\<close> defines, with their
  defaults, and the parser of Go's \<open>flag\<close> package that reads them. The flags that imported packages
  define on the same command line (those of the logger) are a parameter.
\<close>

section \<open>The flags\<close>

text \<open>The variables that \<open>main\<close> binds to its flags, and the state \<open>'z\<close> of the other flags.\<close>

record 'z flag_values =
  fv_metricsAddr :: string
  fv_probeAddr :: string
  fv_enableLeaderElection :: bool
  fv_other :: 'z

text \<open>
  The flags of other packages: whether a name is one, and then whether it is boolean; and what setting
  it to a value does, with an error message if the value is refused.
\<close>

record 'z other_flags =
  of_defined :: "string \<Rightarrow> bool option"
  of_Set :: "string \<Rightarrow> string \<Rightarrow> 'z \<Rightarrow> string + 'z"

text \<open>The state before parsing: every variable holds the default its flag was defined with.\<close>

definition flag_defaults :: "'z \<Rightarrow> 'z flag_values" where
  "flag_defaults z = \<lparr>fv_metricsAddr = '':8080'', fv_probeAddr = '':8081'', fv_enableLeaderElection = False, fv_other = z\<rparr>"

text \<open>The flag of a name, as \<open>formal\<close> holds it: \<open>Some True\<close> for a boolean one.\<close>

definition flag_formal :: "'z other_flags \<Rightarrow> string \<Rightarrow> bool option" where
  "flag_formal o' name =
     (if name = ''metrics-bind-address'' \<or> name = ''health-probe-bind-address'' then Some False
      else if name = ''leader-elect'' then Some True
      else of_defined o' name)"

definition ParseBool :: "string \<Rightarrow> bool option" where
  "ParseBool s = (if s \<in> {''1'', ''t'', ''T'', ''TRUE'', ''true'', ''True''} then Some True
     else if s \<in> {''0'', ''f'', ''F'', ''FALSE'', ''false'', ''False''} then Some False else None)"

definition flag_Set :: "'z other_flags \<Rightarrow> string \<Rightarrow> string \<Rightarrow> 'z flag_values \<Rightarrow> string + 'z flag_values" where
  "flag_Set o' name val f =
     (if name = ''metrics-bind-address'' then Inr (f\<lparr>fv_metricsAddr := val\<rparr>)
      else if name = ''health-probe-bind-address'' then Inr (f\<lparr>fv_probeAddr := val\<rparr>)
      else if name = ''leader-elect'' then
        (case ParseBool val of Some b \<Rightarrow> Inr (f\<lparr>fv_enableLeaderElection := b\<rparr>) | None \<Rightarrow> Inl ''parse error'')
      else map_sum id (\<lambda>z. f\<lparr>fv_other := z\<rparr>) (of_Set o' name val (fv_other f)))"

section \<open>The parser\<close>

text \<open>A flag that has its value attached: the name ends before the first equals sign that is not its first character.\<close>

definition split_flag :: "string \<Rightarrow> string \<times> string option" where
  "split_flag name = (case Index (tl name) ''='' of
     None \<Rightarrow> (name, None)
   | Some i \<Rightarrow> (take (Suc i) name, Some (drop (i + 2) name)))"

datatype flag_error = ErrHelp | BadSyntax string | NotDefined string | NeedsArgument string
  | InvalidBoolean string string | InvalidValue string string

text \<open>
  \<open>FlagSet.Parse\<close>: one flag after the other, until an argument that is no flag, or after \<open>--\<close>; the
  rest are the program's arguments.
\<close>

text \<open>What the first argument is: not a flag, the end mark, malformed, or a flag's name with its value.\<close>

datatype arg = NoFlag | EndMark | Malformed | FlagArg string "string option"

definition read_arg :: "string \<Rightarrow> arg" where
  "read_arg s =
     (if length s < 2 \<or> s ! 0 \<noteq> CHR ''-'' then NoFlag
      else if s = ''--'' then EndMark
      else let name = (if s ! 1 = CHR ''-'' then drop 2 s else drop 1 s) in
        if name = [] \<or> hd name = CHR ''-'' \<or> hd name = CHR ''='' then Malformed
        else (case split_flag name of (n, v) \<Rightarrow> FlagArg n v))"

function flag_Parse :: "'z other_flags \<Rightarrow> string list \<Rightarrow> 'z flag_values \<Rightarrow> flag_error + string list \<times> 'z flag_values" where
  "flag_Parse o' [] f = Inr ([], f)"
| "flag_Parse o' (s # args) f = (case read_arg s of
     NoFlag \<Rightarrow> Inr (s # args, f)
   | EndMark \<Rightarrow> Inr (args, f)
   | Malformed \<Rightarrow> Inl (BadSyntax s)
   | FlagArg name given \<Rightarrow> (case flag_formal o' name of
       None \<Rightarrow> if name = ''help'' \<or> name = ''h'' then Inl ErrHelp
               else Inl (NotDefined name)
     | Some True \<Rightarrow> (let v = (case given of Some v \<Rightarrow> v | None \<Rightarrow> ''true'') in case flag_Set o' name v f of
         Inl err \<Rightarrow> Inl (InvalidBoolean v name)
       | Inr f' \<Rightarrow> flag_Parse o' args f')
     | Some False \<Rightarrow> (case given of
         Some v \<Rightarrow> (case flag_Set o' name v f of
             Inl err \<Rightarrow> Inl (InvalidValue v name)
           | Inr f' \<Rightarrow> flag_Parse o' args f')
       | None \<Rightarrow> (case args of
             [] \<Rightarrow> Inl (NeedsArgument name)
           | v # args' \<Rightarrow> (case flag_Set o' name v f of
               Inl err \<Rightarrow> Inl (InvalidValue v name)
             | Inr f' \<Rightarrow> flag_Parse o' args' f')))))"
  by pat_completeness auto
termination by (relation "measure (\<lambda>(_, args, _). length args)") auto

declare flag_Parse.simps(2) [simp del]

section \<open>Settings of the operator's flags\<close>

text \<open>The ways to write a flag: with its value attached, or as an argument of its own (none for a true boolean).\<close>

datatype style = Attached | Separate

datatype setting = MetricsBindAddress string | HealthProbeBindAddress string | LeaderElect bool

fun render_setting :: "style \<Rightarrow> setting \<Rightarrow> string list" where
  "render_setting Attached (MetricsBindAddress a) = [''--metrics-bind-address='' @ a]"
| "render_setting Separate (MetricsBindAddress a) = [''--metrics-bind-address'', a]"
| "render_setting Attached (HealthProbeBindAddress a) = [''--health-probe-bind-address='' @ a]"
| "render_setting Separate (HealthProbeBindAddress a) = [''--health-probe-bind-address'', a]"
| "render_setting Attached (LeaderElect b) = [''--leader-elect='' @ (if b then ''true'' else ''false'')]"
| "render_setting Separate (LeaderElect b) = (if b then [''--leader-elect''] else [''--leader-elect=false''])"

fun apply_setting :: "setting \<Rightarrow> 'z flag_values \<Rightarrow> 'z flag_values" where
  "apply_setting (MetricsBindAddress a) f = f\<lparr>fv_metricsAddr := a\<rparr>"
| "apply_setting (HealthProbeBindAddress a) f = f\<lparr>fv_probeAddr := a\<rparr>"
| "apply_setting (LeaderElect b) f = f\<lparr>fv_enableLeaderElection := b\<rparr>"

lemma read_flags [simplified, simp]:
  "read_arg (''--metrics-bind-address='' @ a) = FlagArg ''metrics-bind-address'' (Some a)"
  "read_arg ''--metrics-bind-address'' = FlagArg ''metrics-bind-address'' None"
  "read_arg (''--health-probe-bind-address='' @ a) = FlagArg ''health-probe-bind-address'' (Some a)"
  "read_arg ''--health-probe-bind-address'' = FlagArg ''health-probe-bind-address'' None"
  "read_arg (''--leader-elect='' @ a) = FlagArg ''leader-elect'' (Some a)"
  "read_arg ''--leader-elect'' = FlagArg ''leader-elect'' None"
  "read_arg ''--leader-elect=false'' = FlagArg ''leader-elect'' (Some ''false'')"
  by (simp_all add: read_arg_def split_flag_def)

lemma flag_Parse_setting:
  "flag_Parse o' (render_setting st x @ args) f = flag_Parse o' args (apply_setting x f)"
  by (cases x; cases st)
    (simp_all add: flag_Parse.simps(2) flag_formal_def flag_Set_def ParseBool_def)

text \<open>Any sequence of settings is applied from left to right, so the last value of a flag wins.\<close>

lemma flag_Parse_settings:
  "flag_Parse o' (concat (map (\<lambda>(st, x). render_setting st x) xs) @ args) f =
   flag_Parse o' args (fold apply_setting (map snd xs) f)"
  by (induction xs arbitrary: f) (auto simp: flag_Parse_setting)

end
