(* ===== verification/Manager.thy ===== *)
theory Manager
  imports Operator Command_Line
begin

text \<open>
  \<open>main.go\<close> and the \<open>Add...\<close> functions of the controllers: how the process is put together. The
  controller runtime's manager and the search for the configuration of the cluster are parameters, a
  record of the functions that \<open>main\<close> calls, over an abstract state; the model records the calls and the
  messages that are logged. Choosing the logger, and its informational messages, are left out.
\<close>

text \<open>The reconciler structs, one per controller, and the method \<open>Reconcile\<close> of each.\<close>

datatype Reconciler = MountPointReconciler
  | LockReconciler
  | UnlockReconciler
  | EditConfigReconciler
  | GetReconciler
  | GetConfigReconciler
  | CommitReconciler
  | RPCReconciler
  | EstablishSubscriptionReconciler
  | CreateSubscriptionReconciler

fun Reconcile :: "'w env \<Rightarrow> Reconciler \<Rightarrow> NamespacedName \<Rightarrow> ('w, Result \<times> gerror option) op" where
  "Reconcile e MountPointReconciler = Reconcile_MountPoint e"
| "Reconcile e LockReconciler = Reconcile_Lock e"
| "Reconcile e UnlockReconciler = Reconcile_Unlock e"
| "Reconcile e EditConfigReconciler = Reconcile_EditConfig e"
| "Reconcile e GetReconciler = Reconcile_Get e"
| "Reconcile e GetConfigReconciler = Reconcile_GetConfig e"
| "Reconcile e CommitReconciler = Reconcile_Commit e"
| "Reconcile e RPCReconciler = Reconcile_RPC e"
| "Reconcile e EstablishSubscriptionReconciler = Reconcile_EstablishSubscription e"
| "Reconcile e CreateSubscriptionReconciler = Reconcile_CreateSubscription e"

text \<open>\<open>client.Get\<close> of an object of a kind: the error, if there is one.\<close>

fun Get_of_kind :: "'w env \<Rightarrow> Kind \<Rightarrow> NamespacedName \<Rightarrow> 'w \<Rightarrow> gerror option \<times> 'w" where
  "Get_of_kind e KMountPoint req w = map_prod (case_sum Some (\<lambda>_. None)) id (k_Get (mountpoints e) req w)"
| "Get_of_kind e KLock req w = map_prod (case_sum Some (\<lambda>_. None)) id (k_Get (locks e) req w)"
| "Get_of_kind e KUnlock req w = map_prod (case_sum Some (\<lambda>_. None)) id (k_Get (unlocks e) req w)"
| "Get_of_kind e KEditConfig req w = map_prod (case_sum Some (\<lambda>_. None)) id (k_Get (editconfigs e) req w)"
| "Get_of_kind e KGet req w = map_prod (case_sum Some (\<lambda>_. None)) id (k_Get (gets_client e) req w)"
| "Get_of_kind e KGetConfig req w = map_prod (case_sum Some (\<lambda>_. None)) id (k_Get (getconfigs e) req w)"
| "Get_of_kind e KCommit req w = map_prod (case_sum Some (\<lambda>_. None)) id (k_Get (commits e) req w)"
| "Get_of_kind e KRPC req w = map_prod (case_sum Some (\<lambda>_. None)) id (k_Get (rpcs e) req w)"
| "Get_of_kind e KEstablishSubscription req w = map_prod (case_sum Some (\<lambda>_. None)) id (k_Get (establishsubscriptions e) req w)"
| "Get_of_kind e KCreateSubscription req w = map_prod (case_sum Some (\<lambda>_. None)) id (k_Get (createsubscriptions e) req w)"

text \<open>\<open>*rest.Config\<close>, a pointer that \<open>main\<close> only passes on.\<close>

type_synonym rest_Config = handle

record ManagerOptions =
  mo_MetricsBindAddress :: string
  mo_Port :: nat
  mo_HealthProbeBindAddress :: string
  mo_LeaderElection :: bool
  mo_LeaderElectionID :: string
  mo_LeaderElectionResourceLock :: string

record 'm manager_api =
  ma_GetConfig :: "'m \<Rightarrow> (gerror + rest_Config) \<times> 'm"
  ma_NewManager :: "rest_Config \<Rightarrow> ManagerOptions \<Rightarrow> 'm \<Rightarrow> gerror option \<times> 'm"
  ma_New :: "string \<Rightarrow> Reconciler \<Rightarrow> 'm \<Rightarrow> gerror option \<times> 'm"
  ma_Watch :: "string \<Rightarrow> Kind \<Rightarrow> 'm \<Rightarrow> gerror option \<times> 'm"
  ma_AddHealthzCheck :: "string \<Rightarrow> 'm \<Rightarrow> gerror option \<times> 'm"
  ma_AddReadyzCheck :: "string \<Rightarrow> 'm \<Rightarrow> gerror option \<times> 'm"
  ma_Start :: "'m \<Rightarrow> gerror option \<times> 'm"

datatype call = CGetConfig | CNewManager rest_Config ManagerOptions | CNew string Reconciler | CWatch string Kind
  | CAddHealthzCheck string | CAddReadyzCheck string | CStart

record 'm boot_state =
  su_calls :: "call list"
  su_log :: "string list"
  su_mgr :: 'm

definition call :: "call \<Rightarrow> ('m \<Rightarrow> gerror option \<times> 'm) \<Rightarrow> ('m boot_state, gerror option) go" where
  "call c f s = (case f (su_mgr s) of (err, m) \<Rightarrow> (Ret err, s\<lparr>su_calls := su_calls s @ [c], su_mgr := m\<rparr>))"

definition setupLog_Error :: "string \<Rightarrow> ('m boot_state, unit) go" where
  "setupLog_Error msg = modify (\<lambda>s. s\<lparr>su_log := su_log s @ [msg]\<rparr>)"

text \<open>\<open>setupLog.Error(err, msg)\<close> followed by \<open>os.Exit(1)\<close>.\<close>

definition exit_1 :: "string \<Rightarrow> ('m boot_state, unit) go" where
  "exit_1 msg = gthen (setupLog_Error msg) (abort (Fatal ''exit status 1''))"

text \<open>\<open>ctrl.GetConfigOrDie\<close>: the configuration of the cluster, or the end of the process.\<close>

definition GetConfigOrDie :: "'m manager_api \<Rightarrow> ('m boot_state, rest_Config) go" where
  "GetConfigOrDie mgr s = (case ma_GetConfig mgr (su_mgr s) of (r, m) \<Rightarrow>
     (let s' = s\<lparr>su_calls := su_calls s @ [CGetConfig], su_mgr := m\<rparr> in
      case r of
        Inr config \<Rightarrow> (Ret config, s')
      | Inl err \<Rightarrow> gthen (setupLog_Error ''unable to get kubeconfig'') (abort (Fatal ''exit status 1'')) s'))"

section \<open>Adding a controller\<close>

text \<open>The body that the ten \<open>add...\<close> functions share: create the controller, then watch its kind.\<close>

definition add_controller :: "'m manager_api \<Rightarrow> string \<Rightarrow> Reconciler \<Rightarrow> Kind \<Rightarrow> ('m boot_state, gerror option) go" where
  "add_controller mgr name r k =
     gbind (call (CNew name r) (ma_New mgr name r)) (\<lambda>err. case err of
       Some x \<Rightarrow> ret (Some x)
     | None \<Rightarrow> gbind (call (CWatch name k) (ma_Watch mgr name k)) (\<lambda>err. case err of
         Some x \<Rightarrow> ret (Some x)
       | None \<Rightarrow> ret None))"

definition addMountPoint :: "'m manager_api \<Rightarrow> Reconciler \<Rightarrow> ('m boot_state, gerror option) go" where
  "addMountPoint mgr r = add_controller mgr mountPointControllerName r KMountPoint"
definition addLock :: "'m manager_api \<Rightarrow> Reconciler \<Rightarrow> ('m boot_state, gerror option) go" where
  "addLock mgr r = add_controller mgr lockControllerName r KLock"
definition addUnlock :: "'m manager_api \<Rightarrow> Reconciler \<Rightarrow> ('m boot_state, gerror option) go" where
  "addUnlock mgr r = add_controller mgr unlockControllerName r KUnlock"
definition addEditConfig :: "'m manager_api \<Rightarrow> Reconciler \<Rightarrow> ('m boot_state, gerror option) go" where
  "addEditConfig mgr r = add_controller mgr editConfigControllerName r KEditConfig"
definition addGet :: "'m manager_api \<Rightarrow> Reconciler \<Rightarrow> ('m boot_state, gerror option) go" where
  "addGet mgr r = add_controller mgr getControllerName r KGet"
definition addGetConfig :: "'m manager_api \<Rightarrow> Reconciler \<Rightarrow> ('m boot_state, gerror option) go" where
  "addGetConfig mgr r = add_controller mgr getConfigControllerName r KGetConfig"
definition addCommit :: "'m manager_api \<Rightarrow> Reconciler \<Rightarrow> ('m boot_state, gerror option) go" where
  "addCommit mgr r = add_controller mgr commitControllerName r KCommit"
definition addRPC :: "'m manager_api \<Rightarrow> Reconciler \<Rightarrow> ('m boot_state, gerror option) go" where
  "addRPC mgr r = add_controller mgr rpcControllerName r KRPC"
definition addEstablishSubscription :: "'m manager_api \<Rightarrow> Reconciler \<Rightarrow> ('m boot_state, gerror option) go" where
  "addEstablishSubscription mgr r = add_controller mgr establishSubscriptionControllerName r KEstablishSubscription"
definition addCreateSubscription :: "'m manager_api \<Rightarrow> Reconciler \<Rightarrow> ('m boot_state, gerror option) go" where
  "addCreateSubscription mgr r = add_controller mgr createSubscriptionControllerName r KCreateSubscription"

text \<open>The exported functions, each with the reconciler it constructs.\<close>

definition AddMountPoint :: "'m manager_api \<Rightarrow> ('m boot_state, gerror option) go" where
  "AddMountPoint mgr = addMountPoint mgr MountPointReconciler"
definition AddLock :: "'m manager_api \<Rightarrow> ('m boot_state, gerror option) go" where
  "AddLock mgr = addLock mgr LockReconciler"
definition AddUnlock :: "'m manager_api \<Rightarrow> ('m boot_state, gerror option) go" where
  "AddUnlock mgr = addUnlock mgr UnlockReconciler"
definition AddEditConfig :: "'m manager_api \<Rightarrow> ('m boot_state, gerror option) go" where
  "AddEditConfig mgr = addEditConfig mgr EditConfigReconciler"
definition AddGet :: "'m manager_api \<Rightarrow> ('m boot_state, gerror option) go" where
  "AddGet mgr = addGet mgr GetReconciler"
definition AddGetConfig :: "'m manager_api \<Rightarrow> ('m boot_state, gerror option) go" where
  "AddGetConfig mgr = addGetConfig mgr GetConfigReconciler"
definition AddCommit :: "'m manager_api \<Rightarrow> ('m boot_state, gerror option) go" where
  "AddCommit mgr = addCommit mgr CommitReconciler"
definition AddRPC :: "'m manager_api \<Rightarrow> ('m boot_state, gerror option) go" where
  "AddRPC mgr = addRPC mgr RPCReconciler"
definition AddEstablishSubscription :: "'m manager_api \<Rightarrow> ('m boot_state, gerror option) go" where
  "AddEstablishSubscription mgr = addEstablishSubscription mgr EstablishSubscriptionReconciler"
definition AddCreateSubscription :: "'m manager_api \<Rightarrow> ('m boot_state, gerror option) go" where
  "AddCreateSubscription mgr = addCreateSubscription mgr CreateSubscriptionReconciler"

section \<open>main\<close>

text \<open>An error of an \<open>Add...\<close> call is logged and nothing else.\<close>

definition or_log :: "string \<Rightarrow> ('m boot_state, gerror option) go \<Rightarrow> ('m boot_state, unit) go" where
  "or_log controller m = gbind m (\<lambda>err. case err of
     Some _ \<Rightarrow> setupLog_Error (''unable to create controller '' @ controller)
   | None \<Rightarrow> ret ())"

definition main_options :: "'z flag_values \<Rightarrow> ManagerOptions" where
  "main_options f = \<lparr>mo_MetricsBindAddress = fv_metricsAddr f, mo_Port = 9443,
     mo_HealthProbeBindAddress = fv_probeAddr f, mo_LeaderElection = fv_enableLeaderElection f,
     mo_LeaderElectionID = ''6c6d728d.openshift-telco.io'', mo_LeaderElectionResourceLock = ''configmaps''\<rparr>"

text \<open>
  \<open>flag.Parse\<close> on the process's command line, which exits on an error: with status 0 after a request for
  help, with status 2 otherwise.
\<close>

definition CommandLine_Parse :: "'z other_flags \<Rightarrow> string list \<Rightarrow> 'z flag_values \<Rightarrow> ('m boot_state, 'z flag_values) go" where
  "CommandLine_Parse o' args f = (case flag_Parse o' args f of
     Inr (_, f') \<Rightarrow> ret f'
   | Inl ErrHelp \<Rightarrow> abort (Fatal ''exit status 0'')
   | Inl _ \<Rightarrow> abort (Fatal ''exit status 2''))"

definition main :: "'m manager_api \<Rightarrow> 'z other_flags \<Rightarrow> 'z \<Rightarrow> string list \<Rightarrow> ('m boot_state, unit) go" where
  "main mgr o' z args =
     gbind (CommandLine_Parse o' args (flag_defaults z)) (\<lambda>f.
     (let opts = main_options f in
      gbind (GetConfigOrDie mgr) (\<lambda>config.
      gbind (call (CNewManager config opts) (ma_NewManager mgr config opts)) (\<lambda>err.
      gthen (if err \<noteq> None then exit_1 ''unable to start manager'' else ret ())
      (gthen (or_log ''MountPoint'' (AddMountPoint mgr))
      (gthen (or_log ''Lock'' (AddLock mgr))
      (gthen (or_log ''Unlock'' (AddUnlock mgr))
      (gthen (or_log ''EditConfig'' (AddEditConfig mgr))
      (gthen (or_log ''Get'' (AddGet mgr))
      (gthen (or_log ''GetConfig'' (AddGetConfig mgr))
      (gthen (or_log ''Commit'' (AddCommit mgr))
      (gthen (or_log ''RPC'' (AddRPC mgr))
      (gthen (or_log ''EstablishSubscription'' (AddEstablishSubscription mgr))
      (gthen (or_log ''CreateSubscription'' (AddCreateSubscription mgr))
      (gbind (call (CAddHealthzCheck ''healthz'') (ma_AddHealthzCheck mgr ''healthz'')) (\<lambda>err.
       gthen (if err \<noteq> None then exit_1 ''unable to set up health check'' else ret ())
      (gbind (call (CAddReadyzCheck ''readyz'') (ma_AddReadyzCheck mgr ''readyz'')) (\<lambda>err.
       gthen (if err \<noteq> None then exit_1 ''unable to set up ready check'' else ret ())
      (gbind (call CStart (ma_Start mgr)) (\<lambda>err.
       if err \<noteq> None then exit_1 ''problem running manager'' else ret ()))))))))))))))))))))"

section \<open>Which controllers are created, and what they watch\<close>

fun created :: "call list \<Rightarrow> (string \<times> Reconciler) list" where
  "created [] = []"
| "created (CNew n r # cs) = (n, r) # created cs"
| "created (_ # cs) = created cs"

fun watched :: "call list \<Rightarrow> (string \<times> Kind) list" where
  "watched [] = []"
| "watched (CWatch n k # cs) = (n, k) # watched cs"
| "watched (_ # cs) = watched cs"

lemma created_append [simp]: "created (xs @ ys) = created xs @ created ys"
  by (induction xs rule: created.induct) auto

lemma watched_append [simp]: "watched (xs @ ys) = watched xs @ watched ys"
  by (induction xs rule: watched.induct) auto

text \<open>
  A controller by its name, its reconciler and the kind it watches. \<open>fetches e r k\<close>: the object that the
  reconciler \<open>r\<close> fetches for a request is one of kind \<open>k\<close>, for when the API server has none of that kind and
  name, the reconciliation ends there.
\<close>

type_synonym controller = "string \<times> Reconciler \<times> Kind"

definition create_of :: "controller \<Rightarrow> string \<times> Reconciler" where
  "create_of c = (case c of (n, r, k) \<Rightarrow> (n, r))"

definition watch_of :: "controller \<Rightarrow> string \<times> Kind" where
  "watch_of c = (case c of (n, r, k) \<Rightarrow> (n, k))"

definition fetches :: "'w env \<Rightarrow> Reconciler \<Rightarrow> Kind \<Rightarrow> bool" where
  "fetches e r k \<longleftrightarrow> (\<forall>req s x w. Get_of_kind e k req (world s) = (Some x, w) \<longrightarrow> IsNotFound x \<longrightarrow>
     Reconcile e r req s = (Ret (zero_Result, None), s\<lparr>world := w\<rparr>))"

text \<open>
  \<open>creates mgr cs m\<close>: \<open>m\<close> returns, it has asked for exactly the controllers \<open>cs\<close>, each of which has been told to
  watch nothing or its kind, and all of them have been told to watch, without an error, if the manager
  refuses no controller and no watch.
\<close>

definition refuses_none :: "'m manager_api \<Rightarrow> bool" where
  "refuses_none mgr \<longleftrightarrow> (\<forall>n r m. fst (ma_New mgr n r m) = None) \<and> (\<forall>n k m. fst (ma_Watch mgr n k m) = None)"

definition creates :: "'m manager_api \<Rightarrow> controller list \<Rightarrow> ('m boot_state, unit) go \<Rightarrow> bool" where
  "creates mgr cs m \<longleftrightarrow> (\<forall>s. \<exists>t ds. m s = (Ret (), t) \<and> su_calls t = su_calls s @ ds \<and> created ds = map create_of cs \<and>
     set (watched ds) \<subseteq> set (map watch_of cs) \<and>
     (refuses_none mgr \<longrightarrow> watched ds = map watch_of cs \<and> su_log t = su_log s))"

lemma createsE:
  assumes "creates mgr cs m"
  obtains t ds where "m s = (Ret (), t)" "su_calls t = su_calls s @ ds" "created ds = map create_of cs"
    "set (watched ds) \<subseteq> set (map watch_of cs)" "refuses_none mgr \<longrightarrow> watched ds = map watch_of cs \<and> su_log t = su_log s"
  using assms unfolding creates_def by blast

lemma creates_add: "creates mgr [(n, r, k)] (or_log c (add_controller mgr n r k))"
  unfolding creates_def
proof
  fix s :: "'a boot_state"
  obtain e1 m1 where 1: "ma_New mgr n r (su_mgr s) = (e1, m1)" by fastforce
  obtain e2 m2 where 2: "ma_Watch mgr n k m1 = (e2, m2)" by fastforce
  have none: "refuses_none mgr \<Longrightarrow> e1 = None \<and> e2 = None" using 1 2 unfolding refuses_none_def by (metis fst_conv)
  show "\<exists>t ds. or_log c (add_controller mgr n r k) s = (Ret (), t) \<and> su_calls t = su_calls s @ ds \<and>
      created ds = map create_of [(n, r, k)] \<and> set (watched ds) \<subseteq> set (map watch_of [(n, r, k)]) \<and>
      (refuses_none mgr \<longrightarrow> watched ds = map watch_of [(n, r, k)] \<and> su_log t = su_log s)"
    using none by (cases e1; cases e2)
      (auto simp: or_log_def add_controller_def gbind_def call_def setupLog_Error_def watch_of_def create_of_def 1 2)
qed

lemma creates_then:
  assumes "creates mgr xs m" "creates mgr ys n"
  shows "creates mgr (xs @ ys) (gthen m n)"
  unfolding creates_def
proof
  fix s
  obtain t ds where t: "m s = (Ret (), t)" "su_calls t = su_calls s @ ds" "created ds = map create_of xs"
    "set (watched ds) \<subseteq> set (map watch_of xs)" "refuses_none mgr \<longrightarrow> watched ds = map watch_of xs \<and> su_log t = su_log s"
    using assms(1) by (rule createsE)
  obtain u es where u: "n t = (Ret (), u)" "su_calls u = su_calls t @ es" "created es = map create_of ys"
    "set (watched es) \<subseteq> set (map watch_of ys)" "refuses_none mgr \<longrightarrow> watched es = map watch_of ys \<and> su_log u = su_log t"
    using assms(2) by (rule createsE)
  have "gthen m n s = (Ret (), u)" using t(1) u(1) by (simp add: gthen_def gbind_def)
  then show "\<exists>t ds. gthen m n s = (Ret (), t) \<and> su_calls t = su_calls s @ ds \<and> created ds = map create_of (xs @ ys) \<and>
      set (watched ds) \<subseteq> set (map watch_of (xs @ ys)) \<and>
      (refuses_none mgr \<longrightarrow> watched ds = map watch_of (xs @ ys) \<and> su_log t = su_log s)"
    by (intro exI[of _ u] exI[of _ "ds @ es"]) (use t u in auto)
qed

text \<open>The controllers of the operator, in the order in which \<open>main\<close> adds them.\<close>

definition controllers :: "controller list" where
  "controllers = [(mountPointControllerName, MountPointReconciler, KMountPoint),
     (lockControllerName, LockReconciler, KLock),
     (unlockControllerName, UnlockReconciler, KUnlock),
     (editConfigControllerName, EditConfigReconciler, KEditConfig),
     (getControllerName, GetReconciler, KGet),
     (getConfigControllerName, GetConfigReconciler, KGetConfig),
     (commitControllerName, CommitReconciler, KCommit),
     (rpcControllerName, RPCReconciler, KRPC),
     (establishSubscriptionControllerName, EstablishSubscriptionReconciler, KEstablishSubscription),
     (createSubscriptionControllerName, CreateSubscriptionReconciler, KCreateSubscription)]"

lemma reconcile_rpc_absent:
  assumes "k_Get (rc_client r) req (world s) = (Inl x, w)" "IsNotFound x"
  shows "reconcile_rpc e r zero wrap isValid isInitialized manageOperatorLogic req s = (Ret (zero_Result, None), s\<lparr>world := w\<rparr>)"
  using assms by (simp add: reconcile_rpc_def gbind_def ext_def)

lemma reconcile_finalizing_absent:
  assumes "k_Get (rc_client r) req (world s) = (Inl x, w)" "IsNotFound x"
  shows "reconcile_finalizing e r zero wrap unwrap isValid onInvalid isInitialized finalizer manageCleanUpLogic
     manageOperatorLogic req s = (Ret (zero_Result, None), s\<lparr>world := w\<rparr>)"
  using assms by (simp add: reconcile_finalizing_def gbind_def ext_def)

lemma failed_Get [simp]: "map_prod (case_sum Some (\<lambda>_. None)) id g = (Some x, w) \<longleftrightarrow> g = (Inl x, w)"
  by (cases g; cases "fst g") auto

lemmas absent = reconcile_rpc_absent reconcile_finalizing_absent fetches_def

lemma controllers_fetch: "\<forall>(n, r, k) \<in> set controllers. fetches e r k"
proof -
  have "fetches e MountPointReconciler KMountPoint" by (simp add: absent Reconcile_MountPoint_def newMountPointReconciler_def)
  moreover have "fetches e LockReconciler KLock" by (simp add: absent Reconcile_Lock_def newLockReconciler_def)
  moreover have "fetches e UnlockReconciler KUnlock" by (simp add: absent Reconcile_Unlock_def newUnlockReconciler_def)
  moreover have "fetches e EditConfigReconciler KEditConfig" by (simp add: absent Reconcile_EditConfig_def newEditConfigReconciler_def)
  moreover have "fetches e GetReconciler KGet" by (simp add: absent Reconcile_Get_def newGetReconciler_def)
  moreover have "fetches e GetConfigReconciler KGetConfig" by (simp add: absent Reconcile_GetConfig_def newGetConfigReconciler_def)
  moreover have "fetches e CommitReconciler KCommit" by (simp add: absent Reconcile_Commit_def newCommitReconciler_def)
  moreover have "fetches e RPCReconciler KRPC" by (simp add: absent Reconcile_RPC_def newRPCReconciler_def)
  moreover have "fetches e EstablishSubscriptionReconciler KEstablishSubscription"
    by (simp add: absent Reconcile_EstablishSubscription_def newEstablishSubscriptionReconciler_def)
  moreover have "fetches e CreateSubscriptionReconciler KCreateSubscription"
    by (simp add: absent Reconcile_CreateSubscription_def newCreateSubscriptionReconciler_def)
  ultimately show ?thesis by (simp add: controllers_def)
qed

text \<open>What \<open>main\<close> does with the controllers, and what comes after.\<close>

definition add_all :: "'m manager_api \<Rightarrow> ('m boot_state, unit) go" where
  "add_all mgr =
     gthen (or_log ''MountPoint'' (AddMountPoint mgr))
      (gthen (or_log ''Lock'' (AddLock mgr))
      (gthen (or_log ''Unlock'' (AddUnlock mgr))
      (gthen (or_log ''EditConfig'' (AddEditConfig mgr))
      (gthen (or_log ''Get'' (AddGet mgr))
      (gthen (or_log ''GetConfig'' (AddGetConfig mgr))
      (gthen (or_log ''Commit'' (AddCommit mgr))
      (gthen (or_log ''RPC'' (AddRPC mgr))
      (gthen (or_log ''EstablishSubscription'' (AddEstablishSubscription mgr))
      (or_log ''CreateSubscription'' (AddCreateSubscription mgr))))))))))"

definition serve :: "'m manager_api \<Rightarrow> ('m boot_state, unit) go" where
  "serve mgr =
     gbind (call (CAddHealthzCheck ''healthz'') (ma_AddHealthzCheck mgr ''healthz'')) (\<lambda>err.
       gthen (if err \<noteq> None then exit_1 ''unable to set up health check'' else ret ())
      (gbind (call (CAddReadyzCheck ''readyz'') (ma_AddReadyzCheck mgr ''readyz'')) (\<lambda>err.
       gthen (if err \<noteq> None then exit_1 ''unable to set up ready check'' else ret ())
      (gbind (call CStart (ma_Start mgr)) (\<lambda>err.
       if err \<noteq> None then exit_1 ''problem running manager'' else ret ())))))"

lemma gthen_assoc: "gthen (gthen l m) n = gthen l (gthen m n)"
  by (simp add: gthen_def gbind_assoc)

definition run_manager :: "'m manager_api \<Rightarrow> 'z flag_values \<Rightarrow> ('m boot_state, unit) go" where
  "run_manager mgr f = gbind (GetConfigOrDie mgr) (\<lambda>config.
     gbind (call (CNewManager config (main_options f)) (ma_NewManager mgr config (main_options f))) (\<lambda>err.
     gthen (if err \<noteq> None then exit_1 ''unable to start manager'' else ret ()) (gthen (add_all mgr) (serve mgr))))"

lemma main_split: "main mgr o' z args = gbind (CommandLine_Parse o' args (flag_defaults z)) (run_manager mgr)"
  by (simp add: main_def run_manager_def[abs_def] Let_def add_all_def serve_def gthen_assoc)

lemmas Add_defs = AddMountPoint_def AddLock_def AddUnlock_def AddEditConfig_def AddGet_def AddGetConfig_def AddCommit_def AddRPC_def AddEstablishSubscription_def AddCreateSubscription_def
  addMountPoint_def addLock_def addUnlock_def addEditConfig_def addGet_def addGetConfig_def addCommit_def addRPC_def addEstablishSubscription_def addCreateSubscription_def

lemma creates_all: "creates mgr controllers (add_all mgr)"
proof -
  have "creates mgr ([(mountPointControllerName, MountPointReconciler, KMountPoint)] @
      [(lockControllerName, LockReconciler, KLock)] @
      [(unlockControllerName, UnlockReconciler, KUnlock)] @
      [(editConfigControllerName, EditConfigReconciler, KEditConfig)] @
      [(getControllerName, GetReconciler, KGet)] @
      [(getConfigControllerName, GetConfigReconciler, KGetConfig)] @
      [(commitControllerName, CommitReconciler, KCommit)] @
      [(rpcControllerName, RPCReconciler, KRPC)] @
      [(establishSubscriptionControllerName, EstablishSubscriptionReconciler, KEstablishSubscription)] @
      [(createSubscriptionControllerName, CreateSubscriptionReconciler, KCreateSubscription)]) (add_all mgr)"
    unfolding add_all_def Add_defs by (intro creates_then creates_add)
  then show ?thesis by (simp add: controllers_def)
qed

lemma serve_creates_nothing: "\<exists>ds. su_calls (snd (serve mgr s)) = su_calls s @ ds \<and> created ds = [] \<and> watched ds = []"
proof -
  obtain e1 m1 where 1: "ma_AddHealthzCheck mgr ''healthz'' (su_mgr s) = (e1, m1)" by fastforce
  obtain e2 m2 where 2: "ma_AddReadyzCheck mgr ''readyz'' m1 = (e2, m2)" by fastforce
  obtain e3 m3 where 3: "ma_Start mgr m2 = (e3, m3)" by fastforce
  show ?thesis
    by (cases e1; cases e2; cases e3)
      (simp_all add: serve_def gbind_def gthen_def call_def exit_1_def setupLog_Error_def 1 2 3)
qed

section \<open>Properties\<close>

text \<open>
  C35: once the command line is parsed, the configuration of the cluster is found and the manager exists, \<open>main\<close>
  asks it for a controller for each of the ten kinds, each exactly once, under ten different names and in a
  fixed order, and an error with one of them never keeps the others from being added. A controller is
  only ever told to watch the kind whose objects its own reconciler fetches; and if the manager refuses
  no controller and no watch, each of the ten watches its kind.
\<close>

theorem main_adds_every_controller:
  assumes "flag_Parse o' args (flag_defaults z) = Inr (rest, f)"
    and "ma_GetConfig mgr (su_mgr s) = (Inr config, m)" and "fst (ma_NewManager mgr config (main_options f) m) = None"
  shows "created (su_calls (snd (main mgr o' z args s))) = created (su_calls s) @ map create_of controllers \<and>
    distinct (map fst controllers) \<and> set (map (snd \<circ> watch_of) controllers) = UNIV \<and>
    (\<forall>(n, r, k) \<in> set controllers. fetches e r k) \<and>
    (\<exists>ws. watched (su_calls (snd (main mgr o' z args s))) = watched (su_calls s) @ ws \<and>
       set ws \<subseteq> set (map watch_of controllers) \<and> (refuses_none mgr \<longrightarrow> ws = map watch_of controllers))"
proof -
  let ?o = "main_options f"
  obtain m' where m': "ma_NewManager mgr config ?o m = (None, m')" using assms(3) by (cases "ma_NewManager mgr config ?o m") auto
  let ?s = "s\<lparr>su_calls := su_calls s @ [CGetConfig, CNewManager config ?o], su_mgr := m'\<rparr>"
  obtain t ds where t: "add_all mgr ?s = (Ret (), t)" "su_calls t = su_calls ?s @ ds" "created ds = map create_of controllers"
    "set (watched ds) \<subseteq> set (map watch_of controllers)" "refuses_none mgr \<longrightarrow> watched ds = map watch_of controllers"
    using createsE[OF creates_all] by metis
  obtain es where es: "su_calls (snd (serve mgr t)) = su_calls t @ es" "created es = []" "watched es = []"
    using serve_creates_nothing by blast
  have "snd (main mgr o' z args s) = snd (serve mgr t)"
    using assms(1,2) m' t(1) by (simp add: main_split CommandLine_Parse_def run_manager_def GetConfigOrDie_def gbind_def call_def gthen_def)
  then have calls: "su_calls (snd (main mgr o' z args s)) = su_calls s @ CGetConfig # CNewManager config ?o # ds @ es"
    using t(2) es(1) by simp
  have "distinct (map fst controllers)"
    by (simp add: controllers_def mountPointControllerName_def lockControllerName_def unlockControllerName_def
        editConfigControllerName_def getControllerName_def getConfigControllerName_def commitControllerName_def
        rpcControllerName_def establishSubscriptionControllerName_def createSubscriptionControllerName_def)
  moreover have "k \<in> set (map (snd \<circ> watch_of) controllers)" for k by (cases k) (simp_all add: controllers_def watch_of_def)
  then have "set (map (snd \<circ> watch_of) controllers) = UNIV" by blast
  ultimately show ?thesis using t(3-) es controllers_fetch[of e] by (simp add: calls)
qed

definition example_manager :: "unit manager_api" where
  "example_manager = \<lparr>ma_GetConfig = (\<lambda>m. (Inr 0, m)), ma_NewManager = (\<lambda>_ _ m. (None, m)), ma_New = (\<lambda>_ _ m. (None, m)),
     ma_Watch = (\<lambda>_ _ m. (None, m)), ma_AddHealthzCheck = (\<lambda>_ m. (None, m)),
     ma_AddReadyzCheck = (\<lambda>_ m. (None, m)), ma_Start = (\<lambda>m. (None, m))\<rparr>"

definition example_boot :: "unit boot_state" where
  "example_boot = \<lparr>su_calls = [], su_log = [], su_mgr = ()\<rparr>"

definition no_flags :: "unit other_flags" where
  "no_flags = \<lparr>of_defined = Map.empty, of_Set = (\<lambda>_ _. Inr)\<rparr>"

theorem main_adds_every_controller_witness:
  "created (su_calls (snd (main example_manager no_flags () [''--leader-elect''] example_boot))) = map create_of controllers \<and>
   watched (su_calls (snd (main example_manager no_flags () [''--leader-elect''] example_boot))) = map watch_of controllers \<and>
   fetches example_env LockReconciler KLock"
proof -
  let ?f = "apply_setting (LeaderElect True) (flag_defaults ())"
  have p: "flag_Parse no_flags [''--leader-elect''] (flag_defaults ()) = Inr ([], ?f)"
    using flag_Parse_setting[of no_flags Separate "LeaderElect True" "[]"] by simp
  have c: "ma_GetConfig example_manager (su_mgr example_boot) = (Inr 0, ())" by (simp add: example_manager_def)
  have "(lockControllerName, LockReconciler, KLock) \<in> set controllers" by (simp add: controllers_def)
  with main_adds_every_controller[OF p c, of example_env] show ?thesis
    by (fastforce simp: example_manager_def example_boot_def refuses_none_def)
qed



end
