(* ===== verification/Workflow.thy ===== *)
theory Workflow
  imports Lock_Controller EditConfig_Controller
begin

text \<open>
  How operations are chained: the status that one operation reports is what the dependency check of the
  next one reads. The controllers never talk to each other; the link between them is the object that one
  writes with \<open>k_StatusUpdate\<close> and the other reads with \<open>k_Get\<close>.
\<close>

text \<open>The object as \<open>ManageSuccess\<close> writes it back.\<close>

definition written_back :: "int \<Rightarrow> 'spec cr \<Rightarrow> 'spec cr" where
  "written_back now obj = with_condition (success_condition now obj) obj"

lemma written_back_Status [simp]: "st_Status (cr_RPCStatus (written_back now obj)) = st_Status (cr_RPCStatus obj)"
  by (simp add: written_back_def)

text \<open>What the dependency check says of a lock or an edit, once the object has been read.\<close>

lemma check_dependency_read:
  assumes "name \<noteq> []"
  shows "fst (k_Get (locks e) \<lparr>nn_Namespace = ns, nn_Name = name\<rparr> (world t)) = Inr l \<Longrightarrow>
      fst (check_dependency e ns \<lparr>dep_Kind = ''Lock'', dep_Name = name\<rparr> t) = Ret None \<longleftrightarrow> st_Status (cr_RPCStatus l) = ''success''"
    and "fst (k_Get (editconfigs e) \<lparr>nn_Namespace = ns, nn_Name = name\<rparr> (world t)) = Inr c \<Longrightarrow>
      fst (check_dependency e ns \<lparr>dep_Kind = ''EditConfig'', dep_Name = name\<rparr> t) = Ret None \<longleftrightarrow> st_Status (cr_RPCStatus c) = ''success''"
proof -
  have run: "fst (check_dependency e ns dep t) = Ret None \<longleftrightarrow> dependency_ok e ns dep (world t)" for dep
  proof -
    obtain err w where "check_dependency e ns dep t = (Ret err, t\<lparr>world := w\<rparr>)"
      "err = None \<longleftrightarrow> dependency_ok e ns dep (world t)" by (rule check_dependency_run)
    then show ?thesis by simp
  qed
  note defs = dependency_ok_def dependency_met_def succeeded_def IsNil_def Let_def
  show "fst (k_Get (locks e) \<lparr>nn_Namespace = ns, nn_Name = name\<rparr> (world t)) = Inr l \<Longrightarrow>
      fst (check_dependency e ns \<lparr>dep_Kind = ''Lock'', dep_Name = name\<rparr> t) = Ret None \<longleftrightarrow> st_Status (cr_RPCStatus l) = ''success''"
    "fst (k_Get (editconfigs e) \<lparr>nn_Namespace = ns, nn_Name = name\<rparr> (world t)) = Inr c \<Longrightarrow>
      fst (check_dependency e ns \<lparr>dep_Kind = ''EditConfig'', dep_Name = name\<rparr> t) = Ret None \<longleftrightarrow> st_Status (cr_RPCStatus c) = ''success''"
    using assms unfolding run by (simp_all add: defs)
qed

lemma ManageSuccess_run:
  assumes "metav1_Now e (world s) = (now, a)"
    and "k_StatusUpdate (rc_client r) (written_back now obj) a = (None, b)"
  shows "ManageSuccess e r obj s = (Ret (zero_Result, None), s\<lparr>world := b\<rparr>)"
  using assms by (simp add: Manage_defs zero_Result_def written_back_def)

section \<open>Properties\<close>

text \<open>
  C11: the answer of the device to a lock decides what may follow it. Reconciling a \<open>Lock\<close> that its
  validation accepts, over an open session whose device answers, writes the object back with the outcome
  and is done; and a \<open>Commit\<close>, \<open>EditConfig\<close> or \<open>Unlock\<close> that depends on the lock passes its dependency check,
  in any later state in which the object is read with the status that was written, exactly if the
  device's reply carried no error.
\<close>

theorem Lock_outcome_decides_dependents:
  assumes "k_Get (locks e) req (world s) = (Inr lock, w)"
    and "isValid_Lock e (OLock lock) (s\<lparr>world := w\<rparr>) = (Ret (True, z), s\<lparr>world := u\<rparr>)" and "\<not> IsBeingDeleted lock"
    and "NewLock e (lk_Target (cr_Spec lock)) (s\<lparr>world := u\<rparr>) = (Ret m, s\<lparr>world := v\<rparr>)"
    and "Sessions s (GetMountPointNamespacedName lock (lk_MountPoint (cr_Spec lock))) = Some i"
    and "heap s i = Some x" "idle x" "chan_inv s"
    and "device_answers e (se_Transport x) m (lk_Timeout (cr_Spec lock)) h q reply v v'"
    and "metav1_Now e v' = (now, a)" and "k_StatusUpdate (locks e) (written_back now (reported reply lock)) a = (None, b)"
    and "fst (k_Get (locks e) \<lparr>nn_Namespace = om_Namespace (cr_Meta lock), nn_Name = om_Name (cr_Meta lock)\<rparr> (world t)) = Inr lock'"
    and "om_Name (cr_Meta lock) \<noteq> []" and "cr_RPCStatus lock' = cr_RPCStatus (written_back now (reported reply lock))"
  shows "Reconcile_Lock e req s = (Ret (zero_Result, None), rpc_answered i x h m q b s) \<and>
    (fst (check_dependency e (om_Namespace (cr_Meta lock)) \<lparr>dep_Kind = ''Lock'', dep_Name = om_Name (cr_Meta lock)\<rparr> t) = Ret None
       \<longleftrightarrow> re_Errors reply = [])"
proof
  have g: "k_Get (rc_client (newLockReconciler e)) req (world s) = (Inr lock, w)"
    using assms(1) by (simp add: newLockReconciler_def)
  have "Reconcile_Lock e req s = ManageSuccess e (newLockReconciler e) (reported reply lock) (rpc_answered i x h m q v' s)"
    unfolding Reconcile_Lock_def by (rule lock.kind_completes[OF g assms(2-9)])
  also have "\<dots> = (Ret (zero_Result, None), (rpc_answered i x h m q v' s)\<lparr>world := b\<rparr>)"
    by (rule ManageSuccess_run[where now = now and a = a])
      (use assms(10,11) in \<open>simp_all add: rpc_answered_def newLockReconciler_def\<close>)
  finally show "Reconcile_Lock e req s = (Ret (zero_Result, None), rpc_answered i x h m q b s)"
    by (simp add: rpc_answered_def)
  show "fst (check_dependency e (om_Namespace (cr_Meta lock)) \<lparr>dep_Kind = ''Lock'', dep_Name = om_Name (cr_Meta lock)\<rparr> t) = Ret None
       \<longleftrightarrow> re_Errors reply = []"
    unfolding check_dependency_read(1)[OF assms(13,12)] assms(14) by simp
qed

text \<open>The example lock after it was reconciled: doing it again changes nothing.\<close>

definition example_locked :: Lock where
  "example_locked = with_condition (success_condition 0 example_Lock) (reported example_answer example_Lock)"

definition locked_env :: "unit env" where
  "locked_env = example_env\<lparr>locks := example_client example_locked\<rparr>"

lemma example_locked_again: "written_back 0 (reported example_answer example_locked) = example_locked"
  by (simp add: example_locked_def written_back_def with_condition_def success_condition_def reported_def example_answer_def
      example_reply_def example_objects SetConditions_def GetConditions_def zero_RPCStatus_def)

theorem Lock_outcome_decides_dependents_witness:
  "Reconcile_Lock locked_env example_req example_state = (Ret (zero_Result, None),
     rpc_answered 0 example_Session 2 (MLock example_id (Some (datastore_elem ''running''))) (xml_Header @ ''<rpc/>'') () example_state) \<and>
   (fst (check_dependency locked_env ''ns'' \<lparr>dep_Kind = ''Lock'', dep_Name = ''m''\<rparr> example_state) = Ret None \<longleftrightarrow> re_Errors example_answer = [])"
proof -
  let ?m = "MLock example_id (Some (datastore_elem ''running''))" and ?l = example_locked
  have l: "om_Namespace (cr_Meta ?l) = ''ns''" "om_Name (cr_Meta ?l) = ''m''" "cr_Spec ?l = cr_Spec example_Lock"
    by (simp_all add: example_locked_def example_objects)
  have g: "k_Get (locks locked_env) nn w = (Inr ?l, w)" "k_StatusUpdate (locks locked_env) y w = (None, w)" for nn w y
    by (simp_all add: locked_env_def example_client_def)
  have "mountpoint_ready locked_env ''ns'' ''m'' example_state"
    using example_ready by (simp add: mountpoint_ready_def locked_env_def)
  then obtain u where "isValid_Lock locked_env (OLock ?l) example_state = (Ret (True, None), example_state\<lparr>world := u\<rparr>)"
    by (rule require_MountPoint_ready) (simp add: isValid_Lock_def l example_objects)
  then have v: "isValid_Lock locked_env (OLock ?l) (example_state\<lparr>world := ()\<rparr>) = (Ret (True, None), example_state\<lparr>world := ()\<rparr>)" by simp
  have id: "uuid locked_env s = (Ret example_id, s)" for s using uuid_example[of s] by (simp add: uuid_def locked_env_def)
  have b: "NewLock locked_env (lk_Target (cr_Spec ?l)) (example_state\<lparr>world := ()\<rparr>) = (Ret ?m, example_state\<lparr>world := ()\<rparr>)"
    by (simp add: NewLock_def l example_objects gbind_def datastore_elem_def datastore_def validateDatastore_def
        DatastoreRunning_def gthen_def id)
  have d: "device_answers locked_env (se_Transport example_Session) ?m (lk_Timeout (cr_Spec ?l)) 2 (xml_Header @ ''<rpc/>'') example_answer () ()"
    using example_device[of ?m "lk_Timeout (cr_Spec ?l)" "()"]
    by (simp add: device_answers_def marshall_def NewRPCReply_def locked_env_def)
  have k: "Sessions example_state (GetMountPointNamespacedName ?l (lk_MountPoint (cr_Spec ?l))) = Some 0"
    by (rule keyed_example) (simp add: example_locked_def example_objects example_names)
  have x: "heap example_state 0 = Some example_Session" "idle example_Session"
    by (simp_all add: example_state_def idle_def example_Session_def)
  have a: "\<not> IsBeingDeleted ?l" by (simp add: example_locked_def IsBeingDeleted_def example_objects)
  have n: "metav1_Now locked_env () = (0, ())" by (simp add: locked_env_def)
  have r: "fst (k_Get (locks locked_env) nn (world example_state)) = Inr ?l" for nn by (simp add: g)
  have o: "om_Name (cr_Meta ?l) \<noteq> []" "cr_RPCStatus ?l = cr_RPCStatus (written_back 0 (reported example_answer ?l))"
    by (simp_all add: l example_locked_again)
  have "Reconcile_Lock locked_env example_req example_state = (Ret (zero_Result, None),
      rpc_answered 0 example_Session 2 ?m (xml_Header @ ''<rpc/>'') () example_state) \<and>
    (fst (check_dependency locked_env (om_Namespace (cr_Meta ?l)) \<lparr>dep_Kind = ''Lock'', dep_Name = om_Name (cr_Meta ?l)\<rparr> example_state) = Ret None
      \<longleftrightarrow> re_Errors example_answer = [])"
    by (rule Lock_outcome_decides_dependents[where lock = ?l and lock' = ?l and now = 0 and a = "()"];
      (rule v b k x example_chan_inv d a n r o | simp add: g))
  then show ?thesis unfolding l .
qed

text \<open>
  An \<open>EditConfig\<close> gives no such guarantee: whatever the device answered, an edit that returned reports
  success, so that what depends on it goes ahead also after a refused edit.
\<close>

theorem EditConfig_outcome_enables_dependents:
  assumes "send_EditConfig e obj s = (Ret (obj', err), s')" and "om_Name (cr_Meta obj) \<noteq> []"
    and "fst (k_Get (editconfigs e) \<lparr>nn_Namespace = om_Namespace (cr_Meta obj), nn_Name = om_Name (cr_Meta obj)\<rparr> (world t)) = Inr c"
    and "cr_RPCStatus c = cr_RPCStatus (written_back now obj')"
  shows "fst (check_dependency e (om_Namespace (cr_Meta obj)) \<lparr>dep_Kind = ''EditConfig'', dep_Name = om_Name (cr_Meta obj)\<rparr> t) = Ret None"
  using yieldsD[OF send_EditConfig_object assms(1)] unfolding check_dependency_read(2)[OF assms(2,3)] assms(4) by auto

end
