(* ===== verification/Go_Memory.thy ===== *)
theory Go_Memory
  imports Api_Types "HOL-Library.AList"
begin

text \<open>
  The memory that resources share: backing arrays of slices and pointer targets. The other theories
  treat a resource as a value; here a resource is a struct whose slices and pointers are addresses, so
  that aliasing can be stated. The locale \<open>deep_copy\<close> is the contract of a \<open>DeepCopyInto\<close> function; the
  locales \<open>slice_copy\<close>, \<open>pointer_copy\<close> and \<open>deep_pointer_copy\<close> derive it for a field from what the field
  refers to, \<open>pair_copy\<close> for two fields, and \<open>record_copy\<close> for a struct from its fields.
\<close>

section \<open>Structs, as they lie in memory\<close>

type_synonym addr = nat

text \<open>A slice that is not nil: its backing array, where it starts there, and its length.\<close>

record slice =
  sl_array :: addr
  sl_off :: nat
  sl_len :: nat

record TypeMeta =
  tm_Kind :: string
  tm_APIVersion :: string

record ListMeta =
  li_SelfLink :: string
  li_ResourceVersion :: string
  li_Continue :: string
  li_RemainingItemCount :: "addr option"

text \<open>
  \<open>metav1.ObjectMeta\<close>, with all its fields, and the structs it refers to. A map is an address, as a
  pointer is; a time is a value, whose internal pointers the package never writes through.
\<close>

record OwnerReference =
  or_APIVersion :: string
  or_Kind :: string
  or_Name :: string
  or_UID :: string
  or_Controller :: "addr option"
  or_BlockOwnerDeletion :: "addr option"

record FieldsV1 =
  fv_Raw :: "slice option"

record ManagedFieldsEntry =
  mf_Manager :: string
  mf_Operation :: string
  mf_APIVersion :: string
  mf_Time :: "addr option"
  mf_FieldsType :: string
  mf_FieldsV1 :: "addr option"

record MemMeta =
  mm_Name :: string
  mm_GenerateName :: string
  mm_Namespace :: string
  mm_SelfLink :: string
  mm_UID :: string
  mm_ResourceVersion :: string
  mm_Generation :: int
  mm_CreationTimestamp :: int
  mm_DeletionTimestamp :: "addr option"
  mm_DeletionGracePeriodSeconds :: "addr option"
  mm_Labels :: "addr option"
  mm_Annotations :: "addr option"
  mm_OwnerReferences :: "slice option"
  mm_Finalizers :: "slice option"
  mm_ClusterName :: string
  mm_ManagedFields :: "slice option"

record MemStatus =
  ms_Conditions :: "slice option"
  ms_Status :: string
  ms_RpcReply :: string
  ms_Capabilities :: "slice option"
  ms_SubscriptionID :: string

record 'spec struct =
  x_TypeMeta :: TypeMeta
  x_Meta :: MemMeta
  x_Spec :: 'spec
  x_RPCStatus :: MemStatus

text \<open>\<open>MountPointSpec\<close> is the only spec with a slice; the others are values.\<close>

record MemMountPointSpec =
  mq_Target :: string
  mq_Username :: string
  mq_Password :: string
  mq_Timeout :: "32 word"
  mq_AdditionalCapabilities :: "slice option"

datatype item =
    ICommit (un_Commit: "CommitSpec struct")
  | ICreateSubscription (un_CreateSubscription: "CreateSubscriptionSpec struct")
  | IEditConfig (un_EditConfig: "EditConfigSpec struct")
  | IEstablishSubscription (un_EstablishSubscription: "EstablishSubscriptionSpec struct")
  | IGet (un_Get: "GetSpec struct")
  | IGetConfig (un_GetConfig: "GetConfigSpec struct")
  | ILock (un_Lock: "LockSpec struct")
  | IMountPoint (un_MountPoint: "MemMountPointSpec struct")
  | IRPC (un_RPC: "RPCSpec struct")
  | IUnlock (un_Unlock: "UnlockSpec struct")

text \<open>A map is the list of its entries, each key once, in the order in which a \<open>range\<close> over it visits them.\<close>

datatype cell =
    Strings (the_Strings: "string list")
  | Bytes (the_Bytes: "char list")
  | StringMap (the_StringMap: "(string \<times> string) list")
  | OwnerReferences (the_OwnerReferences: "OwnerReference list")
  | ManagedFields (the_ManagedFields: "ManagedFieldsEntry list")
  | FieldsCell (the_Fields: FieldsV1)
  | BoolCell (the_Bool: bool)
  | Conditions (the_Conditions: "Condition list")
  | Items (the_Items: "item list")
  | TimeCell (the_Time: int)
  | IntCell (the_Int: int)

record memory =
  cells :: "addr \<rightharpoonup> cell"
  lim :: addr

section \<open>Allocation and access\<close>

definition new_cell :: "cell \<Rightarrow> (memory, addr) go" where
  "new_cell c m = (Ret (lim m), m\<lparr>cells := (cells m)(lim m \<mapsto> c), lim := Suc (lim m)\<rparr>)"

definition load :: "addr \<Rightarrow> (memory, cell) go" where
  "load a m = (case cells m a of None \<Rightarrow> nil_deref m | Some c \<Rightarrow> (Ret c, m))"

definition store :: "addr \<Rightarrow> cell \<Rightarrow> (memory, unit) go" where
  "store a c = modify (\<lambda>m. m\<lparr>cells := (cells m)(a \<mapsto> c)\<rparr>)"

text \<open>\<open>make([]T, n)\<close>, the expressions \<open>s[i]\<close> and the assignment \<open>s[i] = y\<close>, for the arrays that \<open>mk\<close> builds.\<close>

definition make_slice :: "('e list \<Rightarrow> cell) \<Rightarrow> 'e \<Rightarrow> nat \<Rightarrow> (memory, slice) go" where
  "make_slice mk zero n =
     gbind (new_cell (mk (replicate n zero))) (\<lambda>a. ret \<lparr>sl_array = a, sl_off = 0, sl_len = n\<rparr>)"

definition index_error :: "(memory, 'a) go" where
  "index_error = abort (Panic ''index out of range'')"

definition get_elem :: "(cell \<Rightarrow> 'e list) \<Rightarrow> slice \<Rightarrow> nat \<Rightarrow> (memory, 'e) go" where
  "get_elem el s i =
     (if i < sl_len s then gbind (load (sl_array s)) (\<lambda>c. ret (el c ! (sl_off s + i))) else index_error)"

definition set_elem :: "('e list \<Rightarrow> cell) \<Rightarrow> (cell \<Rightarrow> 'e list) \<Rightarrow> slice \<Rightarrow> nat \<Rightarrow> 'e \<Rightarrow> (memory, unit) go" where
  "set_elem mk el s i y =
     (if i < sl_len s then gbind (load (sl_array s)) (\<lambda>c. store (sl_array s) (mk ((el c)[sl_off s + i := y])))
      else index_error)"

text \<open>
  The loop \<open>for i := range *in { (*in)[i].DeepCopyInto(&(*out)[i]) }\<close>; the built-in \<open>copy\<close> is the same with
  an assignment for each element.
\<close>

definition copy_elems ::
    "('e list \<Rightarrow> cell) \<Rightarrow> (cell \<Rightarrow> 'e list) \<Rightarrow> ('e \<Rightarrow> 'e \<Rightarrow> (memory, 'e) go) \<Rightarrow> slice \<Rightarrow> slice \<Rightarrow> (memory, unit) go" where
  "copy_elems mk el into s d =
     go_each (\<lambda>i. gbind (get_elem el s i) (\<lambda>x. gbind (get_elem el d i) (\<lambda>z.
       gbind (into x z) (set_elem mk el d i)))) [0..<sl_len s]"

text \<open>The block \<open>if in.F != nil { ... }\<close> that copies a slice field, after \<open>*out = *in\<close>.\<close>

definition copy_slice ::
    "('e list \<Rightarrow> cell) \<Rightarrow> (cell \<Rightarrow> 'e list) \<Rightarrow> 'e \<Rightarrow> ('e \<Rightarrow> 'e \<Rightarrow> (memory, 'e) go) \<Rightarrow>
     slice option \<Rightarrow> slice option \<Rightarrow> (memory, slice option) go" where
  "copy_slice mk el zero into inp out = (case inp of
     None \<Rightarrow> ret out
   | Some s \<Rightarrow> gbind (make_slice mk zero (sl_len s)) (\<lambda>d. gthen (copy_elems mk el into s d) (ret (Some d))))"

text \<open>The block that copies a pointer field: \<open>*out = new(T)\<close>, then \<open>**out = **in\<close>.\<close>

definition copy_pointer ::
    "('v \<Rightarrow> cell) \<Rightarrow> (cell \<Rightarrow> 'v) \<Rightarrow> 'v \<Rightarrow> addr option \<Rightarrow> addr option \<Rightarrow> (memory, addr option) go" where
  "copy_pointer mk el zero inp out = (case inp of
     None \<Rightarrow> ret out
   | Some p \<Rightarrow> gbind (new_cell (mk zero)) (\<lambda>q. gbind (load p) (\<lambda>c. gthen (store q (mk (el c))) (ret (Some q)))))"

text \<open>The same when the target has addresses of its own: \<open>(*in).DeepCopyInto(*out)\<close>.\<close>

definition copy_deep_pointer ::
    "('v \<Rightarrow> cell) \<Rightarrow> (cell \<Rightarrow> 'v) \<Rightarrow> 'v \<Rightarrow> ('v \<Rightarrow> 'v \<Rightarrow> (memory, 'v) go) \<Rightarrow> addr option \<Rightarrow> addr option \<Rightarrow> (memory, addr option) go" where
  "copy_deep_pointer mk el zero into inp out = (case inp of
     None \<Rightarrow> ret out
   | Some p \<Rightarrow> gbind (new_cell (mk zero)) (\<lambda>q. gbind (load p) (\<lambda>c. gbind (into (el c) zero) (\<lambda>y.
       gthen (store q (mk y)) (ret (Some q))))))"

text \<open>
  The block that copies a map field: \<open>*out = make(map[string]string, len(*in))\<close>, then the loop
  \<open>for key, val := range *in { (*out)[key] = val }\<close>.
\<close>

definition set_key :: "addr \<Rightarrow> string \<Rightarrow> string \<Rightarrow> (memory, unit) go" where
  "set_key q key val = gbind (load q) (\<lambda>c. store q (StringMap (AList.update key val (the_StringMap c))))"

definition copy_map :: "addr option \<Rightarrow> addr option \<Rightarrow> (memory, addr option) go" where
  "copy_map inp out = (case inp of
     None \<Rightarrow> ret out
   | Some p \<Rightarrow> gbind (new_cell (StringMap [])) (\<lambda>q. gbind (load p) (\<lambda>c.
       gthen (go_each (\<lambda>(key, val). set_key q key val) (the_StringMap c)) (ret (Some q)))))"

section \<open>Growing memories\<close>

definition extends :: "memory \<Rightarrow> memory \<Rightarrow> bool" where
  "extends m m' \<longleftrightarrow> lim m \<le> lim m' \<and> (\<forall>a<lim m. cells m' a = cells m a)"

lemma extends_refl [simp]: "extends m m"
  by (simp add: extends_def)

lemma extends_trans: "extends m m' \<Longrightarrow> extends m' m'' \<Longrightarrow> extends m m''"
  by (auto simp: extends_def)

text \<open>
  \<open>ok m c P\<close>: from \<open>m\<close>, the computation \<open>c\<close> returns, leaves everything that was allocated as it was, and
  its result and final memory satisfy \<open>P\<close>.
\<close>

definition ok :: "memory \<Rightarrow> (memory, 'a) go \<Rightarrow> ('a \<Rightarrow> memory \<Rightarrow> bool) \<Rightarrow> bool" where
  "ok m c P \<longleftrightarrow> (\<exists>y m'. c m = (Ret y, m') \<and> extends m m' \<and> P y m')"

lemma ok_ret: "P x m \<Longrightarrow> ok m (ret x) P"
  by (simp add: ok_def)

lemma ok_gbind:
  assumes "ok m c Q" and "\<And>y m'. extends m m' \<Longrightarrow> Q y m' \<Longrightarrow> ok m' (f y) P"
  shows "ok m (gbind c f) P"
proof -
  obtain y m' where c: "c m = (Ret y, m')" "extends m m'" "Q y m'" using assms(1) by (auto simp: ok_def)
  then obtain z m'' where "f y m' = (Ret z, m'')" "extends m' m''" "P z m''"
    using assms(2)[of m' y] by (auto simp: ok_def)
  with c show ?thesis by (auto simp: ok_def gbind_def intro: extends_trans)
qed

lemma ok_mono: "ok m c Q \<Longrightarrow> (\<And>y m'. extends m m' \<Longrightarrow> Q y m' \<Longrightarrow> P y m') \<Longrightarrow> ok m c P"
  by (auto simp: ok_def)

section \<open>The contract of a deep copy\<close>

text \<open>
  \<open>wf m x\<close>: the addresses in \<open>x\<close> are allocated and hold what its type says. \<open>refs m x\<close>: the addresses that
  can be reached from \<open>x\<close>. \<open>view m x\<close>: the value that \<open>x\<close> stands for. A copy is equal, in fresh memory, and
  nothing else changes.
\<close>

definition is_copy ::
    "(memory \<Rightarrow> 'a \<Rightarrow> bool) \<Rightarrow> (memory \<Rightarrow> 'a \<Rightarrow> addr set) \<Rightarrow> (memory \<Rightarrow> 'a \<Rightarrow> 'v) \<Rightarrow> memory \<Rightarrow> 'a \<Rightarrow> 'a \<Rightarrow> memory \<Rightarrow> bool" where
  "is_copy good refs view m x y m' \<longleftrightarrow> good m' y \<and> refs m' y \<subseteq> {lim m..<lim m'} \<and> view m' y = view m x"

locale deep_copy =
  fixes wf :: "memory \<Rightarrow> 'a \<Rightarrow> bool"
    and refs :: "memory \<Rightarrow> 'a \<Rightarrow> addr set"
    and view :: "memory \<Rightarrow> 'a \<Rightarrow> 'v"
    and into :: "'a \<Rightarrow> 'a \<Rightarrow> (memory, 'a) go"
  assumes into_copies:
    "wf m x \<Longrightarrow> ok m (into x z) (is_copy wf refs view m x)"
    and refs_bound: "wf m x \<Longrightarrow> refs m x \<subseteq> {..<lim m}"
    and frame: "wf m x \<Longrightarrow> (\<And>a. a \<in> refs m x \<Longrightarrow> cells m' a = cells m a) \<Longrightarrow> lim m \<le> lim m' \<Longrightarrow>
      wf m' x \<and> refs m' x = refs m x \<and> view m' x = view m x"
begin

lemma frame_extends:
  assumes "wf m x" "extends m m'"
  shows "wf m' x \<and> refs m' x = refs m x \<and> view m' x = view m x"
  using assms refs_bound[OF assms(1)] by (intro frame) (auto simp: extends_def)

lemma copy_later: "is_copy wf refs view m x y m' \<Longrightarrow> extends m' m'' \<Longrightarrow> is_copy wf refs view m x y m''"
  using frame_extends[of m' y m''] by (fastforce simp: is_copy_def extends_def)

lemma copy_earlier:
  "wf m x \<Longrightarrow> extends m m' \<Longrightarrow> is_copy wf refs view m' x y m'' \<Longrightarrow> is_copy wf refs view m x y m''"
  using frame_extends[of m x m'] by (fastforce simp: is_copy_def extends_def)

text \<open>One step of a larger copy that began in \<open>start\<close>.\<close>

lemma ok_copy:
  assumes "wf start x" "extends start m"
    and "\<And>y m'. extends m m' \<Longrightarrow> extends start m' \<Longrightarrow> is_copy wf refs view start x y m' \<Longrightarrow> ok m' (f y) P"
  shows "ok m (gbind (into x z) f) P"
proof (rule ok_gbind[OF into_copies])
  show "wf m x" using frame_extends[OF assms(1,2)] by simp
  fix y m'
  assume m': "extends m m'" and "is_copy wf refs view m x y m'"
  then have "is_copy wf refs view start x y m'" using copy_earlier assms(1,2) by blast
  then show "ok m' (f y) P" using assms(3) m' extends_trans[OF assms(2)] by blast
qed

text \<open>
  After the copy, writing through the copy leaves the original as it was, and writing through the
  original leaves the copy as it was: \<open>m''\<close> differs from \<open>m'\<close> only where the one or the other can write.
\<close>

lemma independent:
  assumes "wf m x" "extends m m'" "is_copy wf refs view m x y m'" "lim m' \<le> lim m''"
  shows "(\<And>a. a \<notin> refs m' y \<Longrightarrow> cells m'' a = cells m' a) \<Longrightarrow> view m'' x = view m x"
    and "(\<And>a. a \<notin> refs m x \<Longrightarrow> cells m'' a = cells m' a) \<Longrightarrow> view m'' y = view m x"
proof -
  have disj: "refs m x \<inter> refs m' y = {}" using refs_bound[OF assms(1)] assms(3) by (fastforce simp: is_copy_def)
  have x: "wf m' x" "refs m' x = refs m x" "view m' x = view m x" using frame_extends[OF assms(1,2)] by simp_all
  show "view m'' x = view m x" if "\<And>a. a \<notin> refs m' y \<Longrightarrow> cells m'' a = cells m' a"
    using frame[OF x(1), of m''] that disj x assms(4) by auto
  show "view m'' y = view m x" if "\<And>a. a \<notin> refs m x \<Longrightarrow> cells m'' a = cells m' a"
    using frame[of m' y m''] that disj assms(3,4) by (auto simp: is_copy_def)
qed

end

section \<open>Values\<close>

text \<open>A type without addresses is copied by assignment.\<close>

definition assign :: "'a \<Rightarrow> 'a \<Rightarrow> (memory, 'a) go" where
  "assign x z = ret x"

interpretation val: deep_copy "\<lambda>m x. True" "\<lambda>m x. {}" "\<lambda>m x. f x" assign for f
  by unfold_locales (simp_all add: assign_def ok_ret is_copy_def)

section \<open>Slices\<close>

definition window :: "(cell \<Rightarrow> 'e list) \<Rightarrow> memory \<Rightarrow> slice \<Rightarrow> 'e list" where
  "window el m s = (case cells m (sl_array s) of
     None \<Rightarrow> [] | Some c \<Rightarrow> take (sl_len s) (drop (sl_off s) (el c)))"

definition wf_slice_of :: "('e list \<Rightarrow> cell) \<Rightarrow> (cell \<Rightarrow> 'e list) \<Rightarrow> (memory \<Rightarrow> 'e \<Rightarrow> bool) \<Rightarrow> memory \<Rightarrow> slice option \<Rightarrow> bool" where
  "wf_slice_of mk el good m s = (case s of None \<Rightarrow> True | Some s \<Rightarrow>
     sl_array s < lim m \<and> (\<exists>xs. cells m (sl_array s) = Some (mk xs) \<and> sl_off s + sl_len s \<le> length xs) \<and>
     (\<forall>x \<in> set (window el m s). good m x))"

definition refs_slice_of :: "(cell \<Rightarrow> 'e list) \<Rightarrow> (memory \<Rightarrow> 'e \<Rightarrow> addr set) \<Rightarrow> memory \<Rightarrow> slice option \<Rightarrow> addr set" where
  "refs_slice_of el refs m s = (case s of None \<Rightarrow> {} | Some s \<Rightarrow> insert (sl_array s) (\<Union>x \<in> set (window el m s). refs m x))"

definition view_slice_of :: "(cell \<Rightarrow> 'e list) \<Rightarrow> (memory \<Rightarrow> 'e \<Rightarrow> 'v) \<Rightarrow> memory \<Rightarrow> slice option \<Rightarrow> 'v list" where
  "view_slice_of el view m s = (case s of None \<Rightarrow> [] | Some s \<Rightarrow> map (view m) (window el m s))"

lemma go_each_snoc:
  "go_each f xs m = (Ret (), m') \<Longrightarrow> f x m' = (Ret (), m'') \<Longrightarrow> go_each f (xs @ [x]) m = (Ret (), m'')"
  by (simp add: go_each_append gthen_def gbind_def)

locale slice_copy = deep_copy wf refs view into
  for wf :: "memory \<Rightarrow> 'e \<Rightarrow> bool" and refs and view :: "memory \<Rightarrow> 'e \<Rightarrow> 'v" and into +
  fixes mk :: "'e list \<Rightarrow> cell" and el :: "cell \<Rightarrow> 'e list" and zero :: 'e
  assumes el_mk [simp]: "el (mk xs) = xs"
begin

abbreviation wf_slice :: "memory \<Rightarrow> slice option \<Rightarrow> bool" where
  "wf_slice \<equiv> wf_slice_of mk el wf"

abbreviation refs_slice :: "memory \<Rightarrow> slice option \<Rightarrow> addr set" where
  "refs_slice \<equiv> refs_slice_of el refs"

abbreviation view_slice :: "memory \<Rightarrow> slice option \<Rightarrow> 'v list" where
  "view_slice \<equiv> view_slice_of el view"

text \<open>
  What holds after the first \<open>i\<close> rounds of the loop, in memory \<open>m\<close>, for a copy that started in \<open>m0\<close>: the
  new array is at the first address that was free in \<open>m0\<close>.
\<close>

definition copied :: "memory \<Rightarrow> slice \<Rightarrow> nat \<Rightarrow> memory \<Rightarrow> bool" where
  "copied m0 s i m \<longleftrightarrow> extends m0 m \<and> lim m0 < lim m \<and>
     (\<exists>ys. cells m (lim m0) = Some (mk ys) \<and> length ys = sl_len s \<and>
       (\<forall>j<i. wf m (ys ! j) \<and> refs m (ys ! j) \<subseteq> {Suc (lim m0)..<lim m} \<and> view m (ys ! j) = view m0 (window el m0 s ! j)))"

lemma copied_step:
  assumes wf: "wf_slice m0 (Some s)" and i: "i < sl_len s" and c: "copied m0 s i m"
    and d: "d = \<lparr>sl_array = lim m0, sl_off = 0, sl_len = sl_len s\<rparr>"
  shows "\<exists>m'. gbind (get_elem el s i) (\<lambda>x. gbind (get_elem el d i) (\<lambda>z. gbind (into x z) (set_elem mk el d i))) m
      = (Ret (), m') \<and> copied m0 s (Suc i) m'"
proof -
  let ?q = "lim m0"
  obtain xs where xs: "sl_array s < lim m0" "cells m0 (sl_array s) = Some (mk xs)" "sl_off s + sl_len s \<le> length xs"
    and el_wf: "\<forall>x \<in> set (window el m0 s). wf m0 x" using wf by (auto simp: wf_slice_of_def)
  obtain ys where m: "extends m0 m" "?q < lim m" "cells m ?q = Some (mk ys)" "length ys = sl_len s"
    and ready: "\<And>j. j < i \<Longrightarrow> wf m (ys ! j) \<and> refs m (ys ! j) \<subseteq> {Suc ?q..<lim m} \<and> view m (ys ! j) = view m0 (window el m0 s ! j)"
    using c by (auto simp: copied_def)
  let ?x = "xs ! (sl_off s + i)"
  have w: "window el m0 s ! i = ?x" "i < length (window el m0 s)" using xs i by (simp_all add: window_def)
  then have x0: "wf m0 ?x" using el_wf nth_mem[OF w(2)] by simp
  have x: "wf m ?x" "view m ?x = view m0 ?x" using frame_extends[OF x0 m(1)] by simp_all
  have s: "cells m (sl_array s) = Some (mk xs)" using m(1) xs by (simp add: extends_def)
  obtain y m1 where y: "into ?x (ys ! i) m = (Ret y, m1)" "extends m m1" "wf m1 y" "refs m1 y \<subseteq> {lim m..<lim m1}"
      "view m1 y = view m ?x" using into_copies[OF x(1), of "ys ! i"] by (auto simp: ok_def is_copy_def)
  have q: "cells m1 ?q = Some (mk ys)" using y(2) m(2,3) by (simp add: extends_def)
  let ?m' = "m1\<lparr>cells := (cells m1)(?q \<mapsto> mk (ys[i := y]))\<rparr>"
  have lims: "lim m \<le> lim m1" using y(2) by (simp add: extends_def)
  have old: "wf ?m' (ys ! j) \<and> refs ?m' (ys ! j) = refs m (ys ! j) \<and> view ?m' (ys ! j) = view m (ys ! j)" if "j < i" for j
    using ready[OF that] y(2) lims by (intro frame) (auto simp: extends_def)
  have new: "wf ?m' y \<and> refs ?m' y = refs m1 y \<and> view ?m' y = view m1 y"
    using y(3,4) m(2) by (intro frame) auto
  have "extends m0 ?m'" using m(1,2) y(2) lims by (auto simp: extends_def)
  moreover have "\<forall>j<Suc i. wf ?m' (ys[i := y] ! j) \<and> refs ?m' (ys[i := y] ! j) \<subseteq> {Suc ?q..<lim ?m'} \<and>
      view ?m' (ys[i := y] ! j) = view m0 (window el m0 s ! j)"
  proof (intro allI impI)
    fix j assume "j < Suc i"
    then consider "j < i" | "j = i" by linarith
    then show "wf ?m' (ys[i := y] ! j) \<and> refs ?m' (ys[i := y] ! j) \<subseteq> {Suc ?q..<lim ?m'} \<and>
        view ?m' (ys[i := y] ! j) = view m0 (window el m0 s ! j)"
    proof cases
      case 1 then show ?thesis using old[OF 1] ready[OF 1] lims by auto
    next
      case 2 then show ?thesis using new y(4,5) x(2) w(1) m(2,4) i by auto
    qed
  qed
  ultimately have "copied m0 s (Suc i) ?m'" using m(2,4) lims unfolding copied_def by force
  moreover have "gbind (get_elem el s i) (\<lambda>x. gbind (get_elem el d i) (\<lambda>z. gbind (into x z) (set_elem mk el d i))) m = (Ret (), ?m')"
    using i s m(3) y(1) q by (simp add: d get_elem_def set_elem_def load_def store_def gbind_def)
  ultimately show ?thesis by blast
qed

lemma copied_loop:
  assumes "wf_slice m0 (Some s)" and d: "d = \<lparr>sl_array = lim m0, sl_off = 0, sl_len = sl_len s\<rparr>"
    and "copied m0 s 0 m" "n \<le> sl_len s"
  shows "\<exists>m'. go_each (\<lambda>i. gbind (get_elem el s i) (\<lambda>x. gbind (get_elem el d i) (\<lambda>z.
      gbind (into x z) (set_elem mk el d i)))) [0..<n] m = (Ret (), m') \<and> copied m0 s n m'"
  using assms(4)
proof (induction n)
  case 0 then show ?case using assms(3) by simp
next
  case (Suc n)
  then obtain m' where "go_each (\<lambda>i. gbind (get_elem el s i) (\<lambda>x. gbind (get_elem el d i) (\<lambda>z.
      gbind (into x z) (set_elem mk el d i)))) [0..<n] m = (Ret (), m')" "copied m0 s n m'" by auto
  with copied_step[OF assms(1) _ _ d, of n m'] Suc.prems show ?case
    using go_each_snoc by (fastforce simp del: go_each.simps)
qed

lemma copy_slice_copies:
  assumes wf: "wf_slice m0 inp"
  shows "ok m0 (copy_slice mk el zero into inp inp) (is_copy wf_slice refs_slice view_slice m0 inp)"
proof (cases inp)
  case None then show ?thesis by (simp add: copy_slice_def ok_def is_copy_def wf_slice_of_def refs_slice_of_def view_slice_of_def)
next
  case (Some s)
  let ?q = "lim m0" and ?d = "\<lparr>sl_array = lim m0, sl_off = 0, sl_len = sl_len s\<rparr>"
  let ?m = "m0\<lparr>cells := (cells m0)(?q \<mapsto> mk (replicate (sl_len s) zero)), lim := Suc ?q\<rparr>"
  have "copied m0 s 0 ?m" unfolding copied_def extends_def
    by (auto intro!: exI[of _ "replicate (sl_len s) zero"])
  then obtain m' where run: "copy_elems mk el into s ?d ?m = (Ret (), m')" and c: "copied m0 s (sl_len s) m'"
    using copied_loop[OF wf[unfolded Some] refl, of ?m "sl_len s"] by (auto simp: copy_elems_def)
  obtain ys where ys: "extends m0 m'" "?q < lim m'" "cells m' ?q = Some (mk ys)" "length ys = sl_len s"
    and each: "\<And>j. j < sl_len s \<Longrightarrow> wf m' (ys ! j) \<and> refs m' (ys ! j) \<subseteq> {Suc ?q..<lim m'} \<and> view m' (ys ! j) = view m0 (window el m0 s ! j)"
    using c by (auto simp: copied_def)
  have w: "window el m' ?d = ys" using ys by (simp add: window_def)
  have len: "length (window el m0 s) = sl_len s" using wf Some by (auto simp: wf_slice_of_def window_def)
  have "view_slice m' (Some ?d) = view_slice m0 inp"
    using each w len ys(4) Some by (auto simp: view_slice_of_def intro!: nth_equalityI)
  moreover have "wf_slice m' (Some ?d)" using each w ys by (auto simp: wf_slice_of_def in_set_conv_nth)
  moreover have "refs_slice m' (Some ?d) \<subseteq> {?q..<lim m'}"
    using each w ys by (fastforce simp: refs_slice_of_def in_set_conv_nth)
  moreover have "copy_slice mk el zero into inp inp m0 = (Ret (Some ?d), m')"
    using run Some by (simp add: copy_slice_def make_slice_def new_cell_def gbind_def gthen_def)
  ultimately show ?thesis using ys(1) Some by (simp add: ok_def is_copy_def)
qed

lemma wf_slice_bound:
  assumes "wf_slice m s"
  shows "refs_slice m s \<subseteq> {..<lim m}"
  using assms refs_bound by (cases s) (fastforce simp: wf_slice_of_def refs_slice_of_def)+

lemma slice_frame:
  assumes wf: "wf_slice m s" and eq: "\<And>a. a \<in> refs_slice m s \<Longrightarrow> cells m' a = cells m a" and l: "lim m \<le> lim m'"
  shows "wf_slice m' s \<and> refs_slice m' s = refs_slice m s \<and> view_slice m' s = view_slice m s"
proof (cases s)
  case None then show ?thesis by (simp add: wf_slice_of_def refs_slice_of_def view_slice_of_def)
next
  case (Some r)
  have w: "window el m' r = window el m r" using eq Some by (simp add: window_def refs_slice_of_def)
  have e: "wf m' x \<and> refs m' x = refs m x \<and> view m' x = view m x" if "x \<in> set (window el m r)" for x
    using wf eq l that Some by (intro frame) (auto simp: wf_slice_of_def refs_slice_of_def)
  show ?thesis using wf eq[of "sl_array r"] l e w Some by (auto simp: wf_slice_of_def refs_slice_of_def view_slice_of_def)
qed

end

text \<open>A slice whose elements are deep-copied is deep-copied.\<close>

sublocale slice_copy \<subseteq> slc: deep_copy "wf_slice_of mk el wf" "refs_slice_of el refs" "view_slice_of el view"
    "\<lambda>x z. copy_slice mk el zero into x x"
  by unfold_locales (erule copy_slice_copies, erule wf_slice_bound, rule slice_frame)

section \<open>Pointers\<close>

definition wf_pointer :: "('v \<Rightarrow> cell) \<Rightarrow> memory \<Rightarrow> addr option \<Rightarrow> bool" where
  "wf_pointer mk m p = (case p of None \<Rightarrow> True | Some a \<Rightarrow> a < lim m \<and> (\<exists>v. cells m a = Some (mk v)))"

definition refs_pointer :: "memory \<Rightarrow> addr option \<Rightarrow> addr set" where
  "refs_pointer m p = set_option p"

definition view_pointer :: "(cell \<Rightarrow> 'v) \<Rightarrow> memory \<Rightarrow> addr option \<Rightarrow> 'v option" where
  "view_pointer el m p = map_option (\<lambda>a. el (the (cells m a))) p"

locale pointer_copy =
  fixes mk :: "'v \<Rightarrow> cell" and el :: "cell \<Rightarrow> 'v" and zero :: 'v
  assumes el_mk [simp]: "el (mk v) = v"
begin

lemma copy_pointer_copies:
  assumes "wf_pointer mk m p"
  shows "ok m (copy_pointer mk el zero p p) (is_copy (wf_pointer mk) refs_pointer (view_pointer el) m p)"
proof (cases p)
  case None then show ?thesis by (simp add: copy_pointer_def ok_def is_copy_def wf_pointer_def refs_pointer_def view_pointer_def)
next
  case (Some a)
  then obtain v where v: "a < lim m" "cells m a = Some (mk v)" using assms by (auto simp: wf_pointer_def)
  let ?m = "m\<lparr>cells := (cells m)(lim m \<mapsto> mk v), lim := Suc (lim m)\<rparr>"
  have "copy_pointer mk el zero p p m = (Ret (Some (lim m)), ?m)"
    using v Some by (simp add: copy_pointer_def new_cell_def load_def store_def gbind_def)
  moreover have "extends m ?m" by (simp add: extends_def)
  ultimately show ?thesis using v Some
    by (auto simp: ok_def is_copy_def wf_pointer_def refs_pointer_def view_pointer_def)
qed

end

sublocale pointer_copy \<subseteq> ptr: deep_copy "wf_pointer mk" refs_pointer "view_pointer el" "\<lambda>x z. copy_pointer mk el zero x x"
  by unfold_locales (rule copy_pointer_copies, assumption,
    auto simp: wf_pointer_def refs_pointer_def view_pointer_def split: option.splits)

text \<open>A pointer to a struct that is deep-copied.\<close>

definition wf_deep_pointer :: "('v \<Rightarrow> cell) \<Rightarrow> (memory \<Rightarrow> 'v \<Rightarrow> bool) \<Rightarrow> memory \<Rightarrow> addr option \<Rightarrow> bool" where
  "wf_deep_pointer mk good m p = (case p of None \<Rightarrow> True | Some a \<Rightarrow> a < lim m \<and> (\<exists>v. cells m a = Some (mk v) \<and> good m v))"

definition refs_deep_pointer :: "(cell \<Rightarrow> 'v) \<Rightarrow> (memory \<Rightarrow> 'v \<Rightarrow> addr set) \<Rightarrow> memory \<Rightarrow> addr option \<Rightarrow> addr set" where
  "refs_deep_pointer el refs m p = (case p of None \<Rightarrow> {} | Some a \<Rightarrow> insert a (refs m (el (the (cells m a)))))"

definition view_deep_pointer :: "(cell \<Rightarrow> 'v) \<Rightarrow> (memory \<Rightarrow> 'v \<Rightarrow> 'w) \<Rightarrow> memory \<Rightarrow> addr option \<Rightarrow> 'w option" where
  "view_deep_pointer el view m p = map_option (\<lambda>a. view m (el (the (cells m a)))) p"

lemmas deep_pointer_defs = wf_deep_pointer_def refs_deep_pointer_def view_deep_pointer_def

locale deep_pointer_copy = deep_copy wf refs view into
  for wf :: "memory \<Rightarrow> 'e \<Rightarrow> bool" and refs and view :: "memory \<Rightarrow> 'e \<Rightarrow> 'v" and into +
  fixes mk :: "'e \<Rightarrow> cell" and el :: "cell \<Rightarrow> 'e" and zero :: 'e
  assumes el_mk [simp]: "el (mk x) = x"
begin

lemma copy_deep_pointer_copies:
  assumes "wf_deep_pointer mk wf m p"
  shows "ok m (copy_deep_pointer mk el zero into p p)
    (is_copy (wf_deep_pointer mk wf) (refs_deep_pointer el refs) (view_deep_pointer el view) m p)"
proof (cases p)
  case None then show ?thesis by (simp add: copy_deep_pointer_def ok_def is_copy_def deep_pointer_defs)
next
  case (Some a)
  then obtain v where v: "a < lim m" "cells m a = Some (mk v)" "wf m v" using assms by (auto simp: wf_deep_pointer_def)
  let ?m = "m\<lparr>cells := (cells m)(lim m \<mapsto> mk zero), lim := Suc (lim m)\<rparr>"
  have e: "extends m ?m" by (simp add: extends_def)
  have v': "wf ?m v" "view ?m v = view m v" using frame_extends[OF v(3) e] by simp_all
  obtain y m1 where y: "into v zero ?m = (Ret y, m1)" "extends ?m m1" "wf m1 y" "refs m1 y \<subseteq> {Suc (lim m)..<lim m1}" "view m1 y = view m v"
    using into_copies[OF v'(1), of zero] v'(2) by (auto simp: ok_def is_copy_def)
  let ?m' = "m1\<lparr>cells := (cells m1)(lim m \<mapsto> mk y)\<rparr>"
  have y': "wf ?m' y \<and> refs ?m' y = refs m1 y \<and> view ?m' y = view m1 y" using y(3,4) by (intro frame) auto
  have l: "Suc (lim m) \<le> lim m1" using y(2) by (simp add: extends_def)
  have "copy_deep_pointer mk el zero into p p m = (Ret (Some (lim m)), ?m')"
    using v Some y(1) by (simp add: copy_deep_pointer_def new_cell_def load_def store_def gbind_def)
  moreover have "extends m ?m'" using y(2) l by (auto simp: extends_def)
  moreover have "is_copy (wf_deep_pointer mk wf) (refs_deep_pointer el refs) (view_deep_pointer el view) m p (Some (lim m)) ?m'"
    using y y' l v Some by (auto simp: is_copy_def deep_pointer_defs)
  ultimately show ?thesis by (auto simp: ok_def)
qed

lemma deep_pointer_bound: "wf_deep_pointer mk wf m p \<Longrightarrow> refs_deep_pointer el refs m p \<subseteq> {..<lim m}"
  using refs_bound by (fastforce simp: deep_pointer_defs split: option.splits)

lemma deep_pointer_frame:
  assumes "wf_deep_pointer mk wf m p" "\<And>a. a \<in> refs_deep_pointer el refs m p \<Longrightarrow> cells m' a = cells m a" "lim m \<le> lim m'"
  shows "wf_deep_pointer mk wf m' p \<and> refs_deep_pointer el refs m' p = refs_deep_pointer el refs m p \<and>
    view_deep_pointer el view m' p = view_deep_pointer el view m p"
proof (cases p)
  case (Some a)
  then obtain v where v: "a < lim m" "cells m a = Some (mk v)" "wf m v" using assms(1) by (auto simp: wf_deep_pointer_def)
  then have eq: "\<And>b. b = a \<or> b \<in> refs m v \<Longrightarrow> cells m' b = cells m b" using assms(2) Some by (simp add: refs_deep_pointer_def)
  have "cells m' a = Some (mk v)" using eq[of a] v(2) by simp
  moreover have "wf m' v \<and> refs m' v = refs m v \<and> view m' v = view m v" by (rule frame[OF v(3) _ assms(3)]) (use eq in blast)
  ultimately show ?thesis using v Some assms(3) by (auto simp: deep_pointer_defs)
qed (simp add: deep_pointer_defs)

end

sublocale deep_pointer_copy \<subseteq> dpt: deep_copy "wf_deep_pointer mk wf" "refs_deep_pointer el refs" "view_deep_pointer el view"
    "\<lambda>x z. copy_deep_pointer mk el zero into x x"
  by unfold_locales (erule copy_deep_pointer_copies, erule deep_pointer_bound, rule deep_pointer_frame)

section \<open>Maps\<close>

definition wf_map :: "memory \<Rightarrow> addr option \<Rightarrow> bool" where
  "wf_map m p = (case p of None \<Rightarrow> True | Some a \<Rightarrow> a < lim m \<and> (\<exists>es. cells m a = Some (StringMap es) \<and> distinct (map fst es)))"

definition view_map :: "memory \<Rightarrow> addr option \<Rightarrow> (string \<rightharpoonup> string) option" where
  "view_map m p = map_option (\<lambda>a. map_of (the_StringMap (the (cells m a)))) p"

lemma update_new: "k \<notin> fst ` set es \<Longrightarrow> AList.update k v es = es @ [(k, v)]"
  by (induction es) auto

lemma copy_entries:
  assumes "cells m q = Some (StringMap ds)" "distinct (map fst (ds @ es))"
  shows "go_each (\<lambda>(key, val). set_key q key val) es m = (Ret (), m\<lparr>cells := (cells m)(q \<mapsto> StringMap (ds @ es))\<rparr>)"
  using assms
proof (induction es arbitrary: ds m)
  case Nil
  then have "m\<lparr>cells := (cells m)(q \<mapsto> StringMap ds)\<rparr> = m" by (simp add: fun_upd_idem)
  then show ?case by (simp add: fun_upd_def)
next
  case (Cons e es)
  obtain k v where e: "e = (k, v)" by fastforce
  have "AList.update k v ds = ds @ [(k, v)]" by (rule update_new) (use Cons.prems(2) e in auto)
  then have "set_key q k v m = (Ret (), m\<lparr>cells := (cells m)(q \<mapsto> StringMap (ds @ [(k, v)]))\<rparr>)"
    using Cons.prems(1) by (simp add: set_key_def load_def store_def gbind_def)
  then show ?case
    using Cons.IH[of "m\<lparr>cells := (cells m)(q \<mapsto> StringMap (ds @ [(k, v)]))\<rparr>" "ds @ [(k, v)]"] Cons.prems(2) e
    by (simp add: gthen_def gbind_def cong: if_cong)
qed

interpretation smap: deep_copy wf_map refs_pointer view_map "\<lambda>x z. copy_map x x"
proof unfold_locales
  fix m :: memory and p z :: "addr option"
  assume wf: "wf_map m p"
  show "ok m (copy_map p p) (is_copy wf_map refs_pointer view_map m p)"
  proof (cases p)
    case None then show ?thesis by (simp add: copy_map_def ok_def is_copy_def wf_map_def refs_pointer_def view_map_def)
  next
    case (Some a)
    then obtain es where es: "a < lim m" "cells m a = Some (StringMap es)" "distinct (map fst es)" using wf by (auto simp: wf_map_def)
    let ?m = "m\<lparr>cells := (cells m)(lim m \<mapsto> StringMap []), lim := Suc (lim m)\<rparr>"
    let ?m' = "m\<lparr>cells := (cells m)(lim m \<mapsto> StringMap es), lim := Suc (lim m)\<rparr>"
    have "go_each (\<lambda>(key, val). set_key (lim m) key val) es ?m = (Ret (), ?m')" using copy_entries[of ?m "lim m" "[]" es] es(3) by simp
    then have "copy_map p p m = (Ret (Some (lim m)), ?m')"
      using es Some by (simp add: copy_map_def new_cell_def load_def gbind_def gthen_def)
    moreover have "extends m ?m'" by (simp add: extends_def)
    ultimately show ?thesis using es Some by (auto simp: ok_def is_copy_def wf_map_def refs_pointer_def view_map_def)
  qed
qed (auto simp: wf_map_def refs_pointer_def view_map_def split: option.splits)

section \<open>Structs of several fields\<close>

text \<open>Two fields that are copied one after the other.\<close>

definition wf_pair :: "(memory \<Rightarrow> 'a \<Rightarrow> bool) \<Rightarrow> (memory \<Rightarrow> 'b \<Rightarrow> bool) \<Rightarrow> memory \<Rightarrow> 'a \<times> 'b \<Rightarrow> bool" where
  "wf_pair good1 good2 m p \<longleftrightarrow> good1 m (fst p) \<and> good2 m (snd p)"

definition refs_pair :: "(memory \<Rightarrow> 'a \<Rightarrow> addr set) \<Rightarrow> (memory \<Rightarrow> 'b \<Rightarrow> addr set) \<Rightarrow> memory \<Rightarrow> 'a \<times> 'b \<Rightarrow> addr set" where
  "refs_pair refs1 refs2 m p = refs1 m (fst p) \<union> refs2 m (snd p)"

definition view_pair :: "(memory \<Rightarrow> 'a \<Rightarrow> 'v) \<Rightarrow> (memory \<Rightarrow> 'b \<Rightarrow> 'w) \<Rightarrow> memory \<Rightarrow> 'a \<times> 'b \<Rightarrow> 'v \<times> 'w" where
  "view_pair view1 view2 m p = (view1 m (fst p), view2 m (snd p))"

definition copy_pair :: "('a \<Rightarrow> 'a \<Rightarrow> (memory, 'a) go) \<Rightarrow> ('b \<Rightarrow> 'b \<Rightarrow> (memory, 'b) go) \<Rightarrow> 'a \<times> 'b \<Rightarrow> 'a \<times> 'b \<Rightarrow> (memory, 'a \<times> 'b) go" where
  "copy_pair into1 into2 p z = gbind (into1 (fst p) (fst z)) (\<lambda>a. gbind (into2 (snd p) (snd z)) (\<lambda>b. ret (a, b)))"

lemmas pair_defs = wf_pair_def refs_pair_def view_pair_def

locale pair_copy = fst: deep_copy wf1 refs1 view1 into1 + snd: deep_copy wf2 refs2 view2 into2
  for wf1 :: "memory \<Rightarrow> 'a \<Rightarrow> bool" and refs1 and view1 :: "memory \<Rightarrow> 'a \<Rightarrow> 'v" and into1
    and wf2 :: "memory \<Rightarrow> 'b \<Rightarrow> bool" and refs2 and view2 :: "memory \<Rightarrow> 'b \<Rightarrow> 'w" and into2

sublocale pair_copy \<subseteq> both: deep_copy "wf_pair wf1 wf2" "refs_pair refs1 refs2" "view_pair view1 view2" "copy_pair into1 into2"
proof unfold_locales
  fix m p z
  assume wf: "wf_pair wf1 wf2 m p"
  show "ok m (copy_pair into1 into2 p z) (is_copy (wf_pair wf1 wf2) (refs_pair refs1 refs2) (view_pair view1 view2) m p)"
    unfolding copy_pair_def
  proof (rule fst.ok_copy[where start = m], goal_cases)
    case (3 a m1)
    note a = 3
    show ?case
    proof (rule snd.ok_copy[where start = m], goal_cases)
      case (3 b m2)
      show ?case using fst.copy_later[OF a(3) 3(1)] 3(3) by (auto intro!: ok_ret simp: is_copy_def pair_defs)
    qed (use wf a in \<open>simp_all add: wf_pair_def\<close>)
  qed (use wf in \<open>simp_all add: wf_pair_def\<close>)
  show "refs_pair refs1 refs2 m p \<subseteq> {..<lim m}"
    using wf fst.refs_bound snd.refs_bound by (simp add: wf_pair_def refs_pair_def)
next
  fix m m' :: memory and p
  assume "wf_pair wf1 wf2 m p" "\<And>a. a \<in> refs_pair refs1 refs2 m p \<Longrightarrow> cells m' a = cells m a" "lim m \<le> lim m'"
  then show "wf_pair wf1 wf2 m' p \<and> refs_pair refs1 refs2 m' p = refs_pair refs1 refs2 m p \<and> view_pair view1 view2 m' p = view_pair view1 view2 m p"
    using fst.frame[of m "fst p" m'] snd.frame[of m "snd p" m'] by (simp add: pair_defs)
qed

context pair_copy
begin

lemma both_copied: "deep_copy (wf_pair wf1 wf2) (refs_pair refs1 refs2) (view_pair view1 view2) (copy_pair into1 into2)"
  by (rule both.deep_copy_axioms)

end

text \<open>
  A struct: \<open>*out = *in\<close> and then the fields that \<open>get\<close> reads are copied and \<open>put\<close> back; \<open>plain\<close> is the
  value of the others.
\<close>

locale record_copy = deep_copy wf refs view into
  for wf :: "memory \<Rightarrow> 'a \<Rightarrow> bool" and refs and view :: "memory \<Rightarrow> 'a \<Rightarrow> 'v" and into +
  fixes get :: "'r \<Rightarrow> 'a" and put :: "'a \<Rightarrow> 'r \<Rightarrow> 'r" and plain :: "'r \<Rightarrow> 'p"
  assumes get_put: "get (put a r) = a" and plain_put: "plain (put a r) = plain r"

sublocale record_copy \<subseteq> rec: deep_copy "\<lambda>m r. wf m (get r)" "\<lambda>m r. refs m (get r)" "\<lambda>m r. (plain r, view m (get r))"
    "\<lambda>x z. gbind (into (get x) (get x)) (\<lambda>a. ret (put a x))"
proof unfold_locales
  fix m x z
  assume "wf m (get x)"
  then show "ok m (gbind (into (get x) (get x)) (\<lambda>a. ret (put a x)))
      (is_copy (\<lambda>m r. wf m (get r)) (\<lambda>m r. refs m (get r)) (\<lambda>m r. (plain r, view m (get r))) m x)"
    by (intro ok_copy[where start = m]) (auto intro!: ok_ret simp: is_copy_def get_put plain_put)
  show "refs m (get x) \<subseteq> {..<lim m}" using \<open>wf m (get x)\<close> by (rule refs_bound)
next
  fix m m' :: memory and x
  assume "wf m (get x)" "\<And>a. a \<in> refs m (get x) \<Longrightarrow> cells m' a = cells m a" "lim m \<le> lim m'"
  then show "wf m' (get x) \<and> refs m' (get x) = refs m (get x) \<and> (plain x, view m' (get x)) = (plain x, view m (get x))"
    using frame[of m "get x" m'] by simp
qed

text \<open>The contract in other words: the same function, and a value that the other one determines.\<close>

lemma deep_copy_restated:
  assumes "deep_copy W R V into" "\<And>m x. W' m x = W m x" "\<And>m x. R' m x = R m x" "\<And>m x. V' m x = f (V m x)"
    "\<And>x z. into' x z = into x z"
  shows "deep_copy W' R' V' into'"
proof -
  have W: "W' = W" "R' = R" "V' = (\<lambda>m x. f (V m x))" "into' = into" using assms(2-5) by (auto simp: fun_eq_iff)
  show ?thesis
  proof (unfold W, rule deep_copy.intro)
    show "ok m (into x z) (is_copy W R (\<lambda>m x. f (V m x)) m x)" if "W m x" for m x z
      by (rule ok_mono[OF deep_copy.into_copies[OF assms(1) that]]) (simp add: is_copy_def)
    show "R m x \<subseteq> {..<lim m}" if "W m x" for m x using deep_copy.refs_bound[OF assms(1) that] .
    show "W m' x \<and> R m' x = R m x \<and> f (V m' x) = f (V m x)"
      if "W m x" "\<And>a. a \<in> R m x \<Longrightarrow> cells m' a = cells m a" "lim m \<le> lim m'" for m m' :: memory and x
      using deep_copy.frame[OF assms(1) that(1), of m'] that(2,3) by simp
  qed
qed

section \<open>The fields that occur\<close>

interpretation bools: pointer_copy BoolCell the_Bool False
  by unfold_locales simp

interpretation bytes: slice_copy "\<lambda>m x. True" "\<lambda>m x. {}" "\<lambda>m x. x" assign Bytes the_Bytes "CHR 0x00"
  by unfold_locales simp

interpretation strs: slice_copy "\<lambda>m x. True" "\<lambda>m x. {}" "\<lambda>m x. x" assign Strings the_Strings "[]"
  by unfold_locales simp

interpretation time: pointer_copy TimeCell the_Time 0
  by unfold_locales simp

interpretation int64: pointer_copy IntCell the_Int 0
  by unfold_locales simp

end
