(* ===== verification/Deepcopy.thy ===== *)
theory Deepcopy
  imports Go_Memory
begin

text \<open>
  \<open>api/v1/zz\_generated.deepcopy.go\<close>: the functions by which the controller runtime hands a resource of its
  cache to a controller. The generated functions of the ten kinds have one shape each for a resource,
  a list and a spec; the shapes are functions of what differs, and each generated function is an
  instance. The locales \<open>struct_copy\<close> and \<open>kind_copy\<close> derive the contract of a resource and of a list from
  that of the spec. \<open>DeepCopyObject\<close> of the interface \<open>runtime.Object\<close> dispatches on the kind.
\<close>

section \<open>The shapes\<close>

text \<open>\<open>DeepCopy\<close>: nil for nil, otherwise a new struct that \<open>DeepCopyInto\<close> fills; then \<open>DeepCopyObject\<close>.\<close>

definition deepCopy :: "('a \<Rightarrow> 'a \<Rightarrow> (memory, 'a) go) \<Rightarrow> 'a \<Rightarrow> 'a option \<Rightarrow> (memory, 'a option) go" where
  "deepCopy into zero inp = (case inp of
     None \<Rightarrow> ret None
   | Some x \<Rightarrow> gbind (into x zero) (\<lambda>out. ret (Some out)))"

definition deepCopyObject :: "('a option \<Rightarrow> (memory, 'a option) go) \<Rightarrow> ('a \<Rightarrow> 'o) \<Rightarrow> 'a option \<Rightarrow> (memory, 'o option) go" where
  "deepCopyObject copy wrap inp = gbind (copy inp) (\<lambda>c. case c of Some c \<Rightarrow> ret (Some (wrap c)) | None \<Rightarrow> ret None)"

definition DeepCopyInto_Condition :: "Condition \<Rightarrow> Condition \<Rightarrow> (memory, Condition) go" where
  "DeepCopyInto_Condition inp out =
     (let out = inp in ret (out\<lparr>co_LastTransitionTime := co_LastTransitionTime inp\<rparr>))"

definition zero_Condition :: Condition where
  "zero_Condition = \<lparr>co_Type = [], co_Status = [], co_ObservedGeneration = 0, co_LastTransitionTime = 0,
     co_Reason = [], co_Message = []\<rparr>"

definition DeepCopyInto_OwnerReference :: "OwnerReference \<Rightarrow> OwnerReference \<Rightarrow> (memory, OwnerReference) go" where
  "DeepCopyInto_OwnerReference inp out =
     (let out = inp in
      gbind (copy_pointer BoolCell the_Bool False (or_Controller inp) (or_Controller out)) (\<lambda>c.
      gbind (copy_pointer BoolCell the_Bool False (or_BlockOwnerDeletion inp) (or_BlockOwnerDeletion out)) (\<lambda>b.
        ret (out\<lparr>or_Controller := c, or_BlockOwnerDeletion := b\<rparr>))))"

definition zero_OwnerReference :: OwnerReference where
  "zero_OwnerReference = \<lparr>or_APIVersion = [], or_Kind = [], or_Name = [], or_UID = [], or_Controller = None, or_BlockOwnerDeletion = None\<rparr>"

definition DeepCopyInto_FieldsV1 :: "FieldsV1 \<Rightarrow> FieldsV1 \<Rightarrow> (memory, FieldsV1) go" where
  "DeepCopyInto_FieldsV1 inp out =
     (let out = inp in
      gbind (copy_slice Bytes the_Bytes (CHR 0x00) assign (fv_Raw inp) (fv_Raw out)) (\<lambda>r. ret (out\<lparr>fv_Raw := r\<rparr>)))"

definition zero_FieldsV1 :: FieldsV1 where
  "zero_FieldsV1 = \<lparr>fv_Raw = None\<rparr>"

definition DeepCopyInto_ManagedFieldsEntry :: "ManagedFieldsEntry \<Rightarrow> ManagedFieldsEntry \<Rightarrow> (memory, ManagedFieldsEntry) go" where
  "DeepCopyInto_ManagedFieldsEntry inp out =
     (let out = inp in
      gbind (copy_pointer TimeCell the_Time 0 (mf_Time inp) (mf_Time out)) (\<lambda>t.
      gbind (copy_deep_pointer FieldsCell the_Fields zero_FieldsV1 DeepCopyInto_FieldsV1 (mf_FieldsV1 inp) (mf_FieldsV1 out)) (\<lambda>f.
        ret (out\<lparr>mf_Time := t, mf_FieldsV1 := f\<rparr>))))"

definition zero_ManagedFieldsEntry :: ManagedFieldsEntry where
  "zero_ManagedFieldsEntry = \<lparr>mf_Manager = [], mf_Operation = [], mf_APIVersion = [], mf_Time = None, mf_FieldsType = [], mf_FieldsV1 = None\<rparr>"

definition DeepCopyInto_ObjectMeta :: "MemMeta \<Rightarrow> MemMeta \<Rightarrow> (memory, MemMeta) go" where
  "DeepCopyInto_ObjectMeta inp out =
     (let out = inp; out = out\<lparr>mm_CreationTimestamp := mm_CreationTimestamp inp\<rparr> in
      gbind (copy_pointer TimeCell the_Time 0 (mm_DeletionTimestamp inp) (mm_DeletionTimestamp out)) (\<lambda>t.
      gbind (copy_pointer IntCell the_Int 0 (mm_DeletionGracePeriodSeconds inp) (mm_DeletionGracePeriodSeconds out)) (\<lambda>g.
      gbind (copy_map (mm_Labels inp) (mm_Labels out)) (\<lambda>l.
      gbind (copy_map (mm_Annotations inp) (mm_Annotations out)) (\<lambda>a.
      gbind (copy_slice OwnerReferences the_OwnerReferences zero_OwnerReference DeepCopyInto_OwnerReference
        (mm_OwnerReferences inp) (mm_OwnerReferences out)) (\<lambda>r.
      gbind (copy_slice Strings the_Strings [] assign (mm_Finalizers inp) (mm_Finalizers out)) (\<lambda>f.
      gbind (copy_slice ManagedFields the_ManagedFields zero_ManagedFieldsEntry DeepCopyInto_ManagedFieldsEntry
        (mm_ManagedFields inp) (mm_ManagedFields out)) (\<lambda>e.
        ret (out\<lparr>mm_DeletionTimestamp := t, mm_DeletionGracePeriodSeconds := g, mm_Labels := l, mm_Annotations := a,
          mm_OwnerReferences := r, mm_Finalizers := f, mm_ManagedFields := e\<rparr>)))))))))"

definition zero_MemMeta :: MemMeta where
  "zero_MemMeta = \<lparr>mm_Name = [], mm_GenerateName = [], mm_Namespace = [], mm_SelfLink = [], mm_UID = [], mm_ResourceVersion = [],
     mm_Generation = 0, mm_CreationTimestamp = 0, mm_DeletionTimestamp = None, mm_DeletionGracePeriodSeconds = None,
     mm_Labels = None, mm_Annotations = None, mm_OwnerReferences = None, mm_Finalizers = None, mm_ClusterName = [],
     mm_ManagedFields = None\<rparr>"

definition DeepCopyInto_ListMeta :: "ListMeta \<Rightarrow> ListMeta \<Rightarrow> (memory, ListMeta) go" where
  "DeepCopyInto_ListMeta inp out =
     (let out = inp in
      gbind (copy_pointer IntCell the_Int 0 (li_RemainingItemCount inp) (li_RemainingItemCount out)) (\<lambda>r.
        ret (out\<lparr>li_RemainingItemCount := r\<rparr>)))"

definition DeepCopyInto_RPCStatus :: "MemStatus \<Rightarrow> MemStatus \<Rightarrow> (memory, MemStatus) go" where
  "DeepCopyInto_RPCStatus inp out =
     (let out = inp in
      gbind (copy_slice Conditions the_Conditions zero_Condition DeepCopyInto_Condition (ms_Conditions inp) (ms_Conditions out)) (\<lambda>c.
      gbind (copy_slice Strings the_Strings [] assign (ms_Capabilities inp) (ms_Capabilities out)) (\<lambda>p.
        ret (out\<lparr>ms_Conditions := c, ms_Capabilities := p\<rparr>))))"

text \<open>\<open>DeepCopyInto\<close> of a kind, given how its spec is copied.\<close>

definition deepCopyInto_struct ::
    "('s \<Rightarrow> 's \<Rightarrow> (memory, 's) go) \<Rightarrow> 's struct \<Rightarrow> 's struct \<Rightarrow> (memory, 's struct) go" where
  "deepCopyInto_struct copySpec inp out =
     (let out = inp; out = out\<lparr>x_TypeMeta := x_TypeMeta inp\<rparr> in
      gbind (DeepCopyInto_ObjectMeta (x_Meta inp) (x_Meta out)) (\<lambda>meta.
      gbind (copySpec (x_Spec inp) (x_Spec out)) (\<lambda>spec.
      gbind (DeepCopyInto_RPCStatus (x_RPCStatus inp) (x_RPCStatus out)) (\<lambda>st.
        ret (out\<lparr>x_Meta := meta, x_Spec := spec, x_RPCStatus := st\<rparr>)))))"

text \<open>\<open>DeepCopyInto\<close> of a list, given how an item is copied; an item of the wrong kind cannot occur.\<close>

record ListStruct =
  l_TypeMeta :: TypeMeta
  l_ListMeta :: ListMeta
  l_Items :: "slice option"

definition copy_item :: "('a \<Rightarrow> item) \<Rightarrow> (item \<Rightarrow> 'a) \<Rightarrow> ('a \<Rightarrow> 'a \<Rightarrow> (memory, 'a) go) \<Rightarrow> item \<Rightarrow> item \<Rightarrow> (memory, item) go" where
  "copy_item mk un into x z = gbind (into (un x) (un z)) (\<lambda>y. ret (mk y))"

definition deepCopyInto_list ::
    "('a \<Rightarrow> item) \<Rightarrow> (item \<Rightarrow> 'a) \<Rightarrow> 'a \<Rightarrow> ('a \<Rightarrow> 'a \<Rightarrow> (memory, 'a) go) \<Rightarrow> ListStruct \<Rightarrow> ListStruct \<Rightarrow> (memory, ListStruct) go" where
  "deepCopyInto_list mk un zero into inp out =
     (let out = inp; out = out\<lparr>l_TypeMeta := l_TypeMeta inp\<rparr> in
      gbind (DeepCopyInto_ListMeta (l_ListMeta inp) (l_ListMeta out)) (\<lambda>meta.
      gbind (copy_slice Items the_Items (mk zero) (copy_item mk un into) (l_Items inp) (l_Items out)) (\<lambda>items.
        ret (out\<lparr>l_ListMeta := meta, l_Items := items\<rparr>))))"

definition zero_struct :: "'s \<Rightarrow> 's struct" where
  "zero_struct spec = \<lparr>x_TypeMeta = \<lparr>tm_Kind = [], tm_APIVersion = []\<rparr>,
     x_Meta = zero_MemMeta, x_Spec = spec,
     x_RPCStatus = \<lparr>ms_Conditions = None, ms_Status = [], ms_RpcReply = [], ms_Capabilities = None, ms_SubscriptionID = []\<rparr>\<rparr>"

definition zero_list :: ListStruct where
  "zero_list = \<lparr>l_TypeMeta = \<lparr>tm_Kind = [], tm_APIVersion = []\<rparr>,
     l_ListMeta = \<lparr>li_SelfLink = [], li_ResourceVersion = [], li_Continue = [], li_RemainingItemCount = None\<rparr>, l_Items = None\<rparr>"

section \<open>The generated functions\<close>

definition DeepCopyInto_DependsOn :: "DependsOn \<Rightarrow> DependsOn \<Rightarrow> (memory, DependsOn) go" where
  "DeepCopyInto_DependsOn inp out = ret inp"

definition DeepCopy_DependsOn :: "DependsOn option \<Rightarrow> (memory, DependsOn option) go" where
  "DeepCopy_DependsOn = deepCopy DeepCopyInto_DependsOn zero_DependsOn"

definition DeepCopyInto_KafkaSink :: "KafkaSink \<Rightarrow> KafkaSink \<Rightarrow> (memory, KafkaSink) go" where
  "DeepCopyInto_KafkaSink inp out = ret inp"

definition DeepCopy_KafkaSink :: "KafkaSink option \<Rightarrow> (memory, KafkaSink option) go" where
  "DeepCopy_KafkaSink = deepCopy DeepCopyInto_KafkaSink zero_KafkaSink"

definition DeepCopy_RPCStatus :: "MemStatus option \<Rightarrow> (memory, MemStatus option) go" where
  "DeepCopy_RPCStatus = deepCopy DeepCopyInto_RPCStatus (x_RPCStatus (zero_struct ()))"

text \<open>The list types of the ten kinds.\<close>

type_synonym CommitList = ListStruct
type_synonym CreateSubscriptionList = ListStruct
type_synonym EditConfigList = ListStruct
type_synonym EstablishSubscriptionList = ListStruct
type_synonym GetList = ListStruct
type_synonym GetConfigList = ListStruct
type_synonym LockList = ListStruct
type_synonym MountPointList = ListStruct
type_synonym RPCList = ListStruct
type_synonym UnlockList = ListStruct

text \<open>The values of \<open>runtime.Object\<close>: a pointer to a resource or to a list, by its type.\<close>

datatype RuntimeObject =
    RCommit "CommitSpec struct" | RCommitList CommitList
  | RCreateSubscription "CreateSubscriptionSpec struct" | RCreateSubscriptionList CreateSubscriptionList
  | REditConfig "EditConfigSpec struct" | REditConfigList EditConfigList
  | REstablishSubscription "EstablishSubscriptionSpec struct" | REstablishSubscriptionList EstablishSubscriptionList
  | RGet "GetSpec struct" | RGetList GetList
  | RGetConfig "GetConfigSpec struct" | RGetConfigList GetConfigList
  | RLock "LockSpec struct" | RLockList LockList
  | RMountPoint "MemMountPointSpec struct" | RMountPointList MountPointList
  | RRPC "RPCSpec struct" | RRPCList RPCList
  | RUnlock "UnlockSpec struct" | RUnlockList UnlockList

paragraph \<open>Commit\<close>

definition DeepCopyInto_CommitSpec :: "CommitSpec \<Rightarrow> CommitSpec \<Rightarrow> (memory, CommitSpec) go" where
  "DeepCopyInto_CommitSpec inp out = (let out = inp in ret (out\<lparr>cm_DependsOn := cm_DependsOn inp\<rparr>))"

definition DeepCopy_CommitSpec :: "CommitSpec option \<Rightarrow> (memory, CommitSpec option) go" where
  "DeepCopy_CommitSpec = deepCopy DeepCopyInto_CommitSpec (cr_Spec zero_Commit)"

definition DeepCopyInto_Commit :: "CommitSpec struct \<Rightarrow> CommitSpec struct \<Rightarrow> (memory, CommitSpec struct) go" where
  "DeepCopyInto_Commit = deepCopyInto_struct assign"

definition DeepCopy_Commit :: "CommitSpec struct option \<Rightarrow> (memory, CommitSpec struct option) go" where
  "DeepCopy_Commit = deepCopy DeepCopyInto_Commit (zero_struct (cr_Spec zero_Commit))"

definition DeepCopyObject_Commit :: "CommitSpec struct option \<Rightarrow> (memory, RuntimeObject option) go" where
  "DeepCopyObject_Commit = deepCopyObject DeepCopy_Commit RCommit"

definition DeepCopyInto_CommitList :: "CommitList \<Rightarrow> CommitList \<Rightarrow> (memory, CommitList) go" where
  "DeepCopyInto_CommitList = deepCopyInto_list ICommit un_Commit (zero_struct (cr_Spec zero_Commit)) DeepCopyInto_Commit"

definition DeepCopy_CommitList :: "CommitList option \<Rightarrow> (memory, CommitList option) go" where
  "DeepCopy_CommitList = deepCopy DeepCopyInto_CommitList zero_list"

definition DeepCopyObject_CommitList :: "CommitList option \<Rightarrow> (memory, RuntimeObject option) go" where
  "DeepCopyObject_CommitList = deepCopyObject DeepCopy_CommitList RCommitList"

paragraph \<open>CreateSubscription\<close>

definition DeepCopyInto_CreateSubscriptionSpec :: "CreateSubscriptionSpec \<Rightarrow> CreateSubscriptionSpec \<Rightarrow> (memory, CreateSubscriptionSpec) go" where
  "DeepCopyInto_CreateSubscriptionSpec inp out = (let out = inp in ret (out\<lparr>cs_KafkaSink := cs_KafkaSink inp\<rparr>))"

definition DeepCopy_CreateSubscriptionSpec :: "CreateSubscriptionSpec option \<Rightarrow> (memory, CreateSubscriptionSpec option) go" where
  "DeepCopy_CreateSubscriptionSpec = deepCopy DeepCopyInto_CreateSubscriptionSpec (cr_Spec zero_CreateSubscription)"

definition DeepCopyInto_CreateSubscription :: "CreateSubscriptionSpec struct \<Rightarrow> CreateSubscriptionSpec struct \<Rightarrow> (memory, CreateSubscriptionSpec struct) go" where
  "DeepCopyInto_CreateSubscription = deepCopyInto_struct assign"

definition DeepCopy_CreateSubscription :: "CreateSubscriptionSpec struct option \<Rightarrow> (memory, CreateSubscriptionSpec struct option) go" where
  "DeepCopy_CreateSubscription = deepCopy DeepCopyInto_CreateSubscription (zero_struct (cr_Spec zero_CreateSubscription))"

definition DeepCopyObject_CreateSubscription :: "CreateSubscriptionSpec struct option \<Rightarrow> (memory, RuntimeObject option) go" where
  "DeepCopyObject_CreateSubscription = deepCopyObject DeepCopy_CreateSubscription RCreateSubscription"

definition DeepCopyInto_CreateSubscriptionList :: "CreateSubscriptionList \<Rightarrow> CreateSubscriptionList \<Rightarrow> (memory, CreateSubscriptionList) go" where
  "DeepCopyInto_CreateSubscriptionList = deepCopyInto_list ICreateSubscription un_CreateSubscription (zero_struct (cr_Spec zero_CreateSubscription)) DeepCopyInto_CreateSubscription"

definition DeepCopy_CreateSubscriptionList :: "CreateSubscriptionList option \<Rightarrow> (memory, CreateSubscriptionList option) go" where
  "DeepCopy_CreateSubscriptionList = deepCopy DeepCopyInto_CreateSubscriptionList zero_list"

definition DeepCopyObject_CreateSubscriptionList :: "CreateSubscriptionList option \<Rightarrow> (memory, RuntimeObject option) go" where
  "DeepCopyObject_CreateSubscriptionList = deepCopyObject DeepCopy_CreateSubscriptionList RCreateSubscriptionList"

paragraph \<open>EditConfig\<close>

definition DeepCopyInto_EditConfigSpec :: "EditConfigSpec \<Rightarrow> EditConfigSpec \<Rightarrow> (memory, EditConfigSpec) go" where
  "DeepCopyInto_EditConfigSpec inp out = (let out = inp in ret (out\<lparr>ec_DependsOn := ec_DependsOn inp\<rparr>))"

definition DeepCopy_EditConfigSpec :: "EditConfigSpec option \<Rightarrow> (memory, EditConfigSpec option) go" where
  "DeepCopy_EditConfigSpec = deepCopy DeepCopyInto_EditConfigSpec (cr_Spec zero_EditConfig)"

definition DeepCopyInto_EditConfig :: "EditConfigSpec struct \<Rightarrow> EditConfigSpec struct \<Rightarrow> (memory, EditConfigSpec struct) go" where
  "DeepCopyInto_EditConfig = deepCopyInto_struct assign"

definition DeepCopy_EditConfig :: "EditConfigSpec struct option \<Rightarrow> (memory, EditConfigSpec struct option) go" where
  "DeepCopy_EditConfig = deepCopy DeepCopyInto_EditConfig (zero_struct (cr_Spec zero_EditConfig))"

definition DeepCopyObject_EditConfig :: "EditConfigSpec struct option \<Rightarrow> (memory, RuntimeObject option) go" where
  "DeepCopyObject_EditConfig = deepCopyObject DeepCopy_EditConfig REditConfig"

definition DeepCopyInto_EditConfigList :: "EditConfigList \<Rightarrow> EditConfigList \<Rightarrow> (memory, EditConfigList) go" where
  "DeepCopyInto_EditConfigList = deepCopyInto_list IEditConfig un_EditConfig (zero_struct (cr_Spec zero_EditConfig)) DeepCopyInto_EditConfig"

definition DeepCopy_EditConfigList :: "EditConfigList option \<Rightarrow> (memory, EditConfigList option) go" where
  "DeepCopy_EditConfigList = deepCopy DeepCopyInto_EditConfigList zero_list"

definition DeepCopyObject_EditConfigList :: "EditConfigList option \<Rightarrow> (memory, RuntimeObject option) go" where
  "DeepCopyObject_EditConfigList = deepCopyObject DeepCopy_EditConfigList REditConfigList"

paragraph \<open>EstablishSubscription\<close>

definition DeepCopyInto_EstablishSubscriptionSpec :: "EstablishSubscriptionSpec \<Rightarrow> EstablishSubscriptionSpec \<Rightarrow> (memory, EstablishSubscriptionSpec) go" where
  "DeepCopyInto_EstablishSubscriptionSpec inp out = (let out = inp in ret (out\<lparr>es_KafkaSink := es_KafkaSink inp\<rparr>))"

definition DeepCopy_EstablishSubscriptionSpec :: "EstablishSubscriptionSpec option \<Rightarrow> (memory, EstablishSubscriptionSpec option) go" where
  "DeepCopy_EstablishSubscriptionSpec = deepCopy DeepCopyInto_EstablishSubscriptionSpec (cr_Spec zero_EstablishSubscription)"

definition DeepCopyInto_EstablishSubscription :: "EstablishSubscriptionSpec struct \<Rightarrow> EstablishSubscriptionSpec struct \<Rightarrow> (memory, EstablishSubscriptionSpec struct) go" where
  "DeepCopyInto_EstablishSubscription = deepCopyInto_struct assign"

definition DeepCopy_EstablishSubscription :: "EstablishSubscriptionSpec struct option \<Rightarrow> (memory, EstablishSubscriptionSpec struct option) go" where
  "DeepCopy_EstablishSubscription = deepCopy DeepCopyInto_EstablishSubscription (zero_struct (cr_Spec zero_EstablishSubscription))"

definition DeepCopyObject_EstablishSubscription :: "EstablishSubscriptionSpec struct option \<Rightarrow> (memory, RuntimeObject option) go" where
  "DeepCopyObject_EstablishSubscription = deepCopyObject DeepCopy_EstablishSubscription REstablishSubscription"

definition DeepCopyInto_EstablishSubscriptionList :: "EstablishSubscriptionList \<Rightarrow> EstablishSubscriptionList \<Rightarrow> (memory, EstablishSubscriptionList) go" where
  "DeepCopyInto_EstablishSubscriptionList = deepCopyInto_list IEstablishSubscription un_EstablishSubscription (zero_struct (cr_Spec zero_EstablishSubscription)) DeepCopyInto_EstablishSubscription"

definition DeepCopy_EstablishSubscriptionList :: "EstablishSubscriptionList option \<Rightarrow> (memory, EstablishSubscriptionList option) go" where
  "DeepCopy_EstablishSubscriptionList = deepCopy DeepCopyInto_EstablishSubscriptionList zero_list"

definition DeepCopyObject_EstablishSubscriptionList :: "EstablishSubscriptionList option \<Rightarrow> (memory, RuntimeObject option) go" where
  "DeepCopyObject_EstablishSubscriptionList = deepCopyObject DeepCopy_EstablishSubscriptionList REstablishSubscriptionList"

paragraph \<open>Get\<close>

definition DeepCopyInto_GetSpec :: "GetSpec \<Rightarrow> GetSpec \<Rightarrow> (memory, GetSpec) go" where
  "DeepCopyInto_GetSpec inp out = ret inp"

definition DeepCopy_GetSpec :: "GetSpec option \<Rightarrow> (memory, GetSpec option) go" where
  "DeepCopy_GetSpec = deepCopy DeepCopyInto_GetSpec (cr_Spec zero_Get)"

definition DeepCopyInto_Get :: "GetSpec struct \<Rightarrow> GetSpec struct \<Rightarrow> (memory, GetSpec struct) go" where
  "DeepCopyInto_Get = deepCopyInto_struct assign"

definition DeepCopy_Get :: "GetSpec struct option \<Rightarrow> (memory, GetSpec struct option) go" where
  "DeepCopy_Get = deepCopy DeepCopyInto_Get (zero_struct (cr_Spec zero_Get))"

definition DeepCopyObject_Get :: "GetSpec struct option \<Rightarrow> (memory, RuntimeObject option) go" where
  "DeepCopyObject_Get = deepCopyObject DeepCopy_Get RGet"

definition DeepCopyInto_GetList :: "GetList \<Rightarrow> GetList \<Rightarrow> (memory, GetList) go" where
  "DeepCopyInto_GetList = deepCopyInto_list IGet un_Get (zero_struct (cr_Spec zero_Get)) DeepCopyInto_Get"

definition DeepCopy_GetList :: "GetList option \<Rightarrow> (memory, GetList option) go" where
  "DeepCopy_GetList = deepCopy DeepCopyInto_GetList zero_list"

definition DeepCopyObject_GetList :: "GetList option \<Rightarrow> (memory, RuntimeObject option) go" where
  "DeepCopyObject_GetList = deepCopyObject DeepCopy_GetList RGetList"

paragraph \<open>GetConfig\<close>

definition DeepCopyInto_GetConfigSpec :: "GetConfigSpec \<Rightarrow> GetConfigSpec \<Rightarrow> (memory, GetConfigSpec) go" where
  "DeepCopyInto_GetConfigSpec inp out = ret inp"

definition DeepCopy_GetConfigSpec :: "GetConfigSpec option \<Rightarrow> (memory, GetConfigSpec option) go" where
  "DeepCopy_GetConfigSpec = deepCopy DeepCopyInto_GetConfigSpec (cr_Spec zero_GetConfig)"

definition DeepCopyInto_GetConfig :: "GetConfigSpec struct \<Rightarrow> GetConfigSpec struct \<Rightarrow> (memory, GetConfigSpec struct) go" where
  "DeepCopyInto_GetConfig = deepCopyInto_struct assign"

definition DeepCopy_GetConfig :: "GetConfigSpec struct option \<Rightarrow> (memory, GetConfigSpec struct option) go" where
  "DeepCopy_GetConfig = deepCopy DeepCopyInto_GetConfig (zero_struct (cr_Spec zero_GetConfig))"

definition DeepCopyObject_GetConfig :: "GetConfigSpec struct option \<Rightarrow> (memory, RuntimeObject option) go" where
  "DeepCopyObject_GetConfig = deepCopyObject DeepCopy_GetConfig RGetConfig"

definition DeepCopyInto_GetConfigList :: "GetConfigList \<Rightarrow> GetConfigList \<Rightarrow> (memory, GetConfigList) go" where
  "DeepCopyInto_GetConfigList = deepCopyInto_list IGetConfig un_GetConfig (zero_struct (cr_Spec zero_GetConfig)) DeepCopyInto_GetConfig"

definition DeepCopy_GetConfigList :: "GetConfigList option \<Rightarrow> (memory, GetConfigList option) go" where
  "DeepCopy_GetConfigList = deepCopy DeepCopyInto_GetConfigList zero_list"

definition DeepCopyObject_GetConfigList :: "GetConfigList option \<Rightarrow> (memory, RuntimeObject option) go" where
  "DeepCopyObject_GetConfigList = deepCopyObject DeepCopy_GetConfigList RGetConfigList"

paragraph \<open>Lock\<close>

definition DeepCopyInto_LockSpec :: "LockSpec \<Rightarrow> LockSpec \<Rightarrow> (memory, LockSpec) go" where
  "DeepCopyInto_LockSpec inp out = ret inp"

definition DeepCopy_LockSpec :: "LockSpec option \<Rightarrow> (memory, LockSpec option) go" where
  "DeepCopy_LockSpec = deepCopy DeepCopyInto_LockSpec (cr_Spec zero_Lock)"

definition DeepCopyInto_Lock :: "LockSpec struct \<Rightarrow> LockSpec struct \<Rightarrow> (memory, LockSpec struct) go" where
  "DeepCopyInto_Lock = deepCopyInto_struct assign"

definition DeepCopy_Lock :: "LockSpec struct option \<Rightarrow> (memory, LockSpec struct option) go" where
  "DeepCopy_Lock = deepCopy DeepCopyInto_Lock (zero_struct (cr_Spec zero_Lock))"

definition DeepCopyObject_Lock :: "LockSpec struct option \<Rightarrow> (memory, RuntimeObject option) go" where
  "DeepCopyObject_Lock = deepCopyObject DeepCopy_Lock RLock"

definition DeepCopyInto_LockList :: "LockList \<Rightarrow> LockList \<Rightarrow> (memory, LockList) go" where
  "DeepCopyInto_LockList = deepCopyInto_list ILock un_Lock (zero_struct (cr_Spec zero_Lock)) DeepCopyInto_Lock"

definition DeepCopy_LockList :: "LockList option \<Rightarrow> (memory, LockList option) go" where
  "DeepCopy_LockList = deepCopy DeepCopyInto_LockList zero_list"

definition DeepCopyObject_LockList :: "LockList option \<Rightarrow> (memory, RuntimeObject option) go" where
  "DeepCopyObject_LockList = deepCopyObject DeepCopy_LockList RLockList"

paragraph \<open>MountPoint\<close>

definition DeepCopyInto_MountPointSpec :: "MemMountPointSpec \<Rightarrow> MemMountPointSpec \<Rightarrow> (memory, MemMountPointSpec) go" where
  "DeepCopyInto_MountPointSpec inp out =
     (let out = inp in
      gbind (copy_slice Strings the_Strings [] assign (mq_AdditionalCapabilities inp) (mq_AdditionalCapabilities out)) (\<lambda>c.
        ret (out\<lparr>mq_AdditionalCapabilities := c\<rparr>)))"

definition zero_MemMountPointSpec :: MemMountPointSpec where
  "zero_MemMountPointSpec = \<lparr>mq_Target = [], mq_Username = [], mq_Password = [], mq_Timeout = 0, mq_AdditionalCapabilities = None\<rparr>"

definition DeepCopy_MountPointSpec :: "MemMountPointSpec option \<Rightarrow> (memory, MemMountPointSpec option) go" where
  "DeepCopy_MountPointSpec = deepCopy DeepCopyInto_MountPointSpec zero_MemMountPointSpec"

definition DeepCopyInto_MountPoint :: "MemMountPointSpec struct \<Rightarrow> MemMountPointSpec struct \<Rightarrow> (memory, MemMountPointSpec struct) go" where
  "DeepCopyInto_MountPoint = deepCopyInto_struct DeepCopyInto_MountPointSpec"

definition DeepCopy_MountPoint :: "MemMountPointSpec struct option \<Rightarrow> (memory, MemMountPointSpec struct option) go" where
  "DeepCopy_MountPoint = deepCopy DeepCopyInto_MountPoint (zero_struct zero_MemMountPointSpec)"

definition DeepCopyObject_MountPoint :: "MemMountPointSpec struct option \<Rightarrow> (memory, RuntimeObject option) go" where
  "DeepCopyObject_MountPoint = deepCopyObject DeepCopy_MountPoint RMountPoint"

definition DeepCopyInto_MountPointList :: "MountPointList \<Rightarrow> MountPointList \<Rightarrow> (memory, MountPointList) go" where
  "DeepCopyInto_MountPointList = deepCopyInto_list IMountPoint un_MountPoint (zero_struct zero_MemMountPointSpec) DeepCopyInto_MountPoint"

definition DeepCopy_MountPointList :: "MountPointList option \<Rightarrow> (memory, MountPointList option) go" where
  "DeepCopy_MountPointList = deepCopy DeepCopyInto_MountPointList zero_list"

definition DeepCopyObject_MountPointList :: "MountPointList option \<Rightarrow> (memory, RuntimeObject option) go" where
  "DeepCopyObject_MountPointList = deepCopyObject DeepCopy_MountPointList RMountPointList"

paragraph \<open>RPC\<close>

definition DeepCopyInto_RPCSpec :: "RPCSpec \<Rightarrow> RPCSpec \<Rightarrow> (memory, RPCSpec) go" where
  "DeepCopyInto_RPCSpec inp out = ret inp"

definition DeepCopy_RPCSpec :: "RPCSpec option \<Rightarrow> (memory, RPCSpec option) go" where
  "DeepCopy_RPCSpec = deepCopy DeepCopyInto_RPCSpec (cr_Spec zero_RPC)"

definition DeepCopyInto_RPC :: "RPCSpec struct \<Rightarrow> RPCSpec struct \<Rightarrow> (memory, RPCSpec struct) go" where
  "DeepCopyInto_RPC = deepCopyInto_struct assign"

definition DeepCopy_RPC :: "RPCSpec struct option \<Rightarrow> (memory, RPCSpec struct option) go" where
  "DeepCopy_RPC = deepCopy DeepCopyInto_RPC (zero_struct (cr_Spec zero_RPC))"

definition DeepCopyObject_RPC :: "RPCSpec struct option \<Rightarrow> (memory, RuntimeObject option) go" where
  "DeepCopyObject_RPC = deepCopyObject DeepCopy_RPC RRPC"

definition DeepCopyInto_RPCList :: "RPCList \<Rightarrow> RPCList \<Rightarrow> (memory, RPCList) go" where
  "DeepCopyInto_RPCList = deepCopyInto_list IRPC un_RPC (zero_struct (cr_Spec zero_RPC)) DeepCopyInto_RPC"

definition DeepCopy_RPCList :: "RPCList option \<Rightarrow> (memory, RPCList option) go" where
  "DeepCopy_RPCList = deepCopy DeepCopyInto_RPCList zero_list"

definition DeepCopyObject_RPCList :: "RPCList option \<Rightarrow> (memory, RuntimeObject option) go" where
  "DeepCopyObject_RPCList = deepCopyObject DeepCopy_RPCList RRPCList"

paragraph \<open>Unlock\<close>

definition DeepCopyInto_UnlockSpec :: "UnlockSpec \<Rightarrow> UnlockSpec \<Rightarrow> (memory, UnlockSpec) go" where
  "DeepCopyInto_UnlockSpec inp out = (let out = inp in ret (out\<lparr>ul_DependsOn := ul_DependsOn inp\<rparr>))"

definition DeepCopy_UnlockSpec :: "UnlockSpec option \<Rightarrow> (memory, UnlockSpec option) go" where
  "DeepCopy_UnlockSpec = deepCopy DeepCopyInto_UnlockSpec (cr_Spec zero_Unlock)"

definition DeepCopyInto_Unlock :: "UnlockSpec struct \<Rightarrow> UnlockSpec struct \<Rightarrow> (memory, UnlockSpec struct) go" where
  "DeepCopyInto_Unlock = deepCopyInto_struct assign"

definition DeepCopy_Unlock :: "UnlockSpec struct option \<Rightarrow> (memory, UnlockSpec struct option) go" where
  "DeepCopy_Unlock = deepCopy DeepCopyInto_Unlock (zero_struct (cr_Spec zero_Unlock))"

definition DeepCopyObject_Unlock :: "UnlockSpec struct option \<Rightarrow> (memory, RuntimeObject option) go" where
  "DeepCopyObject_Unlock = deepCopyObject DeepCopy_Unlock RUnlock"

definition DeepCopyInto_UnlockList :: "UnlockList \<Rightarrow> UnlockList \<Rightarrow> (memory, UnlockList) go" where
  "DeepCopyInto_UnlockList = deepCopyInto_list IUnlock un_Unlock (zero_struct (cr_Spec zero_Unlock)) DeepCopyInto_Unlock"

definition DeepCopy_UnlockList :: "UnlockList option \<Rightarrow> (memory, UnlockList option) go" where
  "DeepCopy_UnlockList = deepCopy DeepCopyInto_UnlockList zero_list"

definition DeepCopyObject_UnlockList :: "UnlockList option \<Rightarrow> (memory, RuntimeObject option) go" where
  "DeepCopyObject_UnlockList = deepCopyObject DeepCopy_UnlockList RUnlockList"

paragraph \<open>Dispatch on the dynamic type\<close>

fun DeepCopyObject :: "RuntimeObject \<Rightarrow> (memory, RuntimeObject option) go" where
  "DeepCopyObject (RCommit x) = DeepCopyObject_Commit (Some x)"
| "DeepCopyObject (RCommitList x) = DeepCopyObject_CommitList (Some x)"
| "DeepCopyObject (RCreateSubscription x) = DeepCopyObject_CreateSubscription (Some x)"
| "DeepCopyObject (RCreateSubscriptionList x) = DeepCopyObject_CreateSubscriptionList (Some x)"
| "DeepCopyObject (REditConfig x) = DeepCopyObject_EditConfig (Some x)"
| "DeepCopyObject (REditConfigList x) = DeepCopyObject_EditConfigList (Some x)"
| "DeepCopyObject (REstablishSubscription x) = DeepCopyObject_EstablishSubscription (Some x)"
| "DeepCopyObject (REstablishSubscriptionList x) = DeepCopyObject_EstablishSubscriptionList (Some x)"
| "DeepCopyObject (RGet x) = DeepCopyObject_Get (Some x)"
| "DeepCopyObject (RGetList x) = DeepCopyObject_GetList (Some x)"
| "DeepCopyObject (RGetConfig x) = DeepCopyObject_GetConfig (Some x)"
| "DeepCopyObject (RGetConfigList x) = DeepCopyObject_GetConfigList (Some x)"
| "DeepCopyObject (RLock x) = DeepCopyObject_Lock (Some x)"
| "DeepCopyObject (RLockList x) = DeepCopyObject_LockList (Some x)"
| "DeepCopyObject (RMountPoint x) = DeepCopyObject_MountPoint (Some x)"
| "DeepCopyObject (RMountPointList x) = DeepCopyObject_MountPointList (Some x)"
| "DeepCopyObject (RRPC x) = DeepCopyObject_RPC (Some x)"
| "DeepCopyObject (RRPCList x) = DeepCopyObject_RPCList (Some x)"
| "DeepCopyObject (RUnlock x) = DeepCopyObject_Unlock (Some x)"
| "DeepCopyObject (RUnlockList x) = DeepCopyObject_UnlockList (Some x)"


section \<open>What a struct stands for\<close>

text \<open>
  Well-formedness, reachable addresses and value of each struct. The value of a resource is the one of
  \<open>Api_Types\<close> together with the fields of its metadata that the operator does not use. A nil slice and an
  empty one stand for the same list; a nil map and an empty one are told apart.
\<close>

abbreviation wf_strings :: "memory \<Rightarrow> slice option \<Rightarrow> bool" where
  "wf_strings \<equiv> wf_slice_of Strings the_Strings (\<lambda>m x. True)"

abbreviation refs_strings :: "memory \<Rightarrow> slice option \<Rightarrow> addr set" where
  "refs_strings \<equiv> refs_slice_of the_Strings (\<lambda>m x. {})"

abbreviation view_strings :: "memory \<Rightarrow> slice option \<Rightarrow> string list" where
  "view_strings \<equiv> view_slice_of the_Strings (\<lambda>m x. x)"

definition wf_owner :: "memory \<Rightarrow> OwnerReference \<Rightarrow> bool" where
  "wf_owner m x \<longleftrightarrow> wf_pointer BoolCell m (or_Controller x) \<and> wf_pointer BoolCell m (or_BlockOwnerDeletion x)"

definition refs_owner :: "memory \<Rightarrow> OwnerReference \<Rightarrow> addr set" where
  "refs_owner m x = refs_pointer m (or_Controller x) \<union> refs_pointer m (or_BlockOwnerDeletion x)"

record OwnerValue =
  ov_APIVersion :: string
  ov_Kind :: string
  ov_Name :: string
  ov_UID :: string
  ov_Controller :: "bool option"
  ov_BlockOwnerDeletion :: "bool option"

definition view_owner :: "memory \<Rightarrow> OwnerReference \<Rightarrow> OwnerValue" where
  "view_owner m x = \<lparr>ov_APIVersion = or_APIVersion x, ov_Kind = or_Kind x, ov_Name = or_Name x, ov_UID = or_UID x,
     ov_Controller = view_pointer the_Bool m (or_Controller x), ov_BlockOwnerDeletion = view_pointer the_Bool m (or_BlockOwnerDeletion x)\<rparr>"

definition wf_fields :: "memory \<Rightarrow> FieldsV1 \<Rightarrow> bool" where
  "wf_fields m x = wf_slice_of Bytes the_Bytes (\<lambda>m x. True) m (fv_Raw x)"

definition refs_fields :: "memory \<Rightarrow> FieldsV1 \<Rightarrow> addr set" where
  "refs_fields m x = refs_slice_of the_Bytes (\<lambda>m x. {}) m (fv_Raw x)"

definition view_fields :: "memory \<Rightarrow> FieldsV1 \<Rightarrow> string" where
  "view_fields m x = view_slice_of the_Bytes (\<lambda>m x. x) m (fv_Raw x)"

definition wf_entry :: "memory \<Rightarrow> ManagedFieldsEntry \<Rightarrow> bool" where
  "wf_entry m x \<longleftrightarrow> wf_pointer TimeCell m (mf_Time x) \<and> wf_deep_pointer FieldsCell wf_fields m (mf_FieldsV1 x)"

definition refs_entry :: "memory \<Rightarrow> ManagedFieldsEntry \<Rightarrow> addr set" where
  "refs_entry m x = refs_pointer m (mf_Time x) \<union> refs_deep_pointer the_Fields refs_fields m (mf_FieldsV1 x)"

record EntryValue =
  ev_Manager :: string
  ev_Operation :: string
  ev_APIVersion :: string
  ev_Time :: "int option"
  ev_FieldsType :: string
  ev_FieldsV1 :: "string option"

definition view_entry :: "memory \<Rightarrow> ManagedFieldsEntry \<Rightarrow> EntryValue" where
  "view_entry m x = \<lparr>ev_Manager = mf_Manager x, ev_Operation = mf_Operation x, ev_APIVersion = mf_APIVersion x,
     ev_Time = view_pointer the_Time m (mf_Time x), ev_FieldsType = mf_FieldsType x,
     ev_FieldsV1 = view_deep_pointer the_Fields view_fields m (mf_FieldsV1 x)\<rparr>"

definition wf_meta :: "memory \<Rightarrow> MemMeta \<Rightarrow> bool" where
  "wf_meta m x \<longleftrightarrow> wf_pointer TimeCell m (mm_DeletionTimestamp x) \<and> wf_pointer IntCell m (mm_DeletionGracePeriodSeconds x) \<and>
     wf_map m (mm_Labels x) \<and> wf_map m (mm_Annotations x) \<and>
     wf_slice_of OwnerReferences the_OwnerReferences wf_owner m (mm_OwnerReferences x) \<and> wf_strings m (mm_Finalizers x) \<and>
     wf_slice_of ManagedFields the_ManagedFields wf_entry m (mm_ManagedFields x)"

definition refs_meta :: "memory \<Rightarrow> MemMeta \<Rightarrow> addr set" where
  "refs_meta m x = refs_pointer m (mm_DeletionTimestamp x) \<union> (refs_pointer m (mm_DeletionGracePeriodSeconds x) \<union>
     (refs_pointer m (mm_Labels x) \<union> (refs_pointer m (mm_Annotations x) \<union>
     (refs_slice_of the_OwnerReferences refs_owner m (mm_OwnerReferences x) \<union> (refs_strings m (mm_Finalizers x) \<union>
     refs_slice_of the_ManagedFields refs_entry m (mm_ManagedFields x))))))"

text \<open>The fields of the metadata that \<open>Api_Types\<close> leaves out.\<close>

record MetaRest =
  mr_GenerateName :: string
  mr_SelfLink :: string
  mr_UID :: string
  mr_ResourceVersion :: string
  mr_CreationTimestamp :: int
  mr_DeletionGracePeriodSeconds :: "int option"
  mr_Labels :: "(string \<rightharpoonup> string) option"
  mr_Annotations :: "(string \<rightharpoonup> string) option"
  mr_OwnerReferences :: "OwnerValue list"
  mr_ClusterName :: string
  mr_ManagedFields :: "EntryValue list"

definition view_meta :: "memory \<Rightarrow> MemMeta \<Rightarrow> ObjectMeta \<times> MetaRest" where
  "view_meta m x =
     (\<lparr>om_Name = mm_Name x, om_Namespace = mm_Namespace x, om_Generation = mm_Generation x,
       om_Finalizers = view_strings m (mm_Finalizers x), om_DeletionTimestamp = view_pointer the_Time m (mm_DeletionTimestamp x)\<rparr>,
      \<lparr>mr_GenerateName = mm_GenerateName x, mr_SelfLink = mm_SelfLink x, mr_UID = mm_UID x, mr_ResourceVersion = mm_ResourceVersion x,
       mr_CreationTimestamp = mm_CreationTimestamp x,
       mr_DeletionGracePeriodSeconds = view_pointer the_Int m (mm_DeletionGracePeriodSeconds x),
       mr_Labels = view_map m (mm_Labels x), mr_Annotations = view_map m (mm_Annotations x),
       mr_OwnerReferences = view_slice_of the_OwnerReferences view_owner m (mm_OwnerReferences x),
       mr_ClusterName = mm_ClusterName x,
       mr_ManagedFields = view_slice_of the_ManagedFields view_entry m (mm_ManagedFields x)\<rparr>)"

definition wf_status :: "memory \<Rightarrow> MemStatus \<Rightarrow> bool" where
  "wf_status m x \<longleftrightarrow> wf_slice_of Conditions the_Conditions (\<lambda>m x. True) m (ms_Conditions x) \<and> wf_strings m (ms_Capabilities x)"

definition refs_status :: "memory \<Rightarrow> MemStatus \<Rightarrow> addr set" where
  "refs_status m x = refs_slice_of the_Conditions (\<lambda>m x. {}) m (ms_Conditions x) \<union> refs_strings m (ms_Capabilities x)"

definition view_status :: "memory \<Rightarrow> MemStatus \<Rightarrow> RPCStatus" where
  "view_status m x = \<lparr>st_Conditions = view_slice_of the_Conditions (\<lambda>m x. x) m (ms_Conditions x), st_Status = ms_Status x,
     st_RpcReply = ms_RpcReply x, st_Capabilities = view_strings m (ms_Capabilities x), st_SubscriptionID = ms_SubscriptionID x\<rparr>"

definition wf_MountPointSpec :: "memory \<Rightarrow> MemMountPointSpec \<Rightarrow> bool" where
  "wf_MountPointSpec m x = wf_strings m (mq_AdditionalCapabilities x)"

definition refs_MountPointSpec :: "memory \<Rightarrow> MemMountPointSpec \<Rightarrow> addr set" where
  "refs_MountPointSpec m x = refs_strings m (mq_AdditionalCapabilities x)"

definition view_MountPointSpec :: "memory \<Rightarrow> MemMountPointSpec \<Rightarrow> MountPointSpec" where
  "view_MountPointSpec m x = \<lparr>mp_Target = mq_Target x, mp_Username = mq_Username x, mp_Password = mq_Password x,
     mp_Timeout = mq_Timeout x, mp_AdditionalCapabilities = view_strings m (mq_AdditionalCapabilities x)\<rparr>"

definition wf_struct :: "(memory \<Rightarrow> 's \<Rightarrow> bool) \<Rightarrow> memory \<Rightarrow> 's struct \<Rightarrow> bool" where
  "wf_struct good m x \<longleftrightarrow> wf_meta m (x_Meta x) \<and> good m (x_Spec x) \<and> wf_status m (x_RPCStatus x)"

definition refs_struct :: "(memory \<Rightarrow> 's \<Rightarrow> addr set) \<Rightarrow> memory \<Rightarrow> 's struct \<Rightarrow> addr set" where
  "refs_struct refs m x = refs_meta m (x_Meta x) \<union> refs m (x_Spec x) \<union> refs_status m (x_RPCStatus x)"

type_synonym 'v resource = "TypeMeta \<times> MetaRest \<times> 'v cr"

definition view_struct :: "(memory \<Rightarrow> 's \<Rightarrow> 'v) \<Rightarrow> memory \<Rightarrow> 's struct \<Rightarrow> 'v resource" where
  "view_struct view m x = (x_TypeMeta x, snd (view_meta m (x_Meta x)), \<lparr>cr_Meta = fst (view_meta m (x_Meta x)),
     cr_Spec = view m (x_Spec x), cr_RPCStatus = view_status m (x_RPCStatus x)\<rparr>)"

definition wf_listmeta :: "memory \<Rightarrow> ListMeta \<Rightarrow> bool" where
  "wf_listmeta m x = wf_pointer IntCell m (li_RemainingItemCount x)"

definition refs_listmeta :: "memory \<Rightarrow> ListMeta \<Rightarrow> addr set" where
  "refs_listmeta m x = refs_pointer m (li_RemainingItemCount x)"

definition view_listmeta :: "memory \<Rightarrow> ListMeta \<Rightarrow> string \<times> string \<times> string \<times> int option" where
  "view_listmeta m x = (li_SelfLink x, li_ResourceVersion x, li_Continue x, view_pointer the_Int m (li_RemainingItemCount x))"

definition wf_item :: "('a \<Rightarrow> item) \<Rightarrow> (item \<Rightarrow> 'a) \<Rightarrow> (memory \<Rightarrow> 'a \<Rightarrow> bool) \<Rightarrow> memory \<Rightarrow> item \<Rightarrow> bool" where
  "wf_item mk un good m i \<longleftrightarrow> i = mk (un i) \<and> good m (un i)"

definition wf_list :: "('a \<Rightarrow> item) \<Rightarrow> (item \<Rightarrow> 'a) \<Rightarrow> (memory \<Rightarrow> 'a \<Rightarrow> bool) \<Rightarrow> memory \<Rightarrow> ListStruct \<Rightarrow> bool" where
  "wf_list mk un good m x \<longleftrightarrow> wf_listmeta m (l_ListMeta x) \<and> wf_slice_of Items the_Items (wf_item mk un good) m (l_Items x)"

definition refs_list :: "(item \<Rightarrow> 'a) \<Rightarrow> (memory \<Rightarrow> 'a \<Rightarrow> addr set) \<Rightarrow> memory \<Rightarrow> ListStruct \<Rightarrow> addr set" where
  "refs_list un refs m x = refs_listmeta m (l_ListMeta x) \<union> refs_slice_of the_Items (\<lambda>m i. refs m (un i)) m (l_Items x)"

definition view_list :: "(item \<Rightarrow> 'a) \<Rightarrow> (memory \<Rightarrow> 'a \<Rightarrow> 'v) \<Rightarrow> memory \<Rightarrow> ListStruct \<Rightarrow>
    TypeMeta \<times> (string \<times> string \<times> string \<times> int option) \<times> 'v list" where
  "view_list un view m x = (l_TypeMeta x, view_listmeta m (l_ListMeta x), view_slice_of the_Items (\<lambda>m i. view m (un i)) m (l_Items x))"

lemmas meta_defs = wf_owner_def refs_owner_def view_owner_def wf_fields_def refs_fields_def view_fields_def
  wf_entry_def refs_entry_def view_entry_def wf_meta_def refs_meta_def view_meta_def

lemmas struct_defs = meta_defs wf_status_def refs_status_def view_status_def
  wf_MountPointSpec_def refs_MountPointSpec_def view_MountPointSpec_def wf_struct_def refs_struct_def view_struct_def
  wf_listmeta_def refs_listmeta_def view_listmeta_def wf_list_def refs_list_def view_list_def

section \<open>The contracts\<close>

interpretation conds: slice_copy "\<lambda>m x. True" "\<lambda>m x. {}" "\<lambda>m x. x" DeepCopyInto_Condition Conditions the_Conditions zero_Condition
  by unfold_locales (simp_all add: DeepCopyInto_Condition_def ok_ret is_copy_def)

lemmas pair_run = copy_pair_def Let_def gbind_assoc gbind_basic(1) fst_conv snd_conv prod.case

text \<open>The metadata: what it refers to, from the inside out, and then its seven fields that hold addresses.\<close>

interpretation owner_fields: pair_copy "wf_pointer BoolCell" refs_pointer "view_pointer the_Bool" "\<lambda>x z. copy_pointer BoolCell the_Bool False x x"
    "wf_pointer BoolCell" refs_pointer "view_pointer the_Bool" "\<lambda>x z. copy_pointer BoolCell the_Bool False x x"
  by unfold_locales

interpretation owner_record: record_copy
    "wf_pair (wf_pointer BoolCell) (wf_pointer BoolCell)" "refs_pair refs_pointer refs_pointer"
    "view_pair (view_pointer the_Bool) (view_pointer the_Bool)"
    "copy_pair (\<lambda>x z. copy_pointer BoolCell the_Bool False x x) (\<lambda>x z. copy_pointer BoolCell the_Bool False x x)"
    "\<lambda>x. (or_Controller x, or_BlockOwnerDeletion x)" "\<lambda>(c, b) x. x\<lparr>or_Controller := c, or_BlockOwnerDeletion := b\<rparr>"
    "\<lambda>x. (or_APIVersion x, or_Kind x, or_Name x, or_UID x)"
  by unfold_locales auto

interpretation owner: deep_copy wf_owner refs_owner view_owner DeepCopyInto_OwnerReference
  by (rule deep_copy_restated[OF owner_record.rec.deep_copy_axioms, where f = "\<lambda>((v, k, n, u), c, b).
        \<lparr>ov_APIVersion = v, ov_Kind = k, ov_Name = n, ov_UID = u, ov_Controller = c, ov_BlockOwnerDeletion = b\<rparr>"])
    (simp add: meta_defs pair_defs, simp add: meta_defs pair_defs, simp add: meta_defs pair_defs,
      simp only: DeepCopyInto_OwnerReference_def pair_run)

interpretation owners: slice_copy wf_owner refs_owner view_owner DeepCopyInto_OwnerReference OwnerReferences the_OwnerReferences zero_OwnerReference
  by unfold_locales simp

interpretation fields_record: record_copy "wf_slice_of Bytes the_Bytes (\<lambda>m x. True)" "refs_slice_of the_Bytes (\<lambda>m x. {})"
    "view_slice_of the_Bytes (\<lambda>m x. x)" "\<lambda>x z. copy_slice Bytes the_Bytes (CHR 0x00) assign x x"
    fv_Raw "\<lambda>r x. x\<lparr>fv_Raw := r\<rparr>" "\<lambda>x. ()"
  by unfold_locales auto

interpretation fields: deep_copy wf_fields refs_fields view_fields DeepCopyInto_FieldsV1
  by (rule deep_copy_restated[OF fields_record.rec.deep_copy_axioms, where f = snd])
    (simp_all add: meta_defs DeepCopyInto_FieldsV1_def)

interpretation fields_pointer: deep_pointer_copy wf_fields refs_fields view_fields DeepCopyInto_FieldsV1 FieldsCell the_Fields zero_FieldsV1
  by unfold_locales simp

interpretation entry_fields: pair_copy "wf_pointer TimeCell" refs_pointer "view_pointer the_Time" "\<lambda>x z. copy_pointer TimeCell the_Time 0 x x"
    "wf_deep_pointer FieldsCell wf_fields" "refs_deep_pointer the_Fields refs_fields" "view_deep_pointer the_Fields view_fields"
    "\<lambda>x z. copy_deep_pointer FieldsCell the_Fields zero_FieldsV1 DeepCopyInto_FieldsV1 x x"
  by unfold_locales

interpretation entry_record: record_copy
    "wf_pair (wf_pointer TimeCell) (wf_deep_pointer FieldsCell wf_fields)" "refs_pair refs_pointer (refs_deep_pointer the_Fields refs_fields)"
    "view_pair (view_pointer the_Time) (view_deep_pointer the_Fields view_fields)"
    "copy_pair (\<lambda>x z. copy_pointer TimeCell the_Time 0 x x) (\<lambda>x z. copy_deep_pointer FieldsCell the_Fields zero_FieldsV1 DeepCopyInto_FieldsV1 x x)"
    "\<lambda>x. (mf_Time x, mf_FieldsV1 x)" "\<lambda>(t, f) x. x\<lparr>mf_Time := t, mf_FieldsV1 := f\<rparr>"
    "\<lambda>x. (mf_Manager x, mf_Operation x, mf_APIVersion x, mf_FieldsType x)"
  by unfold_locales auto

interpretation entry: deep_copy wf_entry refs_entry view_entry DeepCopyInto_ManagedFieldsEntry
  by (rule deep_copy_restated[OF entry_record.rec.deep_copy_axioms, where f = "\<lambda>((n, oper, v, y), t, f).
        \<lparr>ev_Manager = n, ev_Operation = oper, ev_APIVersion = v, ev_Time = t, ev_FieldsType = y, ev_FieldsV1 = f\<rparr>"])
    (simp add: meta_defs pair_defs, simp add: meta_defs pair_defs, simp add: meta_defs pair_defs,
      simp only: DeepCopyInto_ManagedFieldsEntry_def pair_run)

interpretation entries: slice_copy wf_entry refs_entry view_entry DeepCopyInto_ManagedFieldsEntry ManagedFields the_ManagedFields zero_ManagedFieldsEntry
  by unfold_locales simp

abbreviation copy_time :: "addr option \<Rightarrow> addr option \<Rightarrow> (memory, addr option) go" where
  "copy_time \<equiv> \<lambda>x z. copy_pointer TimeCell the_Time 0 x x"

abbreviation copy_int64 :: "addr option \<Rightarrow> addr option \<Rightarrow> (memory, addr option) go" where
  "copy_int64 \<equiv> \<lambda>x z. copy_pointer IntCell the_Int 0 x x"

abbreviation copy_labels :: "addr option \<Rightarrow> addr option \<Rightarrow> (memory, addr option) go" where
  "copy_labels \<equiv> \<lambda>x z. copy_map x x"

abbreviation copy_owners :: "slice option \<Rightarrow> slice option \<Rightarrow> (memory, slice option) go" where
  "copy_owners \<equiv> \<lambda>x z. copy_slice OwnerReferences the_OwnerReferences zero_OwnerReference DeepCopyInto_OwnerReference x x"

abbreviation copy_strings :: "slice option \<Rightarrow> slice option \<Rightarrow> (memory, slice option) go" where
  "copy_strings \<equiv> \<lambda>x z. copy_slice Strings the_Strings [] assign x x"

abbreviation copy_entries_of :: "slice option \<Rightarrow> slice option \<Rightarrow> (memory, slice option) go" where
  "copy_entries_of \<equiv> \<lambda>x z. copy_slice ManagedFields the_ManagedFields zero_ManagedFieldsEntry DeepCopyInto_ManagedFieldsEntry x x"

definition wf_meta_fields where
  "wf_meta_fields = wf_pair (wf_pointer TimeCell) (wf_pair (wf_pointer IntCell) (wf_pair wf_map (wf_pair wf_map
     (wf_pair (wf_slice_of OwnerReferences the_OwnerReferences wf_owner) (wf_pair wf_strings
       (wf_slice_of ManagedFields the_ManagedFields wf_entry))))))"

definition refs_meta_fields where
  "refs_meta_fields = refs_pair refs_pointer (refs_pair refs_pointer (refs_pair refs_pointer (refs_pair refs_pointer
     (refs_pair (refs_slice_of the_OwnerReferences refs_owner) (refs_pair refs_strings
       (refs_slice_of the_ManagedFields refs_entry))))))"

definition view_meta_fields where
  "view_meta_fields = view_pair (view_pointer the_Time) (view_pair (view_pointer the_Int) (view_pair view_map (view_pair view_map
     (view_pair (view_slice_of the_OwnerReferences view_owner) (view_pair view_strings
       (view_slice_of the_ManagedFields view_entry))))))"

definition copy_meta_fields where
  "copy_meta_fields = copy_pair copy_time (copy_pair copy_int64 (copy_pair copy_labels (copy_pair copy_labels
     (copy_pair copy_owners (copy_pair copy_strings copy_entries_of)))))"

lemma pair_copies:
  "deep_copy W1 R1 V1 i1 \<Longrightarrow> deep_copy W2 R2 V2 i2 \<Longrightarrow> deep_copy (wf_pair W1 W2) (refs_pair R1 R2) (view_pair V1 V2) (copy_pair i1 i2)"
  by (rule pair_copy.both_copied) (rule pair_copy.intro)

interpretation meta_fields: deep_copy wf_meta_fields refs_meta_fields view_meta_fields copy_meta_fields
  unfolding wf_meta_fields_def refs_meta_fields_def view_meta_fields_def copy_meta_fields_def
  by (intro pair_copies time.ptr.deep_copy_axioms int64.ptr.deep_copy_axioms smap.deep_copy_axioms owners.slc.deep_copy_axioms
      strs.slc.deep_copy_axioms entries.slc.deep_copy_axioms)

interpretation meta_record: record_copy wf_meta_fields refs_meta_fields view_meta_fields copy_meta_fields
    "\<lambda>x. (mm_DeletionTimestamp x, mm_DeletionGracePeriodSeconds x, mm_Labels x, mm_Annotations x, mm_OwnerReferences x,
       mm_Finalizers x, mm_ManagedFields x)"
    "\<lambda>(t, g, l, a, r, f, e) x. x\<lparr>mm_DeletionTimestamp := t, mm_DeletionGracePeriodSeconds := g, mm_Labels := l, mm_Annotations := a,
       mm_OwnerReferences := r, mm_Finalizers := f, mm_ManagedFields := e\<rparr>"
    "\<lambda>x. (mm_Name x, mm_GenerateName x, mm_Namespace x, mm_SelfLink x, mm_UID x, mm_ResourceVersion x, mm_Generation x,
       mm_CreationTimestamp x, mm_ClusterName x)"
  by unfold_locales (auto split: prod.splits)

lemma meta_created: "x\<lparr>mm_CreationTimestamp := mm_CreationTimestamp x\<rparr> = (x :: MemMeta)"
  by simp

interpretation meta: deep_copy wf_meta refs_meta view_meta DeepCopyInto_ObjectMeta
  by (rule deep_copy_restated[OF meta_record.rec.deep_copy_axioms, where f = "\<lambda>((n, gn, ns, sl, u, rv, gen, ct, cn), t, g, l, a, r, f, e).
       (\<lparr>om_Name = n, om_Namespace = ns, om_Generation = gen, om_Finalizers = f, om_DeletionTimestamp = t\<rparr>,
        \<lparr>mr_GenerateName = gn, mr_SelfLink = sl, mr_UID = u, mr_ResourceVersion = rv, mr_CreationTimestamp = ct,
         mr_DeletionGracePeriodSeconds = g, mr_Labels = l, mr_Annotations = a, mr_OwnerReferences = r, mr_ClusterName = cn,
         mr_ManagedFields = e\<rparr>)"])
    (simp add: wf_meta_def wf_meta_fields_def pair_defs, simp add: refs_meta_def refs_meta_fields_def pair_defs,
      simp add: view_meta_def view_meta_fields_def pair_defs, simp only: DeepCopyInto_ObjectMeta_def copy_meta_fields_def pair_run meta_created)

interpretation stat: deep_copy wf_status refs_status view_status DeepCopyInto_RPCStatus
proof unfold_locales
  fix m x z
  assume wf: "wf_status m x"
  show "ok m (DeepCopyInto_RPCStatus x z) (is_copy wf_status refs_status view_status m x)"
    unfolding DeepCopyInto_RPCStatus_def Let_def
  proof (rule conds.slc.ok_copy[where start = m], goal_cases)
    case (3 c m1)
    note c = 3
    show ?case
    proof (rule strs.slc.ok_copy[where start = m], goal_cases)
      case (3 p m2)
      show ?case using conds.slc.copy_later[OF c(3) 3(1)] 3(3)
        by (auto intro!: ok_ret simp: is_copy_def struct_defs)
    qed (use wf c in \<open>simp_all add: wf_status_def\<close>)
  qed (use wf in \<open>simp_all add: wf_status_def\<close>)
  show "refs_status m x \<subseteq> {..<lim m}"
    using wf conds.slc.refs_bound strs.slc.refs_bound by (simp add: wf_status_def refs_status_def)
next
  fix m m' :: memory and x
  assume "wf_status m x" "\<And>a. a \<in> refs_status m x \<Longrightarrow> cells m' a = cells m a" "lim m \<le> lim m'"
  then show "wf_status m' x \<and> refs_status m' x = refs_status m x \<and> view_status m' x = view_status m x"
    using conds.slc.frame[of m "ms_Conditions x" m'] strs.slc.frame[of m "ms_Capabilities x" m']
    by (simp add: wf_status_def refs_status_def view_status_def)
qed

interpretation mpspec: deep_copy wf_MountPointSpec refs_MountPointSpec view_MountPointSpec DeepCopyInto_MountPointSpec
proof unfold_locales
  fix m x z
  assume wf: "wf_MountPointSpec m x"
  show "ok m (DeepCopyInto_MountPointSpec x z) (is_copy wf_MountPointSpec refs_MountPointSpec view_MountPointSpec m x)"
    unfolding DeepCopyInto_MountPointSpec_def Let_def
    by (rule strs.slc.ok_copy[where start = m]) (use wf in \<open>auto intro!: ok_ret simp: is_copy_def struct_defs\<close>)
  show "refs_MountPointSpec m x \<subseteq> {..<lim m}"
    using wf strs.slc.refs_bound by (simp add: wf_MountPointSpec_def refs_MountPointSpec_def)
next
  fix m m' :: memory and x
  assume "wf_MountPointSpec m x" "\<And>a. a \<in> refs_MountPointSpec m x \<Longrightarrow> cells m' a = cells m a" "lim m \<le> lim m'"
  then show "wf_MountPointSpec m' x \<and> refs_MountPointSpec m' x = refs_MountPointSpec m x \<and> view_MountPointSpec m' x = view_MountPointSpec m x"
    using strs.slc.frame[of m "mq_AdditionalCapabilities x" m']
    by (simp add: wf_MountPointSpec_def refs_MountPointSpec_def view_MountPointSpec_def)
qed

interpretation lmeta: deep_copy wf_listmeta refs_listmeta view_listmeta DeepCopyInto_ListMeta
proof unfold_locales
  fix m x z
  assume wf: "wf_listmeta m x"
  show "ok m (DeepCopyInto_ListMeta x z) (is_copy wf_listmeta refs_listmeta view_listmeta m x)"
    unfolding DeepCopyInto_ListMeta_def Let_def
    by (rule int64.ptr.ok_copy[where start = m]) (use wf in \<open>auto intro!: ok_ret simp: is_copy_def struct_defs\<close>)
  show "refs_listmeta m x \<subseteq> {..<lim m}"
    using wf int64.ptr.refs_bound by (simp add: wf_listmeta_def refs_listmeta_def)
next
  fix m m' :: memory and x
  assume "wf_listmeta m x" "\<And>a. a \<in> refs_listmeta m x \<Longrightarrow> cells m' a = cells m a" "lim m \<le> lim m'"
  then show "wf_listmeta m' x \<and> refs_listmeta m' x = refs_listmeta m x \<and> view_listmeta m' x = view_listmeta m x"
    using int64.ptr.frame[of m "li_RemainingItemCount x" m']
    by (simp add: wf_listmeta_def refs_listmeta_def view_listmeta_def)
qed

text \<open>A resource whose spec is deep-copied is deep-copied.\<close>

locale struct_copy = spec: deep_copy wfs refss views copySpec
  for wfs :: "memory \<Rightarrow> 's \<Rightarrow> bool" and refss and views :: "memory \<Rightarrow> 's \<Rightarrow> 'v" and copySpec
begin

lemma struct_copies:
  assumes wf: "wf_struct wfs m x"
  shows "ok m (deepCopyInto_struct copySpec x z) (is_copy (wf_struct wfs) (refs_struct refss) (view_struct views) m x)"
  unfolding deepCopyInto_struct_def Let_def
proof (rule meta.ok_copy[where start = m], goal_cases)
  case (3 a m1)
  note a = 3
  show ?case
  proof (rule spec.ok_copy[where start = m], goal_cases)
    case (3 b m2)
    note b = 3
    show ?case
    proof (rule stat.ok_copy[where start = m], goal_cases)
      case (3 c m3)
      show ?case
        using meta.copy_later[OF a(3) extends_trans[OF b(1) 3(1)]] spec.copy_later[OF b(3) 3(1)] 3(3)
        by (auto intro!: ok_ret simp: is_copy_def wf_struct_def refs_struct_def view_struct_def)
    qed (use wf b in \<open>simp_all add: wf_struct_def\<close>)
  qed (use wf a in \<open>simp_all add: wf_struct_def\<close>)
qed (use wf in \<open>simp_all add: wf_struct_def\<close>)

lemma struct_bound: "wf_struct wfs m x \<Longrightarrow> refs_struct refss m x \<subseteq> {..<lim m}"
  using meta.refs_bound spec.refs_bound stat.refs_bound by (simp add: wf_struct_def refs_struct_def)

lemma struct_frame:
  assumes "wf_struct wfs m x" "\<And>a. a \<in> refs_struct refss m x \<Longrightarrow> cells m' a = cells m a" "lim m \<le> lim m'"
  shows "wf_struct wfs m' x \<and> refs_struct refss m' x = refs_struct refss m x \<and> view_struct views m' x = view_struct views m x"
  using assms meta.frame[of m "x_Meta x" m'] spec.frame[of m "x_Spec x" m'] stat.frame[of m "x_RPCStatus x" m']
  by (simp add: wf_struct_def refs_struct_def view_struct_def)

end

sublocale struct_copy \<subseteq> st: deep_copy "wf_struct wfs" "refs_struct refss" "view_struct views" "deepCopyInto_struct copySpec"
  by unfold_locales (erule struct_copies, erule struct_bound, rule struct_frame)

text \<open>And so is a list of them.\<close>

locale kind_copy = struct_copy wfs refss views copySpec
  for wfs :: "memory \<Rightarrow> 's \<Rightarrow> bool" and refss and views :: "memory \<Rightarrow> 's \<Rightarrow> 'v" and copySpec +
  fixes mk :: "'s struct \<Rightarrow> item" and un :: "item \<Rightarrow> 's struct" and zero :: "'s struct"
  assumes un_mk [simp]: "un (mk x) = x"

sublocale kind_copy \<subseteq> it: slice_copy "wf_item mk un (wf_struct wfs)" "\<lambda>m i. refs_struct refss m (un i)"
    "\<lambda>m i. view_struct views m (un i)" "copy_item mk un (deepCopyInto_struct copySpec)" Items the_Items "mk zero"
proof unfold_locales
  fix m x z
  assume wf: "wf_item mk un (wf_struct wfs) m x"
  show "ok m (copy_item mk un (deepCopyInto_struct copySpec) x z)
      (is_copy (wf_item mk un (wf_struct wfs)) (\<lambda>m i. refs_struct refss m (un i)) (\<lambda>m i. view_struct views m (un i)) m x)"
    unfolding copy_item_def
    by (rule st.ok_copy[where start = m]) (use wf in \<open>auto intro!: ok_ret simp: is_copy_def wf_item_def\<close>)
  show "refs_struct refss m (un x) \<subseteq> {..<lim m}" using wf struct_bound by (simp add: wf_item_def)
next
  fix m m' :: memory and x
  assume "wf_item mk un (wf_struct wfs) m x" "\<And>a. a \<in> refs_struct refss m (un x) \<Longrightarrow> cells m' a = cells m a" "lim m \<le> lim m'"
  then show "wf_item mk un (wf_struct wfs) m' x \<and> refs_struct refss m' (un x) = refs_struct refss m (un x) \<and>
      view_struct views m' (un x) = view_struct views m (un x)"
    using struct_frame[of m "un x" m'] by (simp add: wf_item_def)
qed simp

sublocale kind_copy \<subseteq> ls: deep_copy "wf_list mk un (wf_struct wfs)" "refs_list un (refs_struct refss)"
    "view_list un (view_struct views)" "deepCopyInto_list mk un zero (deepCopyInto_struct copySpec)"
proof unfold_locales
  fix m x z
  assume wf: "wf_list mk un (wf_struct wfs) m x"
  have idem: "x\<lparr>l_TypeMeta := l_TypeMeta x\<rparr> = x" by simp
  show "ok m (deepCopyInto_list mk un zero (deepCopyInto_struct copySpec) x z)
      (is_copy (wf_list mk un (wf_struct wfs)) (refs_list un (refs_struct refss)) (view_list un (view_struct views)) m x)"
    unfolding deepCopyInto_list_def Let_def idem
  proof (rule lmeta.ok_copy[where start = m], goal_cases)
    case (3 a m1)
    note a = 3
    show ?case
    proof (rule it.slc.ok_copy[where start = m], goal_cases)
      case (3 b m2)
      show ?case using lmeta.copy_later[OF a(3) 3(1)] 3(3)
        by (auto intro!: ok_ret simp: is_copy_def wf_list_def refs_list_def view_list_def)
    qed (use wf a in \<open>simp_all add: wf_list_def\<close>)
  qed (use wf in \<open>simp_all add: wf_list_def\<close>)
  show "refs_list un (refs_struct refss) m x \<subseteq> {..<lim m}"
    using wf lmeta.refs_bound it.slc.refs_bound by (simp add: wf_list_def refs_list_def)
next
  fix m m' :: memory and x
  assume "wf_list mk un (wf_struct wfs) m x" "\<And>a. a \<in> refs_list un (refs_struct refss) m x \<Longrightarrow> cells m' a = cells m a" "lim m \<le> lim m'"
  then show "wf_list mk un (wf_struct wfs) m' x \<and> refs_list un (refs_struct refss) m' x = refs_list un (refs_struct refss) m x \<and>
      view_list un (view_struct views) m' x = view_list un (view_struct views) m x"
    using lmeta.frame[of m "l_ListMeta x" m'] it.slc.frame[of m "l_Items x" m']
    by (simp add: wf_list_def refs_list_def view_list_def)
qed

text \<open>\<open>DeepCopy\<close> and \<open>DeepCopyObject\<close> of a type, from its \<open>DeepCopyInto\<close>.\<close>

lemma deepCopyObject_copies:
  assumes "deep_copy wfs refs view into" and "wfs m x"
  shows "ok m (deepCopyObject (deepCopy into zero) wrap (Some x)) (\<lambda>y m'. \<exists>z. y = Some (wrap z) \<and> is_copy wfs refs view m x z m')"
proof -
  obtain z m' where "into x zero m = (Ret z, m')" "extends m m'" "is_copy wfs refs view m x z m'"
    using deep_copy.into_copies[OF assms, of zero] by (auto simp: ok_def)
  then show ?thesis by (auto simp: ok_def deepCopyObject_def deepCopy_def gbind_def)
qed

lemma deepCopyObject_nil: "deepCopyObject (deepCopy into zero) wrap None m = (Ret None, m)"
  by (simp add: deepCopyObject_def deepCopy_def)

section \<open>The ten kinds\<close>

interpretation kCommit: kind_copy "\<lambda>m s. True" "\<lambda>m s. {}" "\<lambda>m s. s" assign ICommit un_Commit "zero_struct (cr_Spec zero_Commit)"
  by unfold_locales simp

interpretation kCreateSubscription: kind_copy "\<lambda>m s. True" "\<lambda>m s. {}" "\<lambda>m s. s" assign ICreateSubscription un_CreateSubscription "zero_struct (cr_Spec zero_CreateSubscription)"
  by unfold_locales simp

interpretation kEditConfig: kind_copy "\<lambda>m s. True" "\<lambda>m s. {}" "\<lambda>m s. s" assign IEditConfig un_EditConfig "zero_struct (cr_Spec zero_EditConfig)"
  by unfold_locales simp

interpretation kEstablishSubscription: kind_copy "\<lambda>m s. True" "\<lambda>m s. {}" "\<lambda>m s. s" assign IEstablishSubscription un_EstablishSubscription "zero_struct (cr_Spec zero_EstablishSubscription)"
  by unfold_locales simp

interpretation kGet: kind_copy "\<lambda>m s. True" "\<lambda>m s. {}" "\<lambda>m s. s" assign IGet un_Get "zero_struct (cr_Spec zero_Get)"
  by unfold_locales simp

interpretation kGetConfig: kind_copy "\<lambda>m s. True" "\<lambda>m s. {}" "\<lambda>m s. s" assign IGetConfig un_GetConfig "zero_struct (cr_Spec zero_GetConfig)"
  by unfold_locales simp

interpretation kLock: kind_copy "\<lambda>m s. True" "\<lambda>m s. {}" "\<lambda>m s. s" assign ILock un_Lock "zero_struct (cr_Spec zero_Lock)"
  by unfold_locales simp

interpretation kMountPoint: kind_copy wf_MountPointSpec refs_MountPointSpec view_MountPointSpec DeepCopyInto_MountPointSpec IMountPoint un_MountPoint "zero_struct zero_MemMountPointSpec"
  by unfold_locales simp

interpretation kRPC: kind_copy "\<lambda>m s. True" "\<lambda>m s. {}" "\<lambda>m s. s" assign IRPC un_RPC "zero_struct (cr_Spec zero_RPC)"
  by unfold_locales simp

interpretation kUnlock: kind_copy "\<lambda>m s. True" "\<lambda>m s. {}" "\<lambda>m s. s" assign IUnlock un_Unlock "zero_struct (cr_Spec zero_Unlock)"
  by unfold_locales simp

text \<open>The values of \<open>runtime.Object\<close>, and their addresses, by type.\<close>

datatype ObjectView =
    VCommit "CommitSpec resource" | VCommitList "TypeMeta \<times> (string \<times> string \<times> string \<times> int option) \<times> CommitSpec resource list"
  | VCreateSubscription "CreateSubscriptionSpec resource" | VCreateSubscriptionList "TypeMeta \<times> (string \<times> string \<times> string \<times> int option) \<times> CreateSubscriptionSpec resource list"
  | VEditConfig "EditConfigSpec resource" | VEditConfigList "TypeMeta \<times> (string \<times> string \<times> string \<times> int option) \<times> EditConfigSpec resource list"
  | VEstablishSubscription "EstablishSubscriptionSpec resource" | VEstablishSubscriptionList "TypeMeta \<times> (string \<times> string \<times> string \<times> int option) \<times> EstablishSubscriptionSpec resource list"
  | VGet "GetSpec resource" | VGetList "TypeMeta \<times> (string \<times> string \<times> string \<times> int option) \<times> GetSpec resource list"
  | VGetConfig "GetConfigSpec resource" | VGetConfigList "TypeMeta \<times> (string \<times> string \<times> string \<times> int option) \<times> GetConfigSpec resource list"
  | VLock "LockSpec resource" | VLockList "TypeMeta \<times> (string \<times> string \<times> string \<times> int option) \<times> LockSpec resource list"
  | VMountPoint "MountPointSpec resource" | VMountPointList "TypeMeta \<times> (string \<times> string \<times> string \<times> int option) \<times> MountPointSpec resource list"
  | VRPC "RPCSpec resource" | VRPCList "TypeMeta \<times> (string \<times> string \<times> string \<times> int option) \<times> RPCSpec resource list"
  | VUnlock "UnlockSpec resource" | VUnlockList "TypeMeta \<times> (string \<times> string \<times> string \<times> int option) \<times> UnlockSpec resource list"

fun wf_object :: "memory \<Rightarrow> RuntimeObject \<Rightarrow> bool" where
  "wf_object m (RCommit x) = wf_struct (\<lambda>m s. True) m x"
| "wf_object m (RCommitList x) = wf_list ICommit un_Commit (wf_struct (\<lambda>m s. True)) m x"
| "wf_object m (RCreateSubscription x) = wf_struct (\<lambda>m s. True) m x"
| "wf_object m (RCreateSubscriptionList x) = wf_list ICreateSubscription un_CreateSubscription (wf_struct (\<lambda>m s. True)) m x"
| "wf_object m (REditConfig x) = wf_struct (\<lambda>m s. True) m x"
| "wf_object m (REditConfigList x) = wf_list IEditConfig un_EditConfig (wf_struct (\<lambda>m s. True)) m x"
| "wf_object m (REstablishSubscription x) = wf_struct (\<lambda>m s. True) m x"
| "wf_object m (REstablishSubscriptionList x) = wf_list IEstablishSubscription un_EstablishSubscription (wf_struct (\<lambda>m s. True)) m x"
| "wf_object m (RGet x) = wf_struct (\<lambda>m s. True) m x"
| "wf_object m (RGetList x) = wf_list IGet un_Get (wf_struct (\<lambda>m s. True)) m x"
| "wf_object m (RGetConfig x) = wf_struct (\<lambda>m s. True) m x"
| "wf_object m (RGetConfigList x) = wf_list IGetConfig un_GetConfig (wf_struct (\<lambda>m s. True)) m x"
| "wf_object m (RLock x) = wf_struct (\<lambda>m s. True) m x"
| "wf_object m (RLockList x) = wf_list ILock un_Lock (wf_struct (\<lambda>m s. True)) m x"
| "wf_object m (RMountPoint x) = wf_struct wf_MountPointSpec m x"
| "wf_object m (RMountPointList x) = wf_list IMountPoint un_MountPoint (wf_struct wf_MountPointSpec) m x"
| "wf_object m (RRPC x) = wf_struct (\<lambda>m s. True) m x"
| "wf_object m (RRPCList x) = wf_list IRPC un_RPC (wf_struct (\<lambda>m s. True)) m x"
| "wf_object m (RUnlock x) = wf_struct (\<lambda>m s. True) m x"
| "wf_object m (RUnlockList x) = wf_list IUnlock un_Unlock (wf_struct (\<lambda>m s. True)) m x"

fun refs_object :: "memory \<Rightarrow> RuntimeObject \<Rightarrow> addr set" where
  "refs_object m (RCommit x) = refs_struct (\<lambda>m s. {}) m x"
| "refs_object m (RCommitList x) = refs_list un_Commit (refs_struct (\<lambda>m s. {})) m x"
| "refs_object m (RCreateSubscription x) = refs_struct (\<lambda>m s. {}) m x"
| "refs_object m (RCreateSubscriptionList x) = refs_list un_CreateSubscription (refs_struct (\<lambda>m s. {})) m x"
| "refs_object m (REditConfig x) = refs_struct (\<lambda>m s. {}) m x"
| "refs_object m (REditConfigList x) = refs_list un_EditConfig (refs_struct (\<lambda>m s. {})) m x"
| "refs_object m (REstablishSubscription x) = refs_struct (\<lambda>m s. {}) m x"
| "refs_object m (REstablishSubscriptionList x) = refs_list un_EstablishSubscription (refs_struct (\<lambda>m s. {})) m x"
| "refs_object m (RGet x) = refs_struct (\<lambda>m s. {}) m x"
| "refs_object m (RGetList x) = refs_list un_Get (refs_struct (\<lambda>m s. {})) m x"
| "refs_object m (RGetConfig x) = refs_struct (\<lambda>m s. {}) m x"
| "refs_object m (RGetConfigList x) = refs_list un_GetConfig (refs_struct (\<lambda>m s. {})) m x"
| "refs_object m (RLock x) = refs_struct (\<lambda>m s. {}) m x"
| "refs_object m (RLockList x) = refs_list un_Lock (refs_struct (\<lambda>m s. {})) m x"
| "refs_object m (RMountPoint x) = refs_struct refs_MountPointSpec m x"
| "refs_object m (RMountPointList x) = refs_list un_MountPoint (refs_struct refs_MountPointSpec) m x"
| "refs_object m (RRPC x) = refs_struct (\<lambda>m s. {}) m x"
| "refs_object m (RRPCList x) = refs_list un_RPC (refs_struct (\<lambda>m s. {})) m x"
| "refs_object m (RUnlock x) = refs_struct (\<lambda>m s. {}) m x"
| "refs_object m (RUnlockList x) = refs_list un_Unlock (refs_struct (\<lambda>m s. {})) m x"

fun view_object :: "memory \<Rightarrow> RuntimeObject \<Rightarrow> ObjectView" where
  "view_object m (RCommit x) = VCommit (view_struct (\<lambda>m s. s) m x)"
| "view_object m (RCommitList x) = VCommitList (view_list un_Commit (view_struct (\<lambda>m s. s)) m x)"
| "view_object m (RCreateSubscription x) = VCreateSubscription (view_struct (\<lambda>m s. s) m x)"
| "view_object m (RCreateSubscriptionList x) = VCreateSubscriptionList (view_list un_CreateSubscription (view_struct (\<lambda>m s. s)) m x)"
| "view_object m (REditConfig x) = VEditConfig (view_struct (\<lambda>m s. s) m x)"
| "view_object m (REditConfigList x) = VEditConfigList (view_list un_EditConfig (view_struct (\<lambda>m s. s)) m x)"
| "view_object m (REstablishSubscription x) = VEstablishSubscription (view_struct (\<lambda>m s. s) m x)"
| "view_object m (REstablishSubscriptionList x) = VEstablishSubscriptionList (view_list un_EstablishSubscription (view_struct (\<lambda>m s. s)) m x)"
| "view_object m (RGet x) = VGet (view_struct (\<lambda>m s. s) m x)"
| "view_object m (RGetList x) = VGetList (view_list un_Get (view_struct (\<lambda>m s. s)) m x)"
| "view_object m (RGetConfig x) = VGetConfig (view_struct (\<lambda>m s. s) m x)"
| "view_object m (RGetConfigList x) = VGetConfigList (view_list un_GetConfig (view_struct (\<lambda>m s. s)) m x)"
| "view_object m (RLock x) = VLock (view_struct (\<lambda>m s. s) m x)"
| "view_object m (RLockList x) = VLockList (view_list un_Lock (view_struct (\<lambda>m s. s)) m x)"
| "view_object m (RMountPoint x) = VMountPoint (view_struct view_MountPointSpec m x)"
| "view_object m (RMountPointList x) = VMountPointList (view_list un_MountPoint (view_struct view_MountPointSpec) m x)"
| "view_object m (RRPC x) = VRPC (view_struct (\<lambda>m s. s) m x)"
| "view_object m (RRPCList x) = VRPCList (view_list un_RPC (view_struct (\<lambda>m s. s)) m x)"
| "view_object m (RUnlock x) = VUnlock (view_struct (\<lambda>m s. s) m x)"
| "view_object m (RUnlockList x) = VUnlockList (view_list un_Unlock (view_struct (\<lambda>m s. s)) m x)"

lemmas copy_defs =
  DeepCopyObject_Commit_def DeepCopy_Commit_def DeepCopyInto_Commit_def
  DeepCopyObject_CommitList_def DeepCopy_CommitList_def DeepCopyInto_CommitList_def
  DeepCopyObject_CreateSubscription_def DeepCopy_CreateSubscription_def DeepCopyInto_CreateSubscription_def
  DeepCopyObject_CreateSubscriptionList_def DeepCopy_CreateSubscriptionList_def DeepCopyInto_CreateSubscriptionList_def
  DeepCopyObject_EditConfig_def DeepCopy_EditConfig_def DeepCopyInto_EditConfig_def
  DeepCopyObject_EditConfigList_def DeepCopy_EditConfigList_def DeepCopyInto_EditConfigList_def
  DeepCopyObject_EstablishSubscription_def DeepCopy_EstablishSubscription_def DeepCopyInto_EstablishSubscription_def
  DeepCopyObject_EstablishSubscriptionList_def DeepCopy_EstablishSubscriptionList_def DeepCopyInto_EstablishSubscriptionList_def
  DeepCopyObject_Get_def DeepCopy_Get_def DeepCopyInto_Get_def
  DeepCopyObject_GetList_def DeepCopy_GetList_def DeepCopyInto_GetList_def
  DeepCopyObject_GetConfig_def DeepCopy_GetConfig_def DeepCopyInto_GetConfig_def
  DeepCopyObject_GetConfigList_def DeepCopy_GetConfigList_def DeepCopyInto_GetConfigList_def
  DeepCopyObject_Lock_def DeepCopy_Lock_def DeepCopyInto_Lock_def
  DeepCopyObject_LockList_def DeepCopy_LockList_def DeepCopyInto_LockList_def
  DeepCopyObject_MountPoint_def DeepCopy_MountPoint_def DeepCopyInto_MountPoint_def
  DeepCopyObject_MountPointList_def DeepCopy_MountPointList_def DeepCopyInto_MountPointList_def
  DeepCopyObject_RPC_def DeepCopy_RPC_def DeepCopyInto_RPC_def
  DeepCopyObject_RPCList_def DeepCopy_RPCList_def DeepCopyInto_RPCList_def
  DeepCopyObject_Unlock_def DeepCopy_Unlock_def DeepCopyInto_Unlock_def
  DeepCopyObject_UnlockList_def DeepCopy_UnlockList_def DeepCopyInto_UnlockList_def

lemmas copy_contracts =
  kCommit.st.deep_copy_axioms kCommit.ls.deep_copy_axioms
  kCreateSubscription.st.deep_copy_axioms kCreateSubscription.ls.deep_copy_axioms
  kEditConfig.st.deep_copy_axioms kEditConfig.ls.deep_copy_axioms
  kEstablishSubscription.st.deep_copy_axioms kEstablishSubscription.ls.deep_copy_axioms
  kGet.st.deep_copy_axioms kGet.ls.deep_copy_axioms
  kGetConfig.st.deep_copy_axioms kGetConfig.ls.deep_copy_axioms
  kLock.st.deep_copy_axioms kLock.ls.deep_copy_axioms
  kMountPoint.st.deep_copy_axioms kMountPoint.ls.deep_copy_axioms
  kRPC.st.deep_copy_axioms kRPC.ls.deep_copy_axioms
  kUnlock.st.deep_copy_axioms kUnlock.ls.deep_copy_axioms

lemma object_case:
  assumes "deep_copy W R V into" and "W m x"
    and "\<And>m z. wf_object m (wrap z) = W m z" "\<And>m z. refs_object m (wrap z) = R m z" "\<And>m z. view_object m (wrap z) = val (V m z)"
  shows "ok m (deepCopyObject (deepCopy into zero) wrap (Some x))
    (\<lambda>y m'. \<exists>z. y = Some z \<and> is_copy wf_object refs_object view_object m (wrap x) z m')"
  by (rule ok_mono[OF deepCopyObject_copies[OF assms(1,2)]]) (auto simp: is_copy_def assms(3-5))

lemma DeepCopyObject_copies:
  assumes "wf_object m x"
  shows "ok m (DeepCopyObject x) (\<lambda>y m'. \<exists>z. y = Some z \<and> is_copy wf_object refs_object view_object m x z m')"
  using assms
  by (cases x) (simp only: DeepCopyObject.simps copy_defs, rule object_case, rule copy_contracts, simp_all)+

lemma object_bound: "wf_object m x \<Longrightarrow> refs_object m x \<subseteq> {..<lim m}"
  by (cases x) (simp only: wf_object.simps refs_object.simps, rule deep_copy.refs_bound, rule copy_contracts, assumption)+

lemma object_frame:
  assumes "wf_object m x" "\<And>a. a \<in> refs_object m x \<Longrightarrow> cells m' a = cells m a" "lim m \<le> lim m'"
  shows "wf_object m' x \<and> refs_object m' x = refs_object m x \<and> view_object m' x = view_object m x"
  using assms
  by (cases x) (simp only: wf_object.simps refs_object.simps view_object.simps ObjectView.inject,
    rule deep_copy.frame, rule copy_contracts, assumption+)+

text \<open>\<open>DeepCopyObject\<close> keeps the contract for every resource and every list; a non-nil object gives a non-nil copy.\<close>

definition copy_object :: "RuntimeObject \<Rightarrow> RuntimeObject \<Rightarrow> (memory, RuntimeObject) go" where
  "copy_object x z = gbind (DeepCopyObject x) (\<lambda>c. case c of Some y \<Rightarrow> ret y | None \<Rightarrow> nil_deref)"

interpretation obj: deep_copy wf_object refs_object view_object copy_object
proof unfold_locales
  fix m x z
  assume "wf_object m x"
  from DeepCopyObject_copies[OF this] show "ok m (copy_object x z) (is_copy wf_object refs_object view_object m x)"
    unfolding copy_object_def by (rule ok_gbind) (auto intro!: ok_ret)
qed (rule object_bound, assumption, rule object_frame)

section \<open>Properties\<close>

lemma copy_objectD:
  assumes "wf_object m x" "DeepCopyObject x m = (Ret (Some y), m')"
  shows "extends m m' \<and> is_copy wf_object refs_object view_object m x y m'"
  using DeepCopyObject_copies[OF assms(1)] assms(2) by (auto simp: ok_def)

text \<open>A cached mount point with a finalizer, a label, an owner and a condition, in a memory of its own.\<close>

definition example_condition :: Condition where
  "example_condition = zero_Condition\<lparr>co_Type := ''ReconcileSuccess''\<rparr>"

definition example_owner :: "addr \<Rightarrow> OwnerReference" where
  "example_owner a = zero_OwnerReference\<lparr>or_Name := ''site'', or_Controller := Some a\<rparr>"

definition example_memory :: memory where
  "example_memory = \<lparr>cells = [0 \<mapsto> Strings [''finalizer''], 1 \<mapsto> Conditions [example_condition], 2 \<mapsto> StringMap [(''site'', ''a'')],
     3 \<mapsto> OwnerReferences [example_owner 4], 4 \<mapsto> BoolCell True], lim = 5\<rparr>"

definition example_slice :: "addr \<Rightarrow> slice option" where
  "example_slice a = Some \<lparr>sl_array = a, sl_off = 0, sl_len = 1\<rparr>"

definition example_cached :: "MemMountPointSpec struct" where
  "example_cached = zero_struct zero_MemMountPointSpec\<lparr>x_Meta := zero_MemMeta\<lparr>mm_Name := ''m'', mm_Namespace := ''ns'', mm_Generation := 1,
       mm_Labels := Some 2, mm_OwnerReferences := example_slice 3, mm_Finalizers := example_slice 0\<rparr>,
     x_RPCStatus := \<lparr>ms_Conditions = example_slice 1, ms_Status = ''connected'', ms_RpcReply = [],
       ms_Capabilities = None, ms_SubscriptionID = []\<rparr>\<rparr>"

definition example_copy :: "MemMountPointSpec struct" where
  "example_copy = example_cached\<lparr>x_Meta := (x_Meta example_cached)\<lparr>mm_Labels := Some 5, mm_OwnerReferences := example_slice 6,
       mm_Finalizers := example_slice 8\<rparr>,
     x_RPCStatus := (x_RPCStatus example_cached)\<lparr>ms_Conditions := example_slice 9\<rparr>\<rparr>"

definition example_copied :: memory where
  "example_copied = example_memory\<lparr>cells := (cells example_memory)(5 \<mapsto> StringMap [(''site'', ''a'')], 6 \<mapsto> OwnerReferences [example_owner 7],
     7 \<mapsto> BoolCell True, 8 \<mapsto> Strings [''finalizer''], 9 \<mapsto> Conditions [example_condition]), lim := 10\<rparr>"

lemmas example_struct_defs = example_copied_def example_copy_def example_memory_def example_cached_def example_slice_def example_owner_def
  zero_struct_def zero_MemMountPointSpec_def zero_MemMeta_def zero_OwnerReference_def

lemma example_wf: "wf_object example_memory (RMountPoint example_cached)"
  by (simp add: example_struct_defs struct_defs wf_slice_of_def window_def wf_pointer_def wf_map_def exI[of _ True])

lemma example_runs: "DeepCopyObject (RMountPoint example_cached) example_memory = (Ret (Some (RMountPoint example_copy)), example_copied)"
  by (simp add: example_struct_defs copy_defs
      deepCopyObject_def deepCopy_def deepCopyInto_struct_def DeepCopyInto_ObjectMeta_def DeepCopyInto_RPCStatus_def
      DeepCopyInto_MountPointSpec_def DeepCopyInto_OwnerReference_def copy_slice_def copy_map_def set_key_def
      make_slice_def new_cell_def copy_elems_def get_elem_def set_elem_def
      load_def store_def copy_pointer_def DeepCopyInto_Condition_def assign_def gbind_def gthen_def Let_def fun_eq_iff)

text \<open>
  C27: \<open>DeepCopyObject\<close> of every resource and every list returns a copy that stands for the same value, item
  by item and field by field (all of the metadata with its labels, annotations, owner references and
  managed fields, the spec and the status; nil slices count as empty ones), in memory that was not
  allocated before, so that it shares no array, no map and no pointer with the original; nothing that was
  allocated changes.
\<close>

theorem DeepCopyObject_equal_and_fresh:
  assumes "wf_object m x"
  shows "\<exists>y m'. DeepCopyObject x m = (Ret (Some y), m') \<and> view_object m' y = view_object m x \<and>
    refs_object m' y \<inter> refs_object m x = {} \<and> extends m m'"
proof -
  obtain y m' where y: "DeepCopyObject x m = (Ret (Some y), m')" "extends m m'" "is_copy wf_object refs_object view_object m x y m'"
    using DeepCopyObject_copies[OF assms] by (auto simp: ok_def)
  then have "refs_object m' y \<inter> refs_object m x = {}"
    using object_bound[OF assms] by (fastforce simp: is_copy_def)
  with y show ?thesis by (auto simp: is_copy_def)
qed

theorem DeepCopyObject_equal_and_fresh_witness:
  "view_object example_copied (RMountPoint example_copy) = view_object example_memory (RMountPoint example_cached) \<and>
   refs_object example_copied (RMountPoint example_copy) \<inter> refs_object example_memory (RMountPoint example_cached) = {}"
  using DeepCopyObject_equal_and_fresh[OF example_wf] unfolding example_runs by (auto simp del: view_object.simps refs_object.simps)

text \<open>
  C26: a controller that changes its copy of a resource in place, as recording a condition does, leaves
  the cached original as it was: a memory that differs from the one after the copy only in what can be
  reached from the copy still gives the original its value. Nor do later changes of the original, as
  those of another controller, show in the copy.
\<close>

theorem deep_copies_are_independent:
  assumes "wf_object m x" "DeepCopyObject x m = (Ret (Some y), m')" "lim m' \<le> lim m''"
  shows "((\<forall>a. a \<notin> refs_object m' y \<longrightarrow> cells m'' a = cells m' a) \<longrightarrow> view_object m'' x = view_object m x) \<and>
    ((\<forall>a. a \<notin> refs_object m x \<longrightarrow> cells m'' a = cells m' a) \<longrightarrow> view_object m'' y = view_object m x)"
  using obj.independent[OF assms(1) _ _ assms(3)] copy_objectD[OF assms(1,2)] by blast

theorem deep_copies_are_independent_witness:
  "\<exists>m'. set_elem Conditions the_Conditions \<lparr>sl_array = 9, sl_off = 0, sl_len = 1\<rparr> 0 zero_Condition example_copied = (Ret (), m') \<and>
     view_object m' (RMountPoint example_cached) = view_object example_memory (RMountPoint example_cached) \<and>
     view_object m' (RMountPoint example_copy) \<noteq> view_object example_memory (RMountPoint example_cached)"
proof -
  let ?m = "example_copied\<lparr>cells := (cells example_copied)(9 \<mapsto> Conditions [zero_Condition])\<rparr>"
  have "set_elem Conditions the_Conditions \<lparr>sl_array = 9, sl_off = 0, sl_len = 1\<rparr> 0 zero_Condition example_copied = (Ret (), ?m)"
    by (simp add: set_elem_def load_def store_def example_copied_def gbind_def)
  moreover have "9 \<in> refs_object example_copied (RMountPoint example_copy)"
    by (simp add: example_copy_def example_slice_def refs_struct_def refs_status_def refs_slice_of_def)
  then have "view_object ?m (RMountPoint example_cached) = view_object example_memory (RMountPoint example_cached)"
    using deep_copies_are_independent[OF example_wf example_runs, of ?m] by (auto simp del: view_object.simps refs_object.simps)
  moreover have "view_object ?m (RMountPoint example_copy) \<noteq> view_object example_memory (RMountPoint example_cached)"
    by (simp add: example_struct_defs view_struct_def view_status_def view_slice_of_def window_def
        example_condition_def zero_Condition_def)
  ultimately show ?thesis by blast
qed

end
