(* ===== verification/Scheme_Registration.thy ===== *)
theory Scheme_Registration
  imports Operator
begin

text \<open>
  The scheme: the table by which the client and the cache translate between Go types and the API
  server's kinds. The \<open>init\<close> functions of \<open>api/v1\<close> register each kind and its list with the \<open>SchemeBuilder\<close> of
  \<open>groupversion\_info.go\<close>, and \<open>init\<close> of \<open>main.go\<close> adds them to the scheme of the process. What
  client-go adds first is a parameter, and so is \<open>deep\<close>, which says of a pointer type whether it has a method
  \<open>DeepCopyInto\<close> with that type as its only parameter. A conversion function is represented by its name:
  starting the process registers them and calls none. Error and panic texts are without the names that
  are formatted into them.
\<close>

section \<open>The scheme of the API machinery\<close>

record GroupVersion =
  gv_Group :: string
  gv_Version :: string

record GVK =
  gvk_Group :: string
  gvk_Version :: string
  gvk_Kind :: string

definition WithKind :: "GroupVersion \<Rightarrow> string \<Rightarrow> GVK" where
  "WithKind gv kind = \<lparr>gvk_Group = gv_Group gv, gvk_Version = gv_Version gv, gvk_Kind = kind\<rparr>"

text \<open>The Go types that occur, as \<open>reflect\<close> tells them apart. \<open>Named\<close> are the named types that are no structs.\<close>

datatype GoType = Struct string string | Named string string | Basic string | Ptr GoType | Slice GoType
  | MapType GoType GoType

fun ty_Name :: "GoType \<Rightarrow> string" where
  "ty_Name (Struct _ n) = n"
| "ty_Name (Named _ n) = n"
| "ty_Name (Basic n) = n"
| "ty_Name _ = []"

fun is_struct :: "GoType \<Rightarrow> bool" where
  "is_struct (Struct _ _) \<longleftrightarrow> True"
| "is_struct _ \<longleftrightarrow> False"

fun is_ptr :: "GoType \<Rightarrow> bool" where
  "is_ptr (Ptr _) \<longleftrightarrow> True"
| "is_ptr _ \<longleftrightarrow> False"

text \<open>
  \<open>ConversionFuncs\<close>: the conversion functions by the pair of types they convert between. The record has the
  fields of the scheme, and of its converter, that starting the process writes; the others (field label
  conversions, defaults, version priorities, ignored conversions, the name of the scheme) stay as they
  are created.
\<close>

type_synonym ConversionFuncs = "GoType \<times> GoType \<Rightarrow> string option"

record Scheme =
  gvkToType :: "GVK \<Rightarrow> GoType option"
  typeToGVK :: "GoType \<Rightarrow> GVK list"
  unversionedTypes :: "GoType \<Rightarrow> GVK option"
  unversionedKinds :: "string \<Rightarrow> GoType option"
  conversionFuncs :: ConversionFuncs
  generatedConversionFuncs :: ConversionFuncs
  observedVersions :: "GroupVersion list"

text \<open>\<open>utilruntime.Must\<close>, and a sequence of calls up to the first error.\<close>

definition Must :: "(Scheme, gerror option) go \<Rightarrow> (Scheme, unit) go" where
  "Must m = gbind m (\<lambda>err. case err of Some x \<Rightarrow> abort (Panic (Error x)) | None \<Rightarrow> ret ())"

fun apply_funcs :: "(Scheme, gerror option) go list \<Rightarrow> (Scheme, gerror option) go" where
  "apply_funcs [] = ret None"
| "apply_funcs (f # fs) = gbind f (\<lambda>err. case err of Some x \<Rightarrow> ret (Some x) | None \<Rightarrow> apply_funcs fs)"

subsection \<open>Conversion functions\<close>

definition AddUntyped :: "GoType \<Rightarrow> GoType \<Rightarrow> string \<Rightarrow> ConversionFuncs \<Rightarrow> gerror + ConversionFuncs" where
  "AddUntyped a b fn c =
     (if \<not> is_ptr a then Inl (GoError ''the type must be a pointer to register as an untyped conversion'')
      else if \<not> is_ptr b then Inl (GoError ''the type must be a pointer to register as an untyped conversion'')
      else Inr (c((a, b) \<mapsto> fn)))"

definition AddConversionFunc :: "GoType \<Rightarrow> GoType \<Rightarrow> string \<Rightarrow> (Scheme, gerror option) go" where
  "AddConversionFunc a b fn s = (case AddUntyped a b fn (conversionFuncs s) of
     Inl err \<Rightarrow> (Ret (Some err), s)
   | Inr c \<Rightarrow> (Ret None, s\<lparr>conversionFuncs := c\<rparr>))"

definition AddGeneratedConversionFunc :: "GoType \<Rightarrow> GoType \<Rightarrow> string \<Rightarrow> (Scheme, gerror option) go" where
  "AddGeneratedConversionFunc a b fn s = (case AddUntyped a b fn (generatedConversionFuncs s) of
     Inl err \<Rightarrow> (Ret (Some err), s)
   | Inr c \<Rightarrow> (Ret None, s\<lparr>generatedConversionFuncs := c\<rparr>))"

definition metav1_path :: string where
  "metav1_path = ''k8s.io/apimachinery/pkg/apis/meta/v1''"

definition runtime_path :: string where
  "runtime_path = ''k8s.io/apimachinery/pkg/runtime''"

definition metav1 :: "string \<Rightarrow> GoType" where
  "metav1 n = Struct metav1_path n"

definition RegisterEmbeddedConversions :: "(Scheme, gerror option) go" where
  "RegisterEmbeddedConversions = apply_funcs [
     AddConversionFunc (Ptr (Named runtime_path ''Object'')) (Ptr (Struct runtime_path ''RawExtension'')) ''Convert_runtime_Object_To_runtime_RawExtension'',
     AddConversionFunc (Ptr (Struct runtime_path ''RawExtension'')) (Ptr (Named runtime_path ''Object'')) ''Convert_runtime_RawExtension_To_runtime_Object'']"

definition RegisterStringConversions :: "(Scheme, gerror option) go" where
  "RegisterStringConversions = apply_funcs [
     AddConversionFunc (Ptr (Slice (Basic ''string''))) (Ptr (Basic ''string'')) ''Convert_Slice_string_To_string'',
     AddConversionFunc (Ptr (Slice (Basic ''string''))) (Ptr (Basic ''int'')) ''Convert_Slice_string_To_int'',
     AddConversionFunc (Ptr (Slice (Basic ''string''))) (Ptr (Basic ''bool'')) ''Convert_Slice_string_To_bool'',
     AddConversionFunc (Ptr (Slice (Basic ''string''))) (Ptr (Basic ''int64'')) ''Convert_Slice_string_To_int64'']"

definition RegisterConversions :: "(Scheme, gerror option) go" where
  "RegisterConversions = apply_funcs [
     AddGeneratedConversionFunc (Ptr (Named ''net/url'' ''Values'')) (Ptr (metav1 ''CreateOptions'')) ''Convert_url_Values_To_v1_CreateOptions'',
     AddGeneratedConversionFunc (Ptr (Named ''net/url'' ''Values'')) (Ptr (metav1 ''DeleteOptions'')) ''Convert_url_Values_To_v1_DeleteOptions'',
     AddGeneratedConversionFunc (Ptr (Named ''net/url'' ''Values'')) (Ptr (metav1 ''ExportOptions'')) ''Convert_url_Values_To_v1_ExportOptions'',
     AddGeneratedConversionFunc (Ptr (Named ''net/url'' ''Values'')) (Ptr (metav1 ''GetOptions'')) ''Convert_url_Values_To_v1_GetOptions'',
     AddGeneratedConversionFunc (Ptr (Named ''net/url'' ''Values'')) (Ptr (metav1 ''ListOptions'')) ''Convert_url_Values_To_v1_ListOptions'',
     AddGeneratedConversionFunc (Ptr (Named ''net/url'' ''Values'')) (Ptr (metav1 ''PatchOptions'')) ''Convert_url_Values_To_v1_PatchOptions'',
     AddGeneratedConversionFunc (Ptr (Named ''net/url'' ''Values'')) (Ptr (metav1 ''TableOptions'')) ''Convert_url_Values_To_v1_TableOptions'',
     AddGeneratedConversionFunc (Ptr (Named ''net/url'' ''Values'')) (Ptr (metav1 ''UpdateOptions'')) ''Convert_url_Values_To_v1_UpdateOptions'',
     AddConversionFunc (Ptr (MapType (Basic ''string'') (Basic ''string''))) (Ptr (metav1 ''LabelSelector'')) ''Convert_Map_string_To_string_To_v1_LabelSelector'',
     AddConversionFunc (Ptr (Ptr (Basic ''bool''))) (Ptr (Basic ''bool'')) ''Convert_Pointer_bool_To_bool'',
     AddConversionFunc (Ptr (Ptr (Basic ''float64''))) (Ptr (Basic ''float64'')) ''Convert_Pointer_float64_To_float64'',
     AddConversionFunc (Ptr (Ptr (Basic ''int32''))) (Ptr (Basic ''int32'')) ''Convert_Pointer_int32_To_int32'',
     AddConversionFunc (Ptr (Ptr (Basic ''int64''))) (Ptr (Basic ''int'')) ''Convert_Pointer_int64_To_int'',
     AddConversionFunc (Ptr (Ptr (Basic ''int64''))) (Ptr (Basic ''int64'')) ''Convert_Pointer_int64_To_int64'',
     AddConversionFunc (Ptr (Ptr (Struct ''k8s.io/apimachinery/pkg/util/intstr'' ''IntOrString''))) (Ptr (Struct ''k8s.io/apimachinery/pkg/util/intstr'' ''IntOrString'')) ''Convert_Pointer_intstr_IntOrString_To_intstr_IntOrString'',
     AddConversionFunc (Ptr (Ptr (Basic ''string''))) (Ptr (Basic ''string'')) ''Convert_Pointer_string_To_string'',
     AddConversionFunc (Ptr (Ptr (metav1 ''Duration''))) (Ptr (metav1 ''Duration'')) ''Convert_Pointer_v1_Duration_To_v1_Duration'',
     AddConversionFunc (Ptr (Slice (Basic ''string''))) (Ptr (Ptr (Named metav1_path ''DeletionPropagation''))) ''Convert_Slice_string_To_Pointer_v1_DeletionPropagation'',
     AddConversionFunc (Ptr (Slice (Basic ''string''))) (Ptr (Ptr (metav1 ''Time''))) ''Convert_Slice_string_To_Pointer_v1_Time'',
     AddConversionFunc (Ptr (Slice (Basic ''string''))) (Ptr (Slice (Basic ''int32''))) ''Convert_Slice_string_To_Slice_int32'',
     AddConversionFunc (Ptr (Slice (Basic ''string''))) (Ptr (Named metav1_path ''IncludeObjectPolicy'')) ''Convert_Slice_string_To_v1_IncludeObjectPolicy'',
     AddConversionFunc (Ptr (Slice (Basic ''string''))) (Ptr (Named metav1_path ''ResourceVersionMatch'')) ''Convert_Slice_string_To_v1_ResourceVersionMatch'',
     AddConversionFunc (Ptr (Slice (Basic ''string''))) (Ptr (metav1 ''Time'')) ''Convert_Slice_string_To_v1_Time'',
     AddConversionFunc (Ptr (Basic ''bool'')) (Ptr (Ptr (Basic ''bool''))) ''Convert_bool_To_Pointer_bool'',
     AddConversionFunc (Ptr (Named ''k8s.io/apimachinery/pkg/fields'' ''Selector'')) (Ptr (Basic ''string'')) ''Convert_fields_Selector_To_string'',
     AddConversionFunc (Ptr (Basic ''float64'')) (Ptr (Ptr (Basic ''float64''))) ''Convert_float64_To_Pointer_float64'',
     AddConversionFunc (Ptr (Basic ''int32'')) (Ptr (Ptr (Basic ''int32''))) ''Convert_int32_To_Pointer_int32'',
     AddConversionFunc (Ptr (Basic ''int64'')) (Ptr (Ptr (Basic ''int64''))) ''Convert_int64_To_Pointer_int64'',
     AddConversionFunc (Ptr (Basic ''int'')) (Ptr (Ptr (Basic ''int64''))) ''Convert_int_To_Pointer_int64'',
     AddConversionFunc (Ptr (Struct ''k8s.io/apimachinery/pkg/util/intstr'' ''IntOrString'')) (Ptr (Ptr (Struct ''k8s.io/apimachinery/pkg/util/intstr'' ''IntOrString''))) ''Convert_intstr_IntOrString_To_Pointer_intstr_IntOrString'',
     AddConversionFunc (Ptr (Struct ''k8s.io/apimachinery/pkg/util/intstr'' ''IntOrString'')) (Ptr (Struct ''k8s.io/apimachinery/pkg/util/intstr'' ''IntOrString'')) ''Convert_intstr_IntOrString_To_intstr_IntOrString'',
     AddConversionFunc (Ptr (Named ''k8s.io/apimachinery/pkg/labels'' ''Selector'')) (Ptr (Basic ''string'')) ''Convert_labels_Selector_To_string'',
     AddConversionFunc (Ptr (Struct ''k8s.io/apimachinery/pkg/api/resource'' ''Quantity'')) (Ptr (Struct ''k8s.io/apimachinery/pkg/api/resource'' ''Quantity'')) ''Convert_resource_Quantity_To_resource_Quantity'',
     AddConversionFunc (Ptr (Basic ''string'')) (Ptr (Ptr (Basic ''string''))) ''Convert_string_To_Pointer_string'',
     AddConversionFunc (Ptr (Basic ''string'')) (Ptr (Named ''k8s.io/apimachinery/pkg/fields'' ''Selector'')) ''Convert_string_To_fields_Selector'',
     AddConversionFunc (Ptr (Basic ''string'')) (Ptr (Named ''k8s.io/apimachinery/pkg/labels'' ''Selector'')) ''Convert_string_To_labels_Selector'',
     AddConversionFunc (Ptr (Named ''net/url'' ''Values'')) (Ptr (metav1 ''DeleteOptions'')) ''Convert_url_Values_To_v1_DeleteOptions'',
     AddConversionFunc (Ptr (metav1 ''DeleteOptions'')) (Ptr (metav1 ''DeleteOptions'')) ''Convert_v1_DeleteOptions_To_v1_DeleteOptions'',
     AddConversionFunc (Ptr (metav1 ''Duration'')) (Ptr (Ptr (metav1 ''Duration''))) ''Convert_v1_Duration_To_Pointer_v1_Duration'',
     AddConversionFunc (Ptr (metav1 ''InternalEvent'')) (Ptr (metav1 ''WatchEvent'')) ''Convert_v1_InternalEvent_To_v1_WatchEvent'',
     AddConversionFunc (Ptr (metav1 ''LabelSelector'')) (Ptr (MapType (Basic ''string'') (Basic ''string''))) ''Convert_v1_LabelSelector_To_Map_string_To_string'',
     AddConversionFunc (Ptr (metav1 ''ListMeta'')) (Ptr (metav1 ''ListMeta'')) ''Convert_v1_ListMeta_To_v1_ListMeta'',
     AddConversionFunc (Ptr (metav1 ''MicroTime'')) (Ptr (metav1 ''MicroTime'')) ''Convert_v1_MicroTime_To_v1_MicroTime'',
     AddConversionFunc (Ptr (metav1 ''Time'')) (Ptr (metav1 ''Time'')) ''Convert_v1_Time_To_v1_Time'',
     AddConversionFunc (Ptr (metav1 ''TypeMeta'')) (Ptr (metav1 ''TypeMeta'')) ''Convert_v1_TypeMeta_To_v1_TypeMeta'',
     AddConversionFunc (Ptr (metav1 ''WatchEvent'')) (Ptr (metav1 ''InternalEvent'')) ''Convert_v1_WatchEvent_To_v1_InternalEvent'',
     AddConversionFunc (Ptr (metav1 ''WatchEvent'')) (Ptr (Struct ''k8s.io/apimachinery/pkg/watch'' ''Event'')) ''Convert_v1_WatchEvent_To_watch_Event'',
     AddConversionFunc (Ptr (Struct ''k8s.io/apimachinery/pkg/watch'' ''Event'')) (Ptr (metav1 ''WatchEvent'')) ''Convert_watch_Event_To_v1_WatchEvent'']"

text \<open>No type of \<open>meta/v1\<close> has a default.\<close>

definition RegisterDefaults :: "(Scheme, gerror option) go" where
  "RegisterDefaults = ret None"

text \<open>A new scheme, whose converter knows how to copy byte slices from the start.\<close>

definition zero_Scheme :: Scheme where
  "zero_Scheme = \<lparr>gvkToType = Map.empty, typeToGVK = (\<lambda>_. []), unversionedTypes = Map.empty, unversionedKinds = Map.empty,
     conversionFuncs = [(Ptr (Slice (Basic ''byte'')), Ptr (Slice (Basic ''byte''))) \<mapsto> ''Convert_Slice_byte_To_Slice_byte''],
     generatedConversionFuncs = Map.empty, observedVersions = []\<rparr>"

definition NewScheme :: "(Scheme, unit) go" where
  "NewScheme _ = gthen (Must RegisterEmbeddedConversions) (Must RegisterStringConversions) zero_Scheme"

subsection \<open>Types\<close>

definition addObservedVersion :: "GroupVersion \<Rightarrow> (Scheme, unit) go" where
  "addObservedVersion gv = modify (\<lambda>s.
     if gv_Version gv = [] \<or> gv_Version gv = ''__internal'' then s
     else if gv \<in> set (observedVersions s) then s
     else s\<lparr>observedVersions := observedVersions s @ [gv]\<rparr>)"

text \<open>An object that is registered is given by its type: its fields are not looked at.\<close>

definition AddKnownTypeWithName :: "(GoType \<Rightarrow> bool) \<Rightarrow> GVK \<Rightarrow> GoType \<Rightarrow> (Scheme, unit) go" where
  "AddKnownTypeWithName deep gvk obj =
     gthen (addObservedVersion \<lparr>gv_Group = gvk_Group gvk, gv_Version = gvk_Version gvk\<rparr>) (\<lambda>s.
       if gvk_Version gvk = [] then abort (Panic ''version is required on all types'') s
       else case obj of
         Ptr t \<Rightarrow>
           if \<not> is_struct t then abort (Panic ''All types must be pointers to structs.'') s
           else if gvkToType s gvk \<noteq> None \<and> gvkToType s gvk \<noteq> Some t then
             abort (Panic ''Double registration of different types'') s
           else (let s = s\<lparr>gvkToType := (gvkToType s)(gvk \<mapsto> t)\<rparr> in
             if gvk \<in> set (typeToGVK s t) then ret () s
             else (let s = s\<lparr>typeToGVK := (typeToGVK s)(t := typeToGVK s t @ [gvk])\<rparr> in
               if deep obj then Must (AddGeneratedConversionFunc obj obj ''DeepCopyInto'') s
               else ret () s))
       | _ \<Rightarrow> abort (Panic ''All types must be pointers to structs.'') s)"

definition AddKnownTypes :: "(GoType \<Rightarrow> bool) \<Rightarrow> GroupVersion \<Rightarrow> GoType list \<Rightarrow> (Scheme, unit) go" where
  "AddKnownTypes deep gv types =
     gthen (addObservedVersion gv) (go_each (\<lambda>obj. case obj of
       Ptr t \<Rightarrow> AddKnownTypeWithName deep (WithKind gv (ty_Name t)) obj
     | _ \<Rightarrow> abort (Panic ''All types must be pointers to structs.'')) types)"

definition AddUnversionedType :: "GroupVersion \<Rightarrow> GoType \<Rightarrow> (Scheme, unit) go" where
  "AddUnversionedType gv obj s = (case obj of
     Ptr t \<Rightarrow>
       (let gvk = WithKind gv (ty_Name t); s = s\<lparr>unversionedTypes := (unversionedTypes s)(t \<mapsto> gvk)\<rparr> in
        if unversionedKinds s (gvk_Kind gvk) \<noteq> None \<and> unversionedKinds s (gvk_Kind gvk) \<noteq> Some t then
          abort (Panic ''kind name must be unique in scheme'') s
        else ret () (s\<lparr>unversionedKinds := (unversionedKinds s)(gvk_Kind gvk \<mapsto> t)\<rparr>))
   | _ \<Rightarrow> abort (Panic ''reflect: Elem of invalid type'') s)"

definition AddUnversionedTypes :: "(GoType \<Rightarrow> bool) \<Rightarrow> GroupVersion \<Rightarrow> GoType list \<Rightarrow> (Scheme, unit) go" where
  "AddUnversionedTypes deep gv types =
     gthen (addObservedVersion gv) (gthen (AddKnownTypes deep gv types) (go_each (AddUnversionedType gv) types))"

definition optionsTypes :: "GoType list" where
  "optionsTypes = map metav1 [''ListOptions'', ''ExportOptions'', ''GetOptions'', ''DeleteOptions'', ''CreateOptions'',
     ''UpdateOptions'', ''PatchOptions'']"

definition meta_unversioned :: "GoType list" where
  "meta_unversioned = map metav1 [''Status'', ''APIVersions'', ''APIGroupList'', ''APIGroup'', ''APIResourceList'']"

definition AddToGroupVersion :: "(GoType \<Rightarrow> bool) \<Rightarrow> GroupVersion \<Rightarrow> (Scheme, unit) go" where
  "AddToGroupVersion deep gv =
     gthen (AddKnownTypeWithName deep (WithKind gv ''WatchEvent'') (Ptr (metav1 ''WatchEvent'')))
     (gthen (AddKnownTypeWithName deep (WithKind \<lparr>gv_Group = gv_Group gv, gv_Version = ''__internal''\<rparr> ''WatchEvent'')
        (Ptr (metav1 ''InternalEvent'')))
     (gthen (AddKnownTypes deep gv (map Ptr optionsTypes))
     (gthen (AddUnversionedTypes deep \<lparr>gv_Group = [], gv_Version = ''v1''\<rparr> (map Ptr meta_unversioned))
     (gthen (Must RegisterConversions)
       (Must RegisterDefaults)))))"

section \<open>The builder of controller-runtime\<close>

record Builder =
  b_GroupVersion :: GroupVersion
  b_funcs :: "(Scheme, gerror option) go list"

definition Builder_Register :: "(GoType \<Rightarrow> bool) \<Rightarrow> GoType list \<Rightarrow> Builder \<Rightarrow> Builder" where
  "Builder_Register deep objs bld = bld\<lparr>b_funcs := b_funcs bld @
     [gthen (AddKnownTypes deep (b_GroupVersion bld) objs)
       (gthen (AddToGroupVersion deep (b_GroupVersion bld)) (ret None))]\<rparr>"

section \<open>groupversion\_info.go and the init functions of the kinds\<close>

definition GroupVersion_v1 :: GroupVersion where
  "GroupVersion_v1 = \<lparr>gv_Group = ''netconf.openshift-telco.io'', gv_Version = ''v1''\<rparr>"

definition SchemeBuilder :: Builder where
  "SchemeBuilder = \<lparr>b_GroupVersion = GroupVersion_v1, b_funcs = []\<rparr>"

definition AddToScheme :: "Builder \<Rightarrow> (Scheme, gerror option) go" where
  "AddToScheme bld = apply_funcs (b_funcs bld)"

definition netconfv1 :: "string \<Rightarrow> GoType" where
  "netconfv1 n = Struct ''github.com/openshift-telco/netconf-operator/api/v1'' n"

definition init_Commit :: "(GoType \<Rightarrow> bool) \<Rightarrow> Builder \<Rightarrow> Builder" where
  "init_Commit deep = Builder_Register deep [Ptr (netconfv1 ''Commit''), Ptr (netconfv1 ''CommitList'')]"

definition init_CreateSubscription :: "(GoType \<Rightarrow> bool) \<Rightarrow> Builder \<Rightarrow> Builder" where
  "init_CreateSubscription deep = Builder_Register deep [Ptr (netconfv1 ''CreateSubscription''), Ptr (netconfv1 ''CreateSubscriptionList'')]"

definition init_EditConfig :: "(GoType \<Rightarrow> bool) \<Rightarrow> Builder \<Rightarrow> Builder" where
  "init_EditConfig deep = Builder_Register deep [Ptr (netconfv1 ''EditConfig''), Ptr (netconfv1 ''EditConfigList'')]"

definition init_EstablishSubscription :: "(GoType \<Rightarrow> bool) \<Rightarrow> Builder \<Rightarrow> Builder" where
  "init_EstablishSubscription deep = Builder_Register deep [Ptr (netconfv1 ''EstablishSubscription''), Ptr (netconfv1 ''EstablishSubscriptionList'')]"

definition init_Get :: "(GoType \<Rightarrow> bool) \<Rightarrow> Builder \<Rightarrow> Builder" where
  "init_Get deep = Builder_Register deep [Ptr (netconfv1 ''Get''), Ptr (netconfv1 ''GetList'')]"

definition init_GetConfig :: "(GoType \<Rightarrow> bool) \<Rightarrow> Builder \<Rightarrow> Builder" where
  "init_GetConfig deep = Builder_Register deep [Ptr (netconfv1 ''GetConfig''), Ptr (netconfv1 ''GetConfigList'')]"

definition init_Lock :: "(GoType \<Rightarrow> bool) \<Rightarrow> Builder \<Rightarrow> Builder" where
  "init_Lock deep = Builder_Register deep [Ptr (netconfv1 ''Lock''), Ptr (netconfv1 ''LockList'')]"

definition init_MountPoint :: "(GoType \<Rightarrow> bool) \<Rightarrow> Builder \<Rightarrow> Builder" where
  "init_MountPoint deep = Builder_Register deep [Ptr (netconfv1 ''MountPoint''), Ptr (netconfv1 ''MountPointList'')]"

definition init_RPC :: "(GoType \<Rightarrow> bool) \<Rightarrow> Builder \<Rightarrow> Builder" where
  "init_RPC deep = Builder_Register deep [Ptr (netconfv1 ''RPC''), Ptr (netconfv1 ''RPCList'')]"

definition init_Unlock :: "(GoType \<Rightarrow> bool) \<Rightarrow> Builder \<Rightarrow> Builder" where
  "init_Unlock deep = Builder_Register deep [Ptr (netconfv1 ''Unlock''), Ptr (netconfv1 ''UnlockList'')]"

text \<open>The files of a package are initialized in the order of their names.\<close>

definition init_api :: "(GoType \<Rightarrow> bool) \<Rightarrow> Builder \<Rightarrow> Builder" where
  "init_api deep = init_Unlock deep \<circ> init_RPC deep \<circ> init_MountPoint deep \<circ> init_Lock deep \<circ> init_GetConfig deep \<circ> init_Get deep \<circ> init_EstablishSubscription deep \<circ> init_EditConfig deep \<circ> init_CreateSubscription deep \<circ> init_Commit deep"

section \<open>init of main.go\<close>

definition init_main :: "(GoType \<Rightarrow> bool) \<Rightarrow> (Scheme, gerror option) go \<Rightarrow> (Scheme, unit) go" where
  "init_main deep clientgo_AddToScheme =
     gthen (Must clientgo_AddToScheme) (Must (AddToScheme (init_api deep SchemeBuilder)))"

section \<open>Laws\<close>

fun Kind_Name :: "Kind \<Rightarrow> string" where
  "Kind_Name KCommit = ''Commit''"
| "Kind_Name KCreateSubscription = ''CreateSubscription''"
| "Kind_Name KEditConfig = ''EditConfig''"
| "Kind_Name KEstablishSubscription = ''EstablishSubscription''"
| "Kind_Name KGet = ''Get''"
| "Kind_Name KGetConfig = ''GetConfig''"
| "Kind_Name KLock = ''Lock''"
| "Kind_Name KMountPoint = ''MountPoint''"
| "Kind_Name KRPC = ''RPC''"
| "Kind_Name KUnlock = ''Unlock''"

text \<open>
  What every registration of this process agrees with: the type that belongs to a kind of the API
  group, of its internal version, or of the unversioned kinds.
\<close>

definition the_type :: "GVK \<Rightarrow> GoType option" where
  "the_type gvk =
     (if gvk_Group gvk = ''netconf.openshift-telco.io'' \<and> gvk_Version gvk = ''v1'' then
        Some (if gvk_Kind gvk = ''WatchEvent'' \<or> gvk_Kind gvk \<in> ty_Name ` set optionsTypes then metav1 (gvk_Kind gvk)
              else netconfv1 (gvk_Kind gvk))
      else if gvk = \<lparr>gvk_Group = ''netconf.openshift-telco.io'', gvk_Version = ''__internal'', gvk_Kind = ''WatchEvent''\<rparr> then
        Some (metav1 ''InternalEvent'')
      else if gvk_Group gvk = [] \<and> gvk_Version gvk = ''v1'' \<and> gvk_Kind gvk \<in> ty_Name ` set meta_unversioned then
        Some (metav1 (gvk_Kind gvk))
      else None)"

definition consistent :: "Scheme \<Rightarrow> bool" where
  "consistent s \<longleftrightarrow> (\<forall>gvk t. the_type gvk = Some t \<longrightarrow> gvkToType s gvk \<in> {None, Some t}) \<and>
     (\<forall>t \<in> set meta_unversioned. unversionedKinds s (ty_Name t) \<in> {None, Some t})"

text \<open>
  \<open>gains s G s'\<close>: a consistent scheme that keeps the types it had of the kinds above and has those of \<open>G\<close>.
  \<open>adds m a G\<close>: on a consistent scheme, \<open>m\<close> returns \<open>a\<close> and the scheme has grown by \<open>G\<close>.
\<close>

definition gains :: "Scheme \<Rightarrow> GVK set \<Rightarrow> Scheme \<Rightarrow> bool" where
  "gains s G s' \<longleftrightarrow> consistent s' \<and>
     (\<forall>gvk. the_type gvk \<noteq> None \<longrightarrow> gvkToType s gvk = the_type gvk \<or> gvk \<in> G \<longrightarrow> gvkToType s' gvk = the_type gvk)"

definition adds :: "(Scheme, 'a) go \<Rightarrow> 'a \<Rightarrow> GVK set \<Rightarrow> bool" where
  "adds m a G \<longleftrightarrow> (\<forall>s. consistent s \<longrightarrow> (\<exists>s'. m s = (Ret a, s') \<and> gains s G s'))"

lemma gains_trans: "gains s G s' \<Longrightarrow> gains s' H s'' \<Longrightarrow> gains s (G \<union> H) s''"
  unfolding gains_def by blast

lemma adds_ret: "adds (ret a) a {}"
  by (simp add: adds_def gains_def)

lemma adds_gbind:
  assumes "adds m a G" "adds (f a) b H"
  shows "adds (gbind m f) b (G \<union> H)"
  unfolding adds_def
proof (intro allI impI)
  fix s assume "consistent s"
  with assms(1) obtain s' where s': "m s = (Ret a, s')" "gains s G s'" unfolding adds_def by blast
  then have "consistent s'" by (simp add: gains_def)
  with assms(2) obtain s'' where "f a s' = (Ret b, s'')" "gains s' H s''" unfolding adds_def by blast
  with s' show "\<exists>s''. gbind m f s = (Ret b, s'') \<and> gains s (G \<union> H) s''"
    using gains_trans by (auto simp: gbind_def)
qed

lemma adds_gthen: "adds m a G \<Longrightarrow> adds n b H \<Longrightarrow> adds (gthen m n) b (G \<union> H)"
  unfolding gthen_def by (rule adds_gbind)

lemma adds_go_each:
  assumes "\<And>x. x \<in> set xs \<Longrightarrow> adds (f x) () (G x)"
  shows "adds (go_each f xs) () (\<Union>x \<in> set xs. G x)"
  using assms
proof (induction xs)
  case Nil then show ?case using adds_ret by (simp add: adds_def)
next
  case (Cons x xs)
  then show ?case using adds_gthen[of "f x" "()" "G x" "go_each f xs" "()"] by simp
qed

lemma adds_modify:
  assumes "\<And>s. gvkToType (f s) = gvkToType s" "\<And>s. unversionedKinds (f s) = unversionedKinds s"
  shows "adds (modify f) () {}"
  unfolding adds_def using assms by (auto simp: modify_def gains_def consistent_def)

lemma adds_addObservedVersion: "adds (addObservedVersion gv) () {}"
  unfolding addObservedVersion_def by (rule adds_modify) simp_all

lemma adds_conversions:
  "adds (AddConversionFunc (Ptr a) (Ptr b) fn) None {}"
  "adds (AddGeneratedConversionFunc (Ptr a) (Ptr b) fn) None {}"
  unfolding adds_def
  by (auto simp: AddConversionFunc_def AddGeneratedConversionFunc_def AddUntyped_def gains_def consistent_def)

lemma adds_Must:
  assumes "adds m None G"
  shows "adds (Must m) () G"
  using adds_gbind[OF assms, of "\<lambda>err. case err of Some x \<Rightarrow> abort (Panic (Error x)) | None \<Rightarrow> ret ()" "()" "{}"] adds_ret
  unfolding Must_def by fastforce

lemma adds_apply_Cons:
  assumes "adds f None G" "adds (apply_funcs fs) None H"
  shows "adds (apply_funcs (f # fs)) None (G \<union> H)"
  using adds_gbind[OF assms(1), of "\<lambda>err. case err of Some x \<Rightarrow> ret (Some x) | None \<Rightarrow> apply_funcs fs" None H] assms(2)
  by (simp only: apply_funcs.simps option.case)

lemma adds_apply_funcs:
  assumes "list_all (\<lambda>f. adds f None (G f)) fs"
  shows "adds (apply_funcs fs) None (\<Union>f \<in> set fs. G f)"
  using assms
proof (induction fs)
  case Nil show ?case by (simp only: apply_funcs.simps list.set UN_empty) (rule adds_ret)
next
  case (Cons f fs)
  then have "adds (apply_funcs (f # fs)) None (G f \<union> (\<Union>f \<in> set fs. G f))" by (intro adds_apply_Cons) simp_all
  then show ?case by simp
qed

lemma adds_RegisterConversions:
  "adds RegisterEmbeddedConversions None {}" "adds RegisterStringConversions None {}" "adds RegisterConversions None {}"
  using adds_apply_funcs[of "\<lambda>_. {}"]
  by (simp_all add: RegisterEmbeddedConversions_def RegisterStringConversions_def RegisterConversions_def adds_conversions
      del: apply_funcs.simps)

lemma adds_AddKnownTypeWithName:
  assumes "the_type gvk = Some t" "gvk_Version gvk \<noteq> []" "is_struct t"
  shows "adds (AddKnownTypeWithName deep gvk (Ptr t)) () {gvk}"
proof -
  let ?rest = "\<lambda>s. if gvk \<in> set (typeToGVK s t) then ret () s
     else (let s = s\<lparr>typeToGVK := (typeToGVK s)(t := typeToGVK s t @ [gvk])\<rparr> in
       if deep (Ptr t) then Must (AddGeneratedConversionFunc (Ptr t) (Ptr t) ''DeepCopyInto'') s else ret () s)"
  have rest: "\<exists>u. ?rest s = (Ret (), u) \<and> gvkToType u = gvkToType s \<and> unversionedKinds u = unversionedKinds s" for s
    by (simp add: Let_def Must_def gbind_def AddGeneratedConversionFunc_def AddUntyped_def)
  have "adds (\<lambda>s. if gvk_Version gvk = [] then abort (Panic ''version is required on all types'') s
       else if \<not> is_struct t then abort (Panic ''All types must be pointers to structs.'') s
       else if gvkToType s gvk \<noteq> None \<and> gvkToType s gvk \<noteq> Some t then
         abort (Panic ''Double registration of different types'') s
       else ?rest (s\<lparr>gvkToType := (gvkToType s)(gvk \<mapsto> t)\<rparr>)) () {gvk}"
    unfolding adds_def
  proof (intro allI impI)
    fix s assume c: "consistent s"
    obtain u where u: "?rest (s\<lparr>gvkToType := (gvkToType s)(gvk \<mapsto> t)\<rparr>) = (Ret (), u)"
      "gvkToType u = (gvkToType s)(gvk \<mapsto> t)" "unversionedKinds u = unversionedKinds s"
      using rest[of "s\<lparr>gvkToType := (gvkToType s)(gvk \<mapsto> t)\<rparr>"] by auto
    have "gains s {gvk} u" using c assms(1) u(2,3) by (auto simp: gains_def consistent_def)
    moreover have "gvkToType s gvk \<in> {None, Some t}" using c assms(1) by (simp add: consistent_def)
    ultimately show "\<exists>s'. (if gvk_Version gvk = [] then abort (Panic ''version is required on all types'') s
       else if \<not> is_struct t then abort (Panic ''All types must be pointers to structs.'') s
       else if gvkToType s gvk \<noteq> None \<and> gvkToType s gvk \<noteq> Some t then
         abort (Panic ''Double registration of different types'') s
       else ?rest (s\<lparr>gvkToType := (gvkToType s)(gvk \<mapsto> t)\<rparr>)) = (Ret (), s') \<and> gains s {gvk} s'"
      using assms(2,3) u(1) by auto
  qed
  from adds_gthen[OF adds_addObservedVersion this] show ?thesis
    by (simp only: AddKnownTypeWithName_def GoType.case Let_def Un_empty_left)
qed

lemma adds_AddKnownTypes:
  assumes "gv_Version gv \<noteq> []" "\<And>t. t \<in> set ts \<Longrightarrow> the_type (WithKind gv (ty_Name t)) = Some t \<and> is_struct t"
  shows "adds (AddKnownTypes deep gv (map Ptr ts)) () (\<Union>t \<in> set ts. {WithKind gv (ty_Name t)})"
proof -
  have "adds (go_each (\<lambda>obj. case obj of Ptr t \<Rightarrow> AddKnownTypeWithName deep (WithKind gv (ty_Name t)) obj
      | _ \<Rightarrow> abort (Panic ''All types must be pointers to structs.'')) (map Ptr ts)) ()
      (\<Union>obj \<in> set (map Ptr ts). case obj of Ptr t \<Rightarrow> {WithKind gv (ty_Name t)})"
    by (rule adds_go_each) (use assms adds_AddKnownTypeWithName in \<open>auto simp: WithKind_def\<close>)
  from adds_gthen[OF adds_addObservedVersion this] show ?thesis by (simp add: AddKnownTypes_def)
qed

lemma adds_unversioned:
  assumes "t \<in> set meta_unversioned"
  shows "adds (AddUnversionedType gv (Ptr t)) () {}"
proof -
  have inj: "u = t" if "u \<in> set meta_unversioned" "ty_Name u = ty_Name t" for u
    using that assms by (auto simp: meta_unversioned_def metav1_def)
  show ?thesis unfolding adds_def
    using assms inj by (fastforce simp: AddUnversionedType_def WithKind_def Let_def consistent_def gains_def)
qed

lemma metav1_eta: "t \<in> set optionsTypes \<union> set meta_unversioned \<Longrightarrow> metav1 (ty_Name t) = t"
  by (auto simp: optionsTypes_def meta_unversioned_def metav1_def)

lemma registered_structs [simp]:
  "is_struct (metav1 n)" "is_struct (netconfv1 n)" "ty_Name (metav1 n) = n" "ty_Name (netconfv1 n) = n"
  by (simp_all add: metav1_def netconfv1_def)

lemma metav1_structs: "t \<in> set optionsTypes \<union> set meta_unversioned \<Longrightarrow> is_struct t"
  by (auto simp: optionsTypes_def meta_unversioned_def)

lemma the_type_simps:
  "n = ''WatchEvent'' \<or> n \<in> ty_Name ` set optionsTypes \<Longrightarrow> the_type (WithKind GroupVersion_v1 n) = Some (metav1 n)"
  "n \<noteq> ''WatchEvent'' \<Longrightarrow> n \<notin> ty_Name ` set optionsTypes \<Longrightarrow> the_type (WithKind GroupVersion_v1 n) = Some (netconfv1 n)"
  "the_type (WithKind \<lparr>gv_Group = gv_Group GroupVersion_v1, gv_Version = ''__internal''\<rparr> ''WatchEvent'') = Some (metav1 ''InternalEvent'')"
  "n \<in> ty_Name ` set meta_unversioned \<Longrightarrow> the_type (WithKind \<lparr>gv_Group = [], gv_Version = ''v1''\<rparr> n) = Some (metav1 n)"
  by (simp_all add: the_type_def WithKind_def GroupVersion_v1_def)

lemma adds_AddToGroupVersion: "\<exists>G. adds (AddToGroupVersion deep GroupVersion_v1) () G"
proof -
  let ?core = "\<lparr>gv_Group = [], gv_Version = ''v1''\<rparr>"
  have k: "adds (AddKnownTypes deep ?core (map Ptr meta_unversioned)) () (\<Union>t \<in> set meta_unversioned. {WithKind ?core (ty_Name t)})"
    by (rule adds_AddKnownTypes) (simp_all add: the_type_simps metav1_eta metav1_structs)
  have o: "adds (AddKnownTypes deep GroupVersion_v1 (map Ptr optionsTypes)) () (\<Union>t \<in> set optionsTypes. {WithKind GroupVersion_v1 (ty_Name t)})"
    by (rule adds_AddKnownTypes)
      (simp_all add: the_type_simps metav1_eta metav1_structs GroupVersion_v1_def[THEN arg_cong[of _ _ gv_Version]])
  have w: "adds (AddKnownTypeWithName deep (WithKind GroupVersion_v1 ''WatchEvent'') (Ptr (metav1 ''WatchEvent''))) () {WithKind GroupVersion_v1 ''WatchEvent''}"
    by (rule adds_AddKnownTypeWithName) (simp add: the_type_simps, simp add: WithKind_def GroupVersion_v1_def, simp)
  have v: "adds (AddKnownTypeWithName deep (WithKind \<lparr>gv_Group = gv_Group GroupVersion_v1, gv_Version = ''__internal''\<rparr> ''WatchEvent'')
      (Ptr (metav1 ''InternalEvent''))) () {WithKind \<lparr>gv_Group = gv_Group GroupVersion_v1, gv_Version = ''__internal''\<rparr> ''WatchEvent''}"
    by (rule adds_AddKnownTypeWithName) (rule the_type_simps, simp add: WithKind_def, simp)
  have e: "adds (go_each (AddUnversionedType ?core) (map Ptr meta_unversioned)) () (\<Union>x \<in> set (map Ptr meta_unversioned). {})"
    by (rule adds_go_each) (use adds_unversioned in auto)
  note u = adds_gthen[OF adds_addObservedVersion adds_gthen[OF k e], of ?core, folded AddUnversionedTypes_def]
  have d: "adds (Must RegisterDefaults) () {}" unfolding RegisterDefaults_def by (rule adds_Must[OF adds_ret])
  from adds_gthen[OF w adds_gthen[OF v adds_gthen[OF o adds_gthen[OF u adds_gthen[OF adds_Must[OF adds_RegisterConversions(3)] d]]]]]
  show ?thesis unfolding AddToGroupVersion_def by blast
qed

lemma adds_mono: "adds m a G \<Longrightarrow> H \<subseteq> G \<Longrightarrow> adds m a H"
  unfolding adds_def gains_def by blast

text \<open>The function that a call of \<open>Register\<close> leaves in the builder.\<close>

definition register :: "(GoType \<Rightarrow> bool) \<Rightarrow> string list \<Rightarrow> (Scheme, gerror option) go" where
  "register deep ns = gthen (AddKnownTypes deep GroupVersion_v1 (map Ptr (map netconfv1 ns)))
     (gthen (AddToGroupVersion deep GroupVersion_v1) (ret None))"

lemma adds_register:
  assumes "\<And>n. n \<in> set ns \<Longrightarrow> n \<noteq> ''WatchEvent'' \<and> n \<notin> ty_Name ` set optionsTypes"
  shows "adds (register deep ns) None (WithKind GroupVersion_v1 ` set ns)"
proof -
  obtain G where G: "adds (AddToGroupVersion deep GroupVersion_v1) () G" using adds_AddToGroupVersion by blast
  have "adds (AddKnownTypes deep GroupVersion_v1 (map Ptr (map netconfv1 ns))) ()
      (\<Union>t \<in> set (map netconfv1 ns). {WithKind GroupVersion_v1 (ty_Name t)})"
    by (rule adds_AddKnownTypes)
      (use assms in \<open>auto simp: the_type_simps GroupVersion_v1_def[THEN arg_cong[of _ _ gv_Version]]\<close>)
  from adds_gthen[OF this adds_gthen[OF G adds_ret]] show ?thesis
    unfolding register_def by (rule adds_mono) auto
qed

text \<open>The names in the order of their registration, a kind and its list at a time.\<close>

definition registrations :: "string list list" where
  "registrations = map (\<lambda>n. [n, n @ ''List'']) [''Commit'', ''CreateSubscription'', ''EditConfig'', ''EstablishSubscription'', ''Get'', ''GetConfig'', ''Lock'', ''MountPoint'', ''RPC'', ''Unlock'']"

lemma init_api_funcs: "b_funcs (init_api deep SchemeBuilder) = map (register deep) registrations"
  by (simp add: init_api_def init_Commit_def init_CreateSubscription_def init_EditConfig_def init_EstablishSubscription_def
      init_Get_def init_GetConfig_def init_Lock_def init_MountPoint_def init_RPC_def init_Unlock_def Builder_Register_def
      SchemeBuilder_def register_def registrations_def)

definition kind_names :: "string list" where
  "kind_names = concat registrations"

lemma Kind_Name_in: "Kind_Name k \<in> set kind_names" "Kind_Name k @ ''List'' \<in> set kind_names"
  by (cases k; simp add: kind_names_def registrations_def)+

lemma kind_names_free: "n \<in> set kind_names \<Longrightarrow> n \<noteq> ''WatchEvent'' \<and> n \<notin> ty_Name ` set optionsTypes"
  by (auto simp: kind_names_def registrations_def optionsTypes_def metav1_def)

lemma adds_AddToScheme: "adds (AddToScheme (init_api deep SchemeBuilder)) None (WithKind GroupVersion_v1 ` set kind_names)"
proof -
  have "adds (register deep ns) None (WithKind GroupVersion_v1 ` set ns)" if "ns \<in> set registrations" for ns
    by (rule adds_register) (rule kind_names_free, use that in \<open>auto simp: kind_names_def\<close>)
  then have "adds (apply_funcs (map (register deep) nss)) None (WithKind GroupVersion_v1 ` set (concat nss))"
    if "set nss \<subseteq> set registrations" for nss
    using that
  proof (induction nss)
    case Nil show ?case by (simp only: apply_funcs.simps list.map list.set concat.simps image_empty) (rule adds_ret)
  next
    case (Cons ns nss)
    then have "adds (apply_funcs (register deep ns # map (register deep) nss)) None
        (WithKind GroupVersion_v1 ` set ns \<union> WithKind GroupVersion_v1 ` set (concat nss))"
      by (intro adds_apply_Cons) simp_all
    then show ?case by (simp add: image_Un)
  qed
  then show ?thesis unfolding AddToScheme_def init_api_funcs kind_names_def by blast
qed

lemma zero_Scheme_consistent: "consistent zero_Scheme"
  by (simp add: consistent_def zero_Scheme_def)

lemma NewScheme_returns: "\<exists>s. NewScheme z = (Ret (), s) \<and> consistent s"
proof -
  note adds_gthen[OF adds_Must[OF adds_RegisterConversions(1)] adds_Must[OF adds_RegisterConversions(2)]]
  with zero_Scheme_consistent show ?thesis by (auto simp: NewScheme_def adds_def gains_def)
qed

section \<open>Properties\<close>

text \<open>
  C37: the process starts with a scheme that knows every kind it has a controller for. If what client-go
  registers first succeeds and is consistent with what the operator registers, then creating the scheme
  and \<open>init\<close> do not panic, whichever types have a \<open>DeepCopyInto\<close>, and afterwards each of the ten kinds, and
  its list, is mapped to the Go type of that name, which the cache and the client of its controller need.
  Consistent means: client-go has registered no other type than the operator will for a kind of version v1 of the
  operator's group or for its internal \<open>WatchEvent\<close>, no other type than that of \<open>meta/v1\<close> for the kinds \<open>Status\<close>,
  \<open>APIVersions\<close>, \<open>APIGroupList\<close>, \<open>APIGroup\<close> and \<open>APIResourceList\<close> of version v1 of the core group, and no other
  type than that of \<open>meta/v1\<close> as the unversioned kind of one of these five names.
\<close>

theorem init_registers_every_kind:
  assumes "clientgo (snd (NewScheme z)) = (Ret None, s)" "consistent s"
  shows "\<exists>t. gthen NewScheme (init_main deep clientgo) z = (Ret (), t) \<and>
    (\<forall>k. gvkToType t (WithKind GroupVersion_v1 (Kind_Name k)) = Some (netconfv1 (Kind_Name k)) \<and>
       gvkToType t (WithKind GroupVersion_v1 (Kind_Name k @ ''List'')) = Some (netconfv1 (Kind_Name k @ ''List'')))"
proof -
  obtain t where t: "AddToScheme (init_api deep SchemeBuilder) s = (Ret None, t)" "gains s (WithKind GroupVersion_v1 ` set kind_names) t"
    using adds_AddToScheme assms(2) unfolding adds_def by blast
  have known: "gvkToType t (WithKind GroupVersion_v1 n) = Some (netconfv1 n)" if "n \<in> set kind_names" for n
    using t(2) that the_type_simps(2)[of n] kind_names_free[OF that] by (simp add: gains_def)
  have "gthen NewScheme (init_main deep clientgo) z = (Ret (), t)"
    using assms(1) t(1) NewScheme_returns[of z] by (auto simp: init_main_def Must_def gthen_def gbind_def)
  then show ?thesis using known Kind_Name_in by blast
qed

theorem init_registers_every_kind_witness:
  "\<exists>t. gthen NewScheme (init_main is_ptr (ret None)) zero_Scheme = (Ret (), t) \<and>
     gvkToType t (WithKind GroupVersion_v1 ''EditConfig'') = Some (netconfv1 ''EditConfig'')"
proof -
  obtain s where s: "NewScheme zero_Scheme = (Ret (), s)" "consistent s" using NewScheme_returns by blast
  then have "ret None (snd (NewScheme zero_Scheme)) = (Ret (None :: gerror option), s)" by simp
  from init_registers_every_kind[of "ret None" zero_Scheme s is_ptr, OF this s(2)] obtain t where
    t: "gthen NewScheme (init_main is_ptr (ret None)) zero_Scheme = (Ret (), t)"
      "\<forall>k. gvkToType t (WithKind GroupVersion_v1 (Kind_Name k)) = Some (netconfv1 (Kind_Name k))" by auto
  from t(2)[THEN spec, of KEditConfig] t(1) show ?thesis by auto
qed

end
