(* ===== verification/Work_Queue.thy ===== *)
theory Work_Queue
  imports Prelude
begin

text \<open>
  The work queue between the event sources and the workers of a controller
  (\<open>client-go\<close>: \<open>util/workqueue/queue.go\<close>). Every method holds the queue's mutex from its first
  statement to its return, so each is one function of the state; the condition variable is not part
  of the state, a method says instead whether it signals one waiting goroutine or all of them. The
  metrics and the clock only feed the metrics endpoint and are left out. The Go type \<open>set\<close>, a map
  to the empty struct with \<open>has\<close>, \<open>insert\<close> and \<open>delete\<close>, is a set.

  The laws that the workers rely on are the locale \<open>work_queue\<close>; they hold of the model, and the
  order in which items are handed out is that of the queue.
\<close>

section \<open>The queue\<close>

record 't Type =
  wq_queue :: "'t list"
  wq_dirty :: "'t set"
  wq_processing :: "'t set"
  wq_shuttingDown :: bool

datatype wake = No_wake | Signal | Broadcast

text \<open>
  \<open>Get\<close> returns an item, or reports the shutdown, or calls \<open>cond.Wait\<close> and evaluates its loop
  condition again when it is woken.
\<close>

datatype 't got = Item 't | Shutdown | Wait

definition newQueue :: "'t Type" where
  "newQueue = \<lparr>wq_queue = [], wq_dirty = {}, wq_processing = {}, wq_shuttingDown = False\<rparr>"

definition Queue_Add :: "'t \<Rightarrow> 't Type \<Rightarrow> wake \<times> 't Type" where
  "Queue_Add item q =
     (if wq_shuttingDown q then (No_wake, q)
      else if item \<in> wq_dirty q then (No_wake, q)
      else (let q = q\<lparr>wq_dirty := insert item (wq_dirty q)\<rparr> in
        if item \<in> wq_processing q then (No_wake, q)
        else (Signal, q\<lparr>wq_queue := wq_queue q @ [item]\<rparr>)))"

definition Queue_Len :: "'t Type \<Rightarrow> nat" where
  "Queue_Len q = length (wq_queue q)"

definition Queue_Get :: "'t Type \<Rightarrow> 't got \<times> 't Type" where
  "Queue_Get q = (case wq_queue q of
     [] \<Rightarrow> (if wq_shuttingDown q then (Shutdown, q) else (Wait, q))
   | item # rest \<Rightarrow> (Item item, q\<lparr>wq_queue := rest,
       wq_processing := insert item (wq_processing q), wq_dirty := wq_dirty q - {item}\<rparr>))"

definition Queue_Done :: "'t \<Rightarrow> 't Type \<Rightarrow> wake \<times> 't Type" where
  "Queue_Done item q =
     (let q = q\<lparr>wq_processing := wq_processing q - {item}\<rparr> in
      if item \<in> wq_dirty q then (Signal, q\<lparr>wq_queue := wq_queue q @ [item]\<rparr>)
      else (No_wake, q))"

definition Queue_ShutDown :: "'t Type \<Rightarrow> wake \<times> 't Type" where
  "Queue_ShutDown q = (Broadcast, q\<lparr>wq_shuttingDown := True\<rparr>)"

definition Queue_ShuttingDown :: "'t Type \<Rightarrow> bool" where
  "Queue_ShuttingDown q = wq_shuttingDown q"

lemmas queue_defs = Queue_Add_def Queue_Get_def Queue_Done_def Queue_ShutDown_def Queue_ShuttingDown_def Let_def

text \<open>
  The invariant that the comments of the type state: the queue has no duplicates and holds exactly
  the items that need processing and are not being processed.
\<close>

definition queue_inv :: "'t Type \<Rightarrow> bool" where
  "queue_inv q \<longleftrightarrow> distinct (wq_queue q) \<and> set (wq_queue q) = wq_dirty q - wq_processing q"

lemma queue_invD:
  assumes "queue_inv q"
  shows "distinct (wq_queue q)" "set (wq_queue q) = wq_dirty q - wq_processing q"
  using assms by (simp_all add: queue_inv_def)

lemma newQueue_inv: "queue_inv newQueue"
  by (simp add: queue_inv_def newQueue_def)

lemma Queue_Add_inv: "queue_inv q \<Longrightarrow> queue_inv (snd (Queue_Add x q))"
  by (auto simp: queue_inv_def queue_defs)

lemma Queue_Get_inv: "queue_inv q \<Longrightarrow> queue_inv (snd (Queue_Get q))"
  by (cases "wq_queue q") (auto simp: queue_inv_def Queue_Get_def)

lemma Queue_Done_inv: "queue_inv q \<Longrightarrow> x \<in> wq_processing q \<Longrightarrow> queue_inv (snd (Queue_Done x q))"
  by (auto simp: queue_inv_def queue_defs)

lemma Queue_ShutDown_inv: "queue_inv q \<Longrightarrow> queue_inv (snd (Queue_ShutDown q))"
  by (simp add: queue_inv_def queue_defs)

lemma Queue_Get_Item:
  "Queue_Get q = (Item x, r) \<longleftrightarrow> (\<exists>rest. wq_queue q = x # rest \<and>
     r = q\<lparr>wq_queue := rest, wq_processing := insert x (wq_processing q), wq_dirty := wq_dirty q - {x}\<rparr>)"
  by (auto simp: Queue_Get_def split: list.split)

lemma Queue_Get_Wait [simp]: "Queue_Get q = (Wait, r) \<longleftrightarrow> wq_queue q = [] \<and> \<not> wq_shuttingDown q \<and> r = q"
  by (auto simp: Queue_Get_def split: list.split)

lemma Queue_Get_Shutdown [simp]: "Queue_Get q = (Shutdown, r) \<longleftrightarrow> wq_queue q = [] \<and> wq_shuttingDown q \<and> r = q"
  by (auto simp: Queue_Get_def split: list.split)

section \<open>What the workers rely on\<close>

text \<open>
  The interface \<open>workqueue.Interface\<close> by what a client can observe: the items that need processing,
  the items that are being processed, and whether the queue is shutting down.
\<close>

locale work_queue =
  fixes add :: "'t \<Rightarrow> 'q \<Rightarrow> wake \<times> 'q" and get :: "'q \<Rightarrow> 't got \<times> 'q"
    and finish :: "'t \<Rightarrow> 'q \<Rightarrow> wake \<times> 'q" and shut :: "'q \<Rightarrow> wake \<times> 'q"
    and invar :: "'q \<Rightarrow> bool" and pending :: "'q \<Rightarrow> 't set" and active :: "'q \<Rightarrow> 't set"
    and down :: "'q \<Rightarrow> bool"
  assumes add_invar: "invar q \<Longrightarrow> invar (snd (add x q))"
    and get_invar: "invar q \<Longrightarrow> invar (snd (get q))"
    and finish_invar: "invar q \<Longrightarrow> x \<in> active q \<Longrightarrow> invar (snd (finish x q))"
    and shut_invar: "invar q \<Longrightarrow> invar (snd (shut q))"
    and add_pending: "pending (snd (add x q)) = (if down q then pending q else insert x (pending q))"
    and add_active: "active (snd (add x q)) = active q"
    and add_down: "down (snd (add x q)) = down q"
    and get_item: "invar q \<Longrightarrow> get q = (Item x, r) \<Longrightarrow>
      x \<in> pending q - active q \<and> pending r = pending q - {x} \<and> active r = insert x (active q) \<and> down r = down q"
    and get_none: "invar q \<Longrightarrow> get q = (g, r) \<Longrightarrow> g \<in> {Wait, Shutdown} \<Longrightarrow>
      r = q \<and> pending q \<subseteq> active q \<and> down q = (g = Shutdown)"
    and finish_pending: "pending (snd (finish x q)) = pending q"
    and finish_active: "active (snd (finish x q)) = active q - {x}"
    and finish_down: "down (snd (finish x q)) = down q"
    and shut_same: "pending (snd (shut q)) = pending q \<and> active (snd (shut q)) = active q \<and> down (snd (shut q))"
begin

text \<open>An item is never handed out while it is being processed.\<close>

lemma get_exclusive: "invar q \<Longrightarrow> get q = (Item x, r) \<Longrightarrow> x \<notin> active q"
  using get_item by blast

text \<open>A goroutine waits only when there is nothing that it could do.\<close>

lemma get_serves:
  assumes "invar q" "x \<in> pending q" "x \<notin> active q"
  obtains y r where "get q = (Item y, r)"
proof (cases "get q")
  case (Pair g r)
  then show ?thesis using get_none[OF assms(1) Pair] assms(2,3) that by (cases g) auto
qed

text \<open>An item that is added while it is being processed is still to be processed when that ends.\<close>

lemma added_while_active:
  assumes "invar q" "\<not> down q" "x \<in> active q"
  shows "x \<in> pending (snd (finish x (snd (add x q)))) - active (snd (finish x (snd (add x q))))"
  using assms by (simp add: finish_pending finish_active add_pending)

end

interpretation wq: work_queue Queue_Add Queue_Get Queue_Done Queue_ShutDown queue_inv wq_dirty wq_processing wq_shuttingDown
proof unfold_locales
  fix q r :: "'a Type" and x g
  show "queue_inv q \<Longrightarrow> queue_inv (snd (Queue_Add x q))" "queue_inv q \<Longrightarrow> queue_inv (snd (Queue_Get q))"
    "queue_inv q \<Longrightarrow> x \<in> wq_processing q \<Longrightarrow> queue_inv (snd (Queue_Done x q))"
    "queue_inv q \<Longrightarrow> queue_inv (snd (Queue_ShutDown q))"
    by (fact Queue_Add_inv Queue_Get_inv Queue_Done_inv Queue_ShutDown_inv)+
  show "wq_dirty (snd (Queue_Add x q)) = (if wq_shuttingDown q then wq_dirty q else insert x (wq_dirty q))"
    "wq_processing (snd (Queue_Add x q)) = wq_processing q"
    "wq_shuttingDown (snd (Queue_Add x q)) = wq_shuttingDown q"
    "wq_dirty (snd (Queue_Done x q)) = wq_dirty q" "wq_processing (snd (Queue_Done x q)) = wq_processing q - {x}"
    "wq_shuttingDown (snd (Queue_Done x q)) = wq_shuttingDown q"
    "wq_dirty (snd (Queue_ShutDown q)) = wq_dirty q \<and> wq_processing (snd (Queue_ShutDown q)) = wq_processing q \<and>
      wq_shuttingDown (snd (Queue_ShutDown q))"
    by (auto simp: queue_defs)
  show "queue_inv q \<Longrightarrow> Queue_Get q = (Item x, r) \<Longrightarrow> x \<in> wq_dirty q - wq_processing q \<and>
      wq_dirty r = wq_dirty q - {x} \<and> wq_processing r = insert x (wq_processing q) \<and> wq_shuttingDown r = wq_shuttingDown q"
    by (fastforce simp: Queue_Get_Item queue_inv_def)
  show "queue_inv q \<Longrightarrow> Queue_Get q = (g, r) \<Longrightarrow> g \<in> {Wait, Shutdown} \<Longrightarrow>
      r = q \<and> wq_dirty q \<subseteq> wq_processing q \<and> wq_shuttingDown q = (g = Shutdown)"
    by (auto simp: queue_inv_def)
qed

section \<open>Order\<close>

text \<open>One worker alone: it takes an item, processes it and calls \<open>Done\<close>, \<open>n\<close> times.\<close>

fun serve :: "nat \<Rightarrow> 't Type \<Rightarrow> 't list \<times> 't Type" where
  "serve 0 q = ([], q)"
| "serve (Suc n) q = (case Queue_Get q of
     (Item x, r) \<Rightarrow> (let (xs, t) = serve n (snd (Queue_Done x r)) in (x # xs, t))
   | (_, r) \<Rightarrow> ([], r))"

lemma serve_takes:
  assumes "queue_inv q" "n \<le> length (wq_queue q)"
  shows "fst (serve n q) = take n (wq_queue q) \<and> wq_queue (snd (serve n q)) = drop n (wq_queue q) \<and>
    wq_dirty (snd (serve n q)) = wq_dirty q - set (take n (wq_queue q)) \<and>
    wq_processing (snd (serve n q)) = wq_processing q \<and> queue_inv (snd (serve n q))"
  using assms
proof (induction n arbitrary: q)
  case (Suc n)
  obtain x rest where qs: "wq_queue q = x # rest" using Suc.prems(2) by (cases "wq_queue q") auto
  obtain r where g: "Queue_Get q = (Item x, r)" and r: "wq_queue r = rest"
      "wq_processing r = insert x (wq_processing q)" "wq_dirty r = wq_dirty q - {x}"
    using qs by (simp add: Queue_Get_def)
  let ?t = "snd (Queue_Done x r)"
  have x: "x \<notin> wq_processing q" using wq.get_exclusive[OF Suc.prems(1) g] .
  have t: "wq_queue ?t = rest" "wq_processing ?t = wq_processing q" "wq_dirty ?t = wq_dirty q - {x}"
    using x r by (auto simp: Queue_Done_def)
  have "queue_inv r" using wq.get_invar[OF Suc.prems(1)] g by simp
  then have "queue_inv ?t" by (rule wq.finish_invar) (simp add: r)
  note IH = Suc.IH[OF this]
  obtain xs u where s: "serve n ?t = (xs, u)" by fastforce
  have u: "serve (Suc n) q = (x # xs, u)" by (simp add: g s)
  have "wq_dirty q - {x} - S = wq_dirty q - insert x S" for S by blast
  then show ?case using IH Suc.prems(2) unfolding u by (simp add: qs s t)
qed simp

text \<open>
  The work queue is first in, first out, and hands every item out once: a worker that takes and
  finishes as many items as the queue holds gets exactly the queued items in the order in which they
  were queued, and leaves a queue in which nothing is queued any more, the items that other workers
  hold stay with them, and only items that were added again while being processed still need
  processing.
\<close>

lemma queue_served_in_order:
  assumes "queue_inv q"
  shows "fst (serve (Queue_Len q) q) = wq_queue q \<and> distinct (fst (serve (Queue_Len q) q)) \<and>
    Queue_Len (snd (serve (Queue_Len q) q)) = 0 \<and>
    wq_processing (snd (serve (Queue_Len q) q)) = wq_processing q \<and>
    wq_dirty (snd (serve (Queue_Len q) q)) = wq_dirty q \<inter> wq_processing q"
proof -
  note s = serve_takes[OF assms order_refl] queue_invD[OF assms]
  have "wq_dirty q - (wq_dirty q - wq_processing q) = wq_dirty q \<inter> wq_processing q" by blast
  then show ?thesis using s by (simp add: Queue_Len_def)
qed

end
