(* ===== verification/Go_Heap.thy ===== *)
theory Go_Heap
  imports Prelude "HOL-Library.Multiset"
begin

text \<open>
  The heap of Go's standard library (\<open>container/heap\<close>), which the delaying queue uses: a caller
  gives \<open>Len\<close>, \<open>Less\<close>, \<open>Swap\<close>, \<open>Push\<close> and \<open>Pop\<close> of its own array, and the package moves elements by
  calling them. A value of Go's \<open>heap.Interface\<close> is a record of functions over the caller's state;
  what the package relies on is the locale \<open>heap_interface\<close>, in which its functions are shown to
  keep the heap order and to bring the least element to the front. Indices are natural numbers: an
  array in memory is too short for \<open>2 * i + 1\<close> to overflow.
\<close>

section \<open>The package\<close>

record ('s, 'x) Interface =
  hi_Len :: "'s \<Rightarrow> nat"
  hi_Less :: "'s \<Rightarrow> nat \<Rightarrow> nat \<Rightarrow> bool"
  hi_Swap :: "nat \<Rightarrow> nat \<Rightarrow> 's \<Rightarrow> 's"
  hi_Push :: "'x \<Rightarrow> 's \<Rightarrow> 's"
  hi_Pop :: "'s \<Rightarrow> 'x \<times> 's"

definition parent :: "nat \<Rightarrow> nat" where
  "parent j = (j - 1) div 2"

function heap_up :: "('s, 'x) Interface \<Rightarrow> nat \<Rightarrow> 's \<Rightarrow> 's" where
  "heap_up H j h =
     (if parent j = j \<or> \<not> hi_Less H h j (parent j) then h
      else heap_up H (parent j) (hi_Swap H (parent j) j h))"
  by pat_completeness auto
termination
  by (relation "measures [\<lambda>(H, j, h). j]") (auto simp: parent_def)

text \<open>The child that \<open>down\<close> compares with, and the loop with the index at which it stops.\<close>

definition least_child :: "('s, 'x) Interface \<Rightarrow> nat \<Rightarrow> nat \<Rightarrow> 's \<Rightarrow> nat" where
  "least_child H i n h = (if 2 * i + 2 < n \<and> hi_Less H h (2 * i + 2) (2 * i + 1) then 2 * i + 2 else 2 * i + 1)"

function down_loop :: "('s, 'x) Interface \<Rightarrow> nat \<Rightarrow> nat \<Rightarrow> 's \<Rightarrow> nat \<times> 's" where
  "down_loop H i n h =
     (if 2 * i + 1 \<ge> n then (i, h)
      else if \<not> hi_Less H h (least_child H i n h) i then (i, h)
      else down_loop H (least_child H i n h) n (hi_Swap H i (least_child H i n h) h))"
  by pat_completeness auto
termination
  by (relation "measures [\<lambda>(H, i, n, h). n - i]") (auto simp: least_child_def)

declare heap_up.simps [simp del] down_loop.simps [simp del]

definition heap_down :: "('s, 'x) Interface \<Rightarrow> nat \<Rightarrow> nat \<Rightarrow> 's \<Rightarrow> bool \<times> 's" where
  "heap_down H i0 n h = (let (i, h') = down_loop H i0 n h in (i > i0, h'))"

definition heap_Push :: "('s, 'x) Interface \<Rightarrow> 'x \<Rightarrow> 's \<Rightarrow> 's" where
  "heap_Push H x h = (let h' = hi_Push H x h in heap_up H (hi_Len H h' - 1) h')"

definition heap_Pop :: "('s, 'x) Interface \<Rightarrow> 's \<Rightarrow> 'x \<times> 's" where
  "heap_Pop H h = (let n = hi_Len H h - 1 in hi_Pop H (snd (heap_down H 0 n (hi_Swap H 0 n h))))"

definition heap_Fix :: "('s, 'x) Interface \<Rightarrow> nat \<Rightarrow> 's \<Rightarrow> 's" where
  "heap_Fix H i h = (let (moved, h') = heap_down H i (hi_Len H h) h in
     if \<not> moved then heap_up H i h' else h')"

text \<open>Nothing but \<open>Swap\<close> is called while an element sinks, so what \<open>Swap\<close> keeps is kept.\<close>

lemma down_loop_keeps:
  assumes "\<And>i j h. f (hi_Swap H i j h) = f h"
  shows "f (snd (down_loop H i n h)) = f h"
proof (induction "n - i" arbitrary: i h rule: less_induct)
  case less
  show ?case
  proof (cases "2 * i + 1 \<ge> n \<or> \<not> hi_Less H h (least_child H i n h) i")
    case True
    then show ?thesis by (subst down_loop.simps) auto
  next
    case False
    then show ?thesis
      using less[of "least_child H i n h"] by (subst down_loop.simps) (auto simp: assms least_child_def)
  qed
qed

section \<open>Heap order\<close>

text \<open>
  The order on the first \<open>n\<close> keys, and the order with one defect: the key at an index may be less than
  its parent's, or greater than a child's, or both.
\<close>

definition heap_on :: "'k::linorder list \<Rightarrow> nat \<Rightarrow> bool" where
  "heap_on ks n \<longleftrightarrow> (\<forall>k<n. 0 < k \<longrightarrow> ks ! parent k \<le> ks ! k)"

definition skips :: "'k::linorder list \<Rightarrow> nat \<Rightarrow> nat \<Rightarrow> bool" where
  "skips ks n i \<longleftrightarrow> (\<forall>k<n. 0 < k \<longrightarrow> parent k = i \<longrightarrow> 0 < i \<longrightarrow> ks ! parent i \<le> ks ! k)"

definition up_defect :: "'k::linorder list \<Rightarrow> nat \<Rightarrow> nat \<Rightarrow> bool" where
  "up_defect ks n i \<longleftrightarrow> (\<forall>k<n. 0 < k \<longrightarrow> k \<noteq> i \<longrightarrow> ks ! parent k \<le> ks ! k) \<and> skips ks n i"

definition down_defect :: "'k::linorder list \<Rightarrow> nat \<Rightarrow> nat \<Rightarrow> bool" where
  "down_defect ks n i \<longleftrightarrow> (\<forall>k<n. 0 < k \<longrightarrow> parent k \<noteq> i \<longrightarrow> ks ! parent k \<le> ks ! k) \<and> skips ks n i"

definition defect :: "'k::linorder list \<Rightarrow> nat \<Rightarrow> nat \<Rightarrow> bool" where
  "defect ks n i \<longleftrightarrow> (\<forall>k<n. 0 < k \<longrightarrow> k \<noteq> i \<longrightarrow> parent k \<noteq> i \<longrightarrow> ks ! parent k \<le> ks ! k) \<and> skips ks n i"

definition exchange :: "nat \<Rightarrow> nat \<Rightarrow> 'a list \<Rightarrow> 'a list" where
  "exchange i j xs = xs[i := xs ! j, j := xs ! i]"

lemmas order_defs = heap_on_def skips_def up_defect_def down_defect_def defect_def

lemma parent_less: "0 < k \<Longrightarrow> parent k < k" and parent_le: "parent k \<le> k"
  by (auto simp: parent_def)

lemma parent_fix: "parent k = k \<longleftrightarrow> k = 0"
  by (auto simp: parent_def)

lemma parent_children: "0 < k \<Longrightarrow> parent k = i \<longleftrightarrow> k = 2 * i + 1 \<or> k = 2 * i + 2"
  by (auto simp: parent_def)

lemma exchange_nth:
  "k < length xs \<Longrightarrow> i < length xs \<Longrightarrow> j < length xs \<Longrightarrow>
     exchange i j xs ! k = (if k = j then xs ! i else if k = i then xs ! j else xs ! k)"
  by (auto simp: exchange_def nth_list_update)

lemma length_exchange [simp]: "length (exchange i j xs) = length xs"
  by (simp add: exchange_def)

lemma mset_exchange: "i < length xs \<Longrightarrow> j < length xs \<Longrightarrow> mset (exchange i j xs) = mset xs"
  by (simp add: exchange_def mset_swap)

lemma map_exchange: "i < length xs \<Longrightarrow> j < length xs \<Longrightarrow> map f (exchange i j xs) = exchange i j (map f xs)"
  by (simp add: exchange_def map_update)

lemma up_step:
  assumes d: "up_defect ks n j" and j: "0 < j" "j < n" "n \<le> length ks" and lt: "ks ! j < ks ! parent j"
  shows "up_defect (exchange (parent j) j ks) n (parent j)"
proof -
  let ?i = "parent j" and ?ks = "exchange (parent j) j ks"
  have i: "?i < j" using parent_less[OF j(1)] .
  have nth: "k < n \<Longrightarrow> ?ks ! k = (if k = j then ks ! ?i else if k = ?i then ks ! j else ks ! k)" for k
    using exchange_nth[of k ks ?i j] i j by auto
  have A: "ks ! parent k \<le> ks ! k" if "k < n" "0 < k" "k \<noteq> j" for k
    using d that by (auto simp: up_defect_def)
  have B: "ks ! ?i \<le> ks ! k" if "k < n" "0 < k" "parent k = j" for k
    using d that j by (auto simp: up_defect_def skips_def)
  have pk: "k < n \<Longrightarrow> parent k < n" for k using parent_le[of k] by linarith
  have C: "ks ! ?i \<le> ks ! k" if "k < n" "0 < k" "parent k = ?i" "k \<noteq> j" for k
    using A[of k] that by simp
  show ?thesis unfolding up_defect_def skips_def
  proof (intro conjI allI impI)
    fix k assume k: "k < n" "0 < k" "k \<noteq> ?i"
    have "parent k \<noteq> k" using k(2) by (simp add: parent_fix)
    then show "?ks ! parent k \<le> ?ks ! k"
      using A[of k] B[of k] C[of k] k i lt nth[OF k(1)] nth[OF pk[OF k(1)]] by (auto split: if_splits)
  next
    fix k assume k: "k < n" "0 < k" "parent k = ?i" "0 < ?i"
    have pi: "parent ?i < ?i" using parent_less[OF k(4)] .
    have g: "ks ! parent ?i \<le> ks ! ?i" using A[of ?i] k(4) i j by simp
    have "?ks ! parent ?i = ks ! parent ?i" using nth[of "parent ?i"] pi i j by auto
    moreover have "ks ! ?i \<le> ?ks ! k" using nth[OF k(1)] C[of k] k parent_less[OF k(2)] by auto
    ultimately show "?ks ! parent ?i \<le> ?ks ! k" using g by simp
  qed
qed

lemma down_step:
  assumes d: "down_defect ks n i" and j: "0 < j" "parent j = i" "j < n" "n \<le> length ks" and lt: "ks ! j < ks ! i"
    and least: "\<And>k. 0 < k \<Longrightarrow> k < n \<Longrightarrow> parent k = i \<Longrightarrow> ks ! j \<le> ks ! k"
  shows "down_defect (exchange i j ks) n j"
proof -
  let ?ks = "exchange i j ks"
  have i: "i < j" using parent_less[OF j(1)] j(2) by simp
  have nth: "k < n \<Longrightarrow> ?ks ! k = (if k = j then ks ! i else if k = i then ks ! j else ks ! k)" for k
    using exchange_nth[of k ks i j] i j by auto
  have A: "ks ! parent k \<le> ks ! k" if "k < n" "0 < k" "parent k \<noteq> i" for k
    using d that by (auto simp: down_defect_def)
  have B: "ks ! parent i \<le> ks ! j" if "0 < i" using d that j by (auto simp: down_defect_def skips_def)
  have pk: "k < n \<Longrightarrow> parent k < n" for k using parent_le[of k] by linarith
  show ?thesis unfolding down_defect_def skips_def
  proof (intro conjI allI impI)
    fix k assume k: "k < n" "0 < k" "parent k \<noteq> j"
    have p: "parent k \<noteq> k" using k(2) by (simp add: parent_fix)
    show "?ks ! parent k \<le> ?ks ! k"
    proof (cases "parent k = i")
      case True
      then show ?thesis using nth[OF k(1)] nth[OF pk[OF k(1)]] least[of k] k lt i p by auto
    next
      case False
      then show ?thesis using nth[OF k(1)] nth[OF pk[OF k(1)]] A[of k] B k j(2) p by auto
    qed
  next
    fix k assume k: "k < n" "0 < k" "parent k = j" "0 < j"
    have "k \<noteq> j" "k \<noteq> i" using parent_less[OF k(2)] k(3) i by auto
    then show "?ks ! parent j \<le> ?ks ! k"
      using nth[OF k(1)] nth[of i] A[of k] k i j by auto
  qed
qed

lemma heap_least: "heap_on ks n \<Longrightarrow> k < n \<Longrightarrow> ks ! 0 \<le> ks ! k"
proof (induction k rule: less_induct)
  case (less k)
  show ?case
  proof (cases "k = 0")
    case False
    then have "parent k < k" "ks ! parent k \<le> ks ! k" using less.prems parent_less by (auto simp: heap_on_def)
    then show ?thesis using less.IH[of "parent k"] less.prems by simp
  qed simp
qed

lemma heap_on_less: "heap_on ks n \<Longrightarrow> m \<le> n \<Longrightarrow> heap_on ks m"
  by (simp add: heap_on_def)

lemma heap_on_take:
  assumes "m \<le> n" shows "heap_on (take n ks) m = heap_on ks m"
proof -
  have "k < m \<Longrightarrow> take n ks ! k = ks ! k" "k < m \<Longrightarrow> take n ks ! parent k = ks ! parent k" for k
    using assms parent_le[of k] by simp_all
  then show ?thesis by (simp add: heap_on_def)
qed

lemma heap_on_app: "n \<le> length ks \<Longrightarrow> heap_on (ks @ ls) n = heap_on ks n"
  using heap_on_take[of n "length ks" "ks @ ls"] by simp

lemma heap_on_0 [simp]: "heap_on ks 0"
  by (simp add: heap_on_def)

lemma heap_defects:
  assumes "heap_on ks n" shows "up_defect ks n i" "down_defect ks n i" "defect ks n i"
proof -
  have "skips ks n i" unfolding skips_def
  proof (intro allI impI)
    fix k assume k: "k < n" "0 < k" "parent k = i" "0 < i"
    have "i < n" using parent_le[of k] k by linarith
    then have "ks ! parent i \<le> ks ! i" "ks ! i \<le> ks ! k" using assms k by (auto simp: heap_on_def)
    then show "ks ! parent i \<le> ks ! k" by simp
  qed
  then show "up_defect ks n i" "down_defect ks n i" "defect ks n i" using assms by (simp_all add: order_defs)
qed

lemma defect_update: "heap_on ks n \<Longrightarrow> i < n \<Longrightarrow> n \<le> length ks \<Longrightarrow> defect (ks[i := v]) n i"
proof -
  assume h: "heap_on ks n" and i: "i < n" "n \<le> length ks"
  have d: "defect ks n i" using heap_defects(3)[OF h] .
  have "0 < i \<Longrightarrow> parent i \<noteq> i" by (simp add: parent_fix)
  with d i show ?thesis unfolding defect_def skips_def by (auto simp: nth_list_update)
qed


section \<open>What the package guarantees\<close>

text \<open>
  The caller's state holds a list of elements with keys; \<open>ok\<close> is whatever the caller's own functions
  need. \<open>Less\<close> compares keys, \<open>Swap\<close> exchanges two elements, \<open>Push\<close> appends and \<open>Pop\<close> removes at the
  end, and none of them changes what the caller sees of an element, its key included.
\<close>

locale heap_interface =
  fixes H :: "('s, 'x) Interface" and items :: "'s \<Rightarrow> 'x list" and view :: "'s \<Rightarrow> 'm"
    and key :: "'m \<Rightarrow> 'x \<Rightarrow> 'k::linorder"
    and ok :: "'s \<Rightarrow> bool"
  assumes Len: "ok h \<Longrightarrow> hi_Len H h = length (items h)"
    and Less: "ok h \<Longrightarrow> i < length (items h) \<Longrightarrow> j < length (items h) \<Longrightarrow>
      hi_Less H h i j \<longleftrightarrow> key (view h) (items h ! i) < key (view h) (items h ! j)"
    and Swap_ok: "ok h \<Longrightarrow> i < length (items h) \<Longrightarrow> j < length (items h) \<Longrightarrow> ok (hi_Swap H i j h)"
    and Swap_items: "i < length (items h) \<Longrightarrow> j < length (items h) \<Longrightarrow> items (hi_Swap H i j h) = exchange i j (items h)"
    and Swap_view: "view (hi_Swap H i j h) = view h"
    and Push_ok: "ok h \<Longrightarrow> x \<notin> set (items h) \<Longrightarrow> ok (hi_Push H x h)"
    and Push_items: "items (hi_Push H x h) = items h @ [x]"
    and Push_view: "view (hi_Push H x h) = view h"
    and Pop_ok: "ok h \<Longrightarrow> items h \<noteq> [] \<Longrightarrow> ok (snd (hi_Pop H h))"
    and Pop_items: "ok h \<Longrightarrow> items h \<noteq> [] \<Longrightarrow> fst (hi_Pop H h) = last (items h) \<and> items (snd (hi_Pop H h)) = butlast (items h)"
    and Pop_view: "view (snd (hi_Pop H h)) = view h"
begin

definition keys :: "'s \<Rightarrow> 'k list" where
  "keys h = map (key (view h)) (items h)"

definition ordered :: "'s \<Rightarrow> bool" where
  "ordered h \<longleftrightarrow> heap_on (keys h) (length (items h))"

text \<open>\<open>g\<close> is \<open>h\<close> with its elements in another order.\<close>

definition rearranged :: "'s \<Rightarrow> 's \<Rightarrow> bool" where
  "rearranged h g \<longleftrightarrow> ok g \<and> mset (items g) = mset (items h) \<and> view g = view h"

lemma rearranged_length: "rearranged h g \<Longrightarrow> length (items g) = length (items h)"
  using mset_eq_length by (auto simp: rearranged_def)

lemma keys_length [simp]: "length (keys h) = length (items h)"
  by (simp add: keys_def)

lemma keys_swap: "i < length (items h) \<Longrightarrow> j < length (items h) \<Longrightarrow> keys (hi_Swap H i j h) = exchange i j (keys h)"
  by (simp add: keys_def Swap_items Swap_view map_exchange)

lemma rearranged_refl: "ok h \<Longrightarrow> rearranged h h"
  by (simp add: rearranged_def)

lemma rearranged_trans: "rearranged h g \<Longrightarrow> rearranged g f \<Longrightarrow> rearranged h f"
  by (simp add: rearranged_def)

lemma rearranged_swap:
  "ok h \<Longrightarrow> i < length (items h) \<Longrightarrow> j < length (items h) \<Longrightarrow> rearranged h (hi_Swap H i j h)"
  by (simp add: rearranged_def Swap_ok Swap_items Swap_view mset_exchange)

lemma Less_views: "ok h \<Longrightarrow> i < length (items h) \<Longrightarrow> j < length (items h) \<Longrightarrow> hi_Less H h i j \<longleftrightarrow> keys h ! i < keys h ! j"
  by (simp add: keys_def Less)

lemma up_correct:
  assumes "ok h" "j < length (items h)" "up_defect (keys h) (length (items h)) j"
  shows "rearranged h (heap_up H j h) \<and> ordered (heap_up H j h)"
  using assms
proof (induction j arbitrary: h rule: less_induct)
  case (less j)
  let ?n = "length (items h)" and ?i = "parent j"
  have i: "?i < ?n" using parent_le[of j] less.prems(2) by linarith
  note lt = Less_views[OF less.prems(1,2) i]
  show ?case
  proof (cases "?i = j \<or> \<not> hi_Less H h j ?i")
    case True
    then have "heap_up H j h = h" by (subst heap_up.simps) simp
    moreover have "ordered h"
      using less.prems(3) True lt unfolding ordered_def heap_on_def up_defect_def by (auto simp: parent_fix not_less)
    ultimately show ?thesis using less.prems(1) by (simp add: rearranged_refl)
  next
    case False
    let ?g = "hi_Swap H ?i j h"
    have j: "0 < j" using False by (simp add: parent_fix)
    have up: "heap_up H j h = heap_up H ?i ?g" using False by (subst heap_up.simps) simp
    have g: "rearranged h ?g" using rearranged_swap[OF less.prems(1) i less.prems(2)] .
    have "up_defect (keys ?g) ?n ?i"
      using up_step[OF less.prems(3) j less.prems(2)] False lt keys_swap[OF i less.prems(2)] by simp
    then have "rearranged ?g (heap_up H ?i ?g) \<and> ordered (heap_up H ?i ?g)"
      using less.IH[OF parent_less[OF j], of ?g] g i rearranged_length[OF g] by (simp add: rearranged_def)
    then show ?thesis unfolding up using rearranged_trans[OF g] by blast
  qed
qed

lemma least_child_least:
  assumes "ok h" "n \<le> length (items h)" "2 * i + 1 < n"
  defines "j \<equiv> least_child H i n h"
  shows "0 < j \<and> parent j = i \<and> j < n" "0 < k \<Longrightarrow> k < n \<Longrightarrow> parent k = i \<Longrightarrow> keys h ! j \<le> keys h ! k"
proof -
  show "0 < j \<and> parent j = i \<and> j < n" using assms by (auto simp: least_child_def parent_def)
  assume k: "0 < k" "k < n" "parent k = i"
  then have c: "k = 2 * i + 1 \<or> k = 2 * i + 2" using parent_children by blast
  have lt: "2 * i + 2 < n \<Longrightarrow> hi_Less H h (2 * i + 2) (2 * i + 1) \<longleftrightarrow> keys h ! (2 * i + 2) < keys h ! (2 * i + 1)"
    using Less_views[OF assms(1), of "2 * i + 2" "2 * i + 1"] assms(2,3) by simp
  show "keys h ! j \<le> keys h ! k" using c lt k unfolding j_def least_child_def by auto
qed

text \<open>\<open>down\<close> on the first \<open>n\<close> elements; the elements behind them stay where they are.\<close>

lemma down_correct:
  assumes "ok h" "i < n" "n \<le> length (items h)" "down_defect (keys h) n i" "down_loop H i n h = (i', g)"
  shows "rearranged h g \<and> heap_on (keys g) n \<and> drop n (items g) = drop n (items h) \<and> i \<le> i'"
  using assms
proof (induction "n - i" arbitrary: i h rule: less_induct)
  case less
  note Lc = least_child_least[OF less.prems(1,3)]
  let ?j = "least_child H i n h"
  consider (stop) "2 * i + 1 \<ge> n \<or> \<not> hi_Less H h ?j i" | (go) "2 * i + 1 < n" "hi_Less H h ?j i" by linarith
  then show ?case
  proof cases
    case stop
    then have eq: "i' = i" "g = h" using less.prems(5) by (subst (asm) down_loop.simps, auto split: if_splits)+
    have "keys h ! i \<le> keys h ! k" if k: "k < n" "0 < k" "parent k = i" for k
    proof -
      have c: "2 * i + 1 < n" using k parent_children[of k i] by auto
      have j: "?j < length (items h)" "i < length (items h)" using Lc(1)[OF c] less.prems(2,3) by simp_all
      have "keys h ! i \<le> keys h ! ?j" using stop c Less_views[OF less.prems(1) j] by auto
      then show ?thesis using Lc(2)[OF c k(2,1,3)] by simp
    qed
    then have "heap_on (keys h) n" using less.prems(4) by (auto simp: heap_on_def down_defect_def)
    then show ?thesis using less.prems(1) by (simp add: eq rearranged_refl)
  next
    case go
    let ?h = "hi_Swap H i ?j h"
    have j: "0 < ?j" "parent ?j = i" "?j < n" using Lc(1) go(1) by auto
    have ij: "i < length (items h)" "?j < length (items h)" "i < ?j" using j less.prems(2,3) parent_less[OF j(1)] by auto
    have r: "rearranged h ?h" using rearranged_swap[OF less.prems(1) ij(1,2)] .
    have "down_defect (keys ?h) n ?j"
      using down_step[OF less.prems(4) j] Lc(2)[OF go(1)] Less_views[OF less.prems(1) ij(2,1)] go(2) less.prems(3)
      by (simp add: keys_swap[OF ij(1,2)])
    moreover have "down_loop H ?j n ?h = (i', g)" using go less.prems(5) by (subst (asm) down_loop.simps) simp
    ultimately have IH: "rearranged ?h g \<and> heap_on (keys g) n \<and> drop n (items g) = drop n (items ?h) \<and> ?j \<le> i'"
      using less.hyps[of ?j ?h] j ij r less.prems(3) rearranged_length[OF r] by (simp add: rearranged_def)
    have "drop n (items ?h) = drop n (items h)" using j ij less.prems(2) by (simp add: Swap_items exchange_def)
    then show ?thesis using IH rearranged_trans[OF r] ij(3) by simp
  qed
qed

lemma ordered_least: "ordered h \<Longrightarrow> y \<in> set (items h) \<Longrightarrow> key (view h) (items h ! 0) \<le> key (view h) y"
proof -
  assume h: "ordered h" and "y \<in> set (items h)"
  then obtain k where k: "k < length (items h)" "y = items h ! k" by (auto simp: in_set_conv_nth)
  then have "0 < length (items h)" by linarith
  then show ?thesis
    using heap_least[of "keys h" "length (items h)" k] h k by (simp add: ordered_def keys_def)
qed

lemma Push_correct:
  assumes "ok h" "ordered h" "x \<notin> set (items h)"
  shows "ok (heap_Push H x h) \<and> ordered (heap_Push H x h) \<and> view (heap_Push H x h) = view h \<and>
    mset (items (heap_Push H x h)) = add_mset x (mset (items h))"
proof -
  let ?g = "hi_Push H x h" and ?n = "length (items h)"
  have g: "ok ?g" "items ?g = items h @ [x]" "view ?g = view h" "keys ?g = keys h @ [key (view h) x]"
    using assms by (simp_all add: Push_ok Push_items Push_view keys_def)
  have len: "heap_Push H x h = heap_up H ?n ?g" by (simp add: heap_Push_def Len[OF g(1)] g(2))
  have k: "heap_on (keys ?g) ?n" using assms(2) by (simp add: g(4) ordered_def heap_on_app)
  have "up_defect (keys ?g) (Suc ?n) ?n"
    unfolding up_defect_def skips_def
  proof (intro conjI allI impI)
    fix k assume "k < Suc ?n" "0 < k" "k \<noteq> ?n"
    then show "keys ?g ! parent k \<le> keys ?g ! k" using k by (simp add: heap_on_def)
  next
    fix k assume "k < Suc ?n" "0 < k" "parent k = ?n" "0 < ?n"
    then show "keys ?g ! parent ?n \<le> keys ?g ! k" using parent_less[of k] by simp
  qed
  then have "rearranged ?g (heap_up H ?n ?g) \<and> ordered (heap_up H ?n ?g)"
    using up_correct[OF g(1), of ?n] g(2) by simp
  then show ?thesis unfolding len by (simp add: rearranged_def g)
qed

lemma Pop_correct:
  assumes "ok h" "ordered h" "items h \<noteq> []" "heap_Pop H h = (x, g)"
  shows "x = items h ! 0 \<and> (\<forall>y\<in>set (items h). key (view h) x \<le> key (view h) y) \<and> ok g \<and> ordered g \<and> view g = view h \<and>
    mset (items h) = add_mset x (mset (items g))"
proof -
  obtain n where n: "length (items h) = Suc n" using assms(3) by (cases "items h") auto
  let ?h = "hi_Swap H 0 n h"
  obtain i f where d: "down_loop H 0 n ?h = (i, f)" by fastforce
  have ix: "0 < length (items h)" "n < length (items h)" using n by auto
  have r: "rearranged h ?h" and ih: "items ?h = exchange 0 n (items h)" and kh: "keys ?h = exchange 0 n (keys h)"
    using rearranged_swap[OF assms(1) ix] Swap_items[OF ix] keys_swap[OF ix] by auto
  have f: "rearranged ?h f \<and> heap_on (keys f) n \<and> drop n (items f) = drop n (items ?h)"
  proof (cases "n = 0")
    case True
    then have "f = ?h" using d by (subst (asm) down_loop.simps) simp
    then show ?thesis using r True by (simp add: rearranged_def)
  next
    case False
    have "down_defect (keys ?h) n 0" unfolding down_defect_def skips_def
    proof (intro conjI allI impI)
      fix k assume k: "k < n" "0 < k" "parent k \<noteq> 0"
      then show "keys ?h ! parent k \<le> keys ?h ! k"
        using assms(2) exchange_nth[of k "keys h" 0 n] exchange_nth[of "parent k" "keys h" 0 n] parent_le[of k]
        n by (auto simp: kh ordered_def heap_on_def)
    qed simp
    then show ?thesis
      using down_correct[OF _ _ _ _ d] False r n rearranged_length[OF r] by (auto simp: rearranged_def)
  qed
  have lf: "length (items f) = length (items h)" using f r rearranged_length by metis
  then have ne: "items f \<noteq> []" using assms(3) by auto
  have ok: "ok f" "view f = view h" "mset (items f) = mset (items h)" using f r by (simp_all add: rearranged_def)
  have "drop n (items f) = [items h ! 0]" using f ix n by (simp add: ih exchange_def drop_update_swap Cons_nth_drop_Suc[symmetric])
  then have itf: "items f = take n (items f) @ [items h ! 0]" by (metis append_take_drop_id)
  have gx: "x = items h ! 0" "items g = take n (items f)" "ok g" "view g = view h"
    using assms(4) Pop_items[OF ok(1) ne] Pop_ok[OF ok(1) ne] Pop_view[of f] ok(2) lf itf
    by (auto simp: heap_Pop_def heap_down_def Len[OF assms(1)] n d Let_def prod_eq_iff butlast_conv_take
        dest: arg_cong[where f = last])
  have "heap_on (keys f) n" using f by simp
  then have og: "ordered g" using lf n by (simp add: ordered_def keys_def gx ok(2) take_map[symmetric] heap_on_take)
  have "mset (items f) = add_mset x (mset (items g))" using gx by (subst itf) simp
  moreover have "\<forall>y\<in>set (items h). key (view h) x \<le> key (view h) y"
    using ordered_least[OF assms(2)] gx(1) by simp
  ultimately show ?thesis using gx og ok(3) by simp
qed

lemma Fix_correct:
  assumes "ok h" "i < length (items h)" "defect (keys h) (length (items h)) i"
  shows "rearranged h (heap_Fix H i h) \<and> ordered (heap_Fix H i h)"
proof -
  let ?n = "length (items h)" and ?ks = "keys h"
  obtain i' g where d: "down_loop H i ?n h = (i', g)" by fastforce
  have fx: "heap_Fix H i h = (if i' > i then g else heap_up H i g)"
    by (simp add: heap_Fix_def heap_down_def Len[OF assms(1)] d)
  show ?thesis
  proof (cases "down_defect ?ks ?n i")
    case True
    have g: "rearranged h g \<and> heap_on (keys g) ?n \<and> i \<le> i'"
      using down_correct[OF assms(1,2) order_refl True d] by simp
    then have lg: "length (items g) = ?n" using rearranged_length by blast
    have "rearranged g (heap_up H i g) \<and> ordered (heap_up H i g)"
      using up_correct[of g i] g heap_defects(1) lg assms(2) by (auto simp: rearranged_def)
    then show ?thesis unfolding fx using g lg rearranged_trans by (auto simp: ordered_def)
  next
    case False
    have i: "0 < i" "?ks ! i < ?ks ! parent i"
      using False assms(3) by (auto simp: down_defect_def defect_def not_le)
    have c: "?ks ! i \<le> ?ks ! k" if "k < ?n" "0 < k" "parent k = i" for k
      using assms(3) that i by (auto simp: defect_def skips_def)
    have "down_loop H i ?n h = (i, h)"
    proof (cases "2 * i + 1 < ?n")
      case True
      note l = least_child_least(1)[OF assms(1) order_refl True]
      then show ?thesis using c[of "least_child H i ?n h"] Less_views[OF assms(1), of "least_child H i ?n h" i] assms(2)
        by (subst down_loop.simps) auto
    qed (subst down_loop.simps, simp)
    then have "heap_Fix H i h = heap_up H i h" using fx d by simp
    moreover have "up_defect ?ks ?n i" using assms(3) c by (auto simp: up_defect_def defect_def)
    ultimately show ?thesis using up_correct[OF assms(1,2)] by simp
  qed
qed

end

end
