(* ===== verification/Delaying_Queue.thy ===== *)
theory Delaying_Queue
  imports Work_Queue Go_Heap
begin

text \<open>
  The queue with delays and its rate limiter (\<open>client-go\<close>: \<open>util/workqueue/delaying_queue.go\<close>,
  \<open>rate_limiting_queue.go\<close>, \<open>default_rate_limiters.go\<close>). \<open>AddAfter\<close> sends an entry with its due time
  to the goroutine \<open>waitingLoop\<close>, which keeps the entries in a heap and adds those that are due to the
  work queue. The heap holds pointers that the map \<open>waitingEntryByData\<close> shares, so entries live in a
  memory indexed by addresses. Times and durations are numbers of nanoseconds; what the clock shows
  is an argument. The heap is shown to implement a map from items to due times, in which the earlier
  time wins.
\<close>

section \<open>The priority queue\<close>

record 't waitFor =
  wf_data :: 't
  wf_readyAt :: int
  wf_index :: int

record 't waitForPriorityQueue =
  pq_mem :: "nat \<Rightarrow> 't waitFor"
  pq_slots :: "nat list"

definition set_index :: "nat \<Rightarrow> int \<Rightarrow> 't waitForPriorityQueue \<Rightarrow> 't waitForPriorityQueue" where
  "set_index a i pq = pq\<lparr>pq_mem := (pq_mem pq)(a := (pq_mem pq a)\<lparr>wf_index := i\<rparr>)\<rparr>"

definition pq_Len :: "'t waitForPriorityQueue \<Rightarrow> nat" where
  "pq_Len pq = length (pq_slots pq)"

definition pq_Less :: "'t waitForPriorityQueue \<Rightarrow> nat \<Rightarrow> nat \<Rightarrow> bool" where
  "pq_Less pq i j \<longleftrightarrow> wf_readyAt (pq_mem pq (pq_slots pq ! i)) < wf_readyAt (pq_mem pq (pq_slots pq ! j))"

definition pq_Swap :: "nat \<Rightarrow> nat \<Rightarrow> 't waitForPriorityQueue \<Rightarrow> 't waitForPriorityQueue" where
  "pq_Swap i j pq =
     (let s = exchange i j (pq_slots pq); pq = pq\<lparr>pq_slots := s\<rparr> in
      set_index (s ! j) (int j) (set_index (s ! i) (int i) pq))"

definition pq_Push :: "nat \<Rightarrow> 't waitForPriorityQueue \<Rightarrow> 't waitForPriorityQueue" where
  "pq_Push x pq =
     (let n = length (pq_slots pq); pq = set_index x (int n) pq in pq\<lparr>pq_slots := pq_slots pq @ [x]\<rparr>)"

definition pq_Pop :: "'t waitForPriorityQueue \<Rightarrow> nat \<times> 't waitForPriorityQueue" where
  "pq_Pop pq =
     (let n = length (pq_slots pq); item = pq_slots pq ! (n - 1); pq = set_index item (-1) pq in
      (item, pq\<lparr>pq_slots := take (n - 1) (pq_slots pq)\<rparr>))"

definition pq_Interface :: "('t waitForPriorityQueue, nat) Interface" where
  "pq_Interface = \<lparr>hi_Len = pq_Len, hi_Less = pq_Less, hi_Swap = pq_Swap, hi_Push = pq_Push, hi_Pop = pq_Pop\<rparr>"

section \<open>The waiting loop\<close>

text \<open>
  The locals of \<open>waitingLoop\<close>: the heap and the map from data to entries, with the next free address
  for an entry that is allocated.
\<close>

record 't waiting =
  w_queue :: "'t waitForPriorityQueue"
  w_byData :: "'t \<rightharpoonup> nat"
  w_next :: nat

definition no_waiting :: "'t waiting" where
  "no_waiting = \<lparr>w_queue = \<lparr>pq_mem = (\<lambda>_. \<lparr>wf_data = undefined, wf_readyAt = 0, wf_index = 0\<rparr>), pq_slots = []\<rparr>,
     w_byData = Map.empty, w_next = 0\<rparr>"

definition entry_at :: "'t waiting \<Rightarrow> nat \<Rightarrow> 't waitFor" where
  "entry_at w a = pq_mem (w_queue w) a"

definition store :: "nat \<Rightarrow> 't waitFor \<Rightarrow> 't waitForPriorityQueue \<Rightarrow> 't waitForPriorityQueue" where
  "store a e pq = pq\<lparr>pq_mem := (pq_mem pq)(a := e)\<rparr>"

text \<open>The function \<open>insert\<close> of the source.\<close>

definition insert_entry :: "'t waitFor \<Rightarrow> 't waiting \<Rightarrow> 't waiting" where
  "insert_entry entry w = (case w_byData w (wf_data entry) of
     Some existing \<Rightarrow>
       if wf_readyAt (entry_at w existing) > wf_readyAt entry
       then w\<lparr>w_queue := heap_Fix pq_Interface (nat (wf_index (entry_at w existing)))
              (store existing ((entry_at w existing)\<lparr>wf_readyAt := wf_readyAt entry\<rparr>) (w_queue w))\<rparr>
       else w
   | None \<Rightarrow>
       w\<lparr>w_queue := heap_Push pq_Interface (w_next w) (store (w_next w) entry (w_queue w)),
         w_byData := (w_byData w)(wf_data entry \<mapsto> w_next w), w_next := Suc (w_next w)\<rparr>)"

text \<open>
  One round of the loop under the comment \<open>Add ready entries\<close>: nothing when the heap is empty or its
  first entry is not due, otherwise the entry is popped, added and forgotten.
\<close>

definition pop_ready :: "int \<Rightarrow> 't waiting \<Rightarrow> ('t \<times> 't waiting) option" where
  "pop_ready now w =
     (if pq_Len (w_queue w) = 0 then None
      else if wf_readyAt (entry_at w (pq_slots (w_queue w) ! 0)) > now then None
      else (let (a, pq) = heap_Pop pq_Interface (w_queue w); d = wf_data (pq_mem pq a) in
        Some (d, w\<lparr>w_queue := pq, w_byData := (w_byData w)(d := None)\<rparr>)))"

lemma pq_Interface_sel [simp]:
  "hi_Len pq_Interface = pq_Len" "hi_Less pq_Interface = pq_Less" "hi_Swap pq_Interface = pq_Swap"
  "hi_Push pq_Interface = pq_Push" "hi_Pop pq_Interface = pq_Pop"
  by (simp_all add: pq_Interface_def)

lemma set_index_sel [simp]:
  "pq_slots (set_index a i pq) = pq_slots pq"
  "wf_readyAt (pq_mem (set_index a i pq) b) = wf_readyAt (pq_mem pq b)"
  "wf_data (pq_mem (set_index a i pq) b) = wf_data (pq_mem pq b)"
  "wf_index (pq_mem (set_index a i pq) b) = (if b = a then i else wf_index (pq_mem pq b))"
  by (simp_all add: set_index_def)

lemma heap_Pop_shrinks: "length (pq_slots (snd (heap_Pop pq_Interface pq))) = length (pq_slots pq) - 1"
proof -
  have "length (pq_slots (snd (down_loop pq_Interface i n h))) = length (pq_slots h)" for i n and h :: "'a waitForPriorityQueue"
    by (rule down_loop_keeps[where f = "\<lambda>h. length (pq_slots h)"]) (simp add: pq_Swap_def Let_def)
  then show ?thesis
    by (simp add: heap_Pop_def heap_down_def pq_Pop_def pq_Swap_def pq_Len_def Let_def case_prod_beta)
qed

lemma pop_ready_shrinks: "pop_ready now w = Some (d, w') \<Longrightarrow> length (pq_slots (w_queue w')) < length (pq_slots (w_queue w))"
  using heap_Pop_shrinks[of "w_queue w"] by (auto simp: pop_ready_def pq_Len_def Let_def split: if_splits prod.splits)

text \<open>The whole loop: what it adds goes to the work queue entry by entry.\<close>

function add_ready :: "int \<Rightarrow> 't waiting \<Rightarrow> 't Type \<Rightarrow> 't waiting \<times> 't Type" where
  "add_ready now w q = (case pop_ready now w of
     None \<Rightarrow> (w, q)
   | Some (d, w') \<Rightarrow> add_ready now w' (snd (Queue_Add d q)))"
  by pat_completeness auto
termination
  by (relation "measures [\<lambda>(now, w, q). length (pq_slots (w_queue w))]") (auto dest: pop_ready_shrinks)

declare add_ready.simps [simp del]

text \<open>An entry received from the channel, in the select and in the loop that drains the channel.\<close>

definition receive_entry :: "int \<Rightarrow> 't waitFor \<Rightarrow> 't waiting \<Rightarrow> 't Type \<Rightarrow> wake \<times> 't waiting \<times> 't Type" where
  "receive_entry now entry w q =
     (if wf_readyAt entry > now then (No_wake, insert_entry entry w, q)
      else (let (k, q') = Queue_Add (wf_data entry) q in (k, w, q')))"

section \<open>The heap implements a map from items to due times\<close>

definition pq_ok :: "'t waitForPriorityQueue \<Rightarrow> bool" where
  "pq_ok pq \<longleftrightarrow> distinct (pq_slots pq) \<and>
     (\<forall>i<length (pq_slots pq). wf_index (pq_mem pq (pq_slots pq ! i)) = int i)"

definition pq_view :: "'t waitForPriorityQueue \<Rightarrow> nat \<Rightarrow> 't \<times> int" where
  "pq_view pq a = (wf_data (pq_mem pq a), wf_readyAt (pq_mem pq a))"

lemma exchange_distinct: "i < length xs \<Longrightarrow> j < length xs \<Longrightarrow> distinct (exchange i j xs) = distinct xs"
  using mset_exchange mset_eq_imp_distinct_iff by blast

lemma pq_Swap_ok:
  assumes "pq_ok pq" "i < length (pq_slots pq)" "j < length (pq_slots pq)"
  shows "pq_ok (pq_Swap i j pq)"
proof -
  let ?s = "exchange i j (pq_slots pq)"
  have d: "distinct ?s" using assms by (simp add: pq_ok_def exchange_distinct)
  have eq: "k < length ?s \<Longrightarrow> l < length ?s \<Longrightarrow> ?s ! k = ?s ! l \<longleftrightarrow> k = l" for k l
    using d by (simp add: nth_eq_iff_index_eq)
  have "wf_index (pq_mem (pq_Swap i j pq) (?s ! k)) = int k" if "k < length (pq_slots pq)" for k
    using that assms eq[of k j] eq[of k i] exchange_nth[of k "pq_slots pq" i j]
    by (auto simp: pq_Swap_def Let_def pq_ok_def)
  then show ?thesis using d by (simp add: pq_ok_def pq_Swap_def Let_def)
qed

lemma pq_Push_ok: "pq_ok pq \<Longrightarrow> x \<notin> set (pq_slots pq) \<Longrightarrow> pq_ok (pq_Push x pq)"
  by (auto simp: pq_ok_def pq_Push_def Let_def nth_append)

lemma pq_Pop_ok: "pq_ok pq \<Longrightarrow> pq_slots pq \<noteq> [] \<Longrightarrow> pq_ok (snd (pq_Pop pq))"
proof -
  assume pq: "pq_ok pq" "pq_slots pq \<noteq> []"
  let ?n = "length (pq_slots pq) - 1"
  have "pq_slots pq ! k \<noteq> pq_slots pq ! ?n" if "k < ?n" for k
    using pq that by (auto simp: pq_ok_def nth_eq_iff_index_eq)
  then show ?thesis using pq by (auto simp: pq_ok_def pq_Pop_def Let_def)
qed

interpretation pqh: heap_interface pq_Interface pq_slots pq_view "\<lambda>m a. snd (m a)" pq_ok
proof unfold_locales
  fix h :: "'a waitForPriorityQueue" and i j x
  show "hi_Len pq_Interface h = length (pq_slots h)" by (simp add: pq_Len_def)
  show "hi_Less pq_Interface h i j \<longleftrightarrow> snd (pq_view h (pq_slots h ! i)) < snd (pq_view h (pq_slots h ! j))"
    by (simp add: pq_Less_def pq_view_def)
  show "pq_slots (hi_Swap pq_Interface i j h) = exchange i j (pq_slots h)"
    "pq_slots (hi_Push pq_Interface x h) = pq_slots h @ [x]"
    by (simp_all add: pq_Swap_def pq_Push_def Let_def)
  show "pq_view (hi_Swap pq_Interface i j h) = pq_view h" "pq_view (hi_Push pq_Interface x h) = pq_view h"
    "pq_view (snd (hi_Pop pq_Interface h)) = pq_view h"
    by (rule ext, simp add: pq_view_def pq_Swap_def pq_Push_def pq_Pop_def Let_def)+
  show "pq_slots h \<noteq> [] \<Longrightarrow> fst (hi_Pop pq_Interface h) = last (pq_slots h) \<and>
      pq_slots (snd (hi_Pop pq_Interface h)) = butlast (pq_slots h)"
    by (simp add: pq_Pop_def Let_def last_conv_nth butlast_conv_take)
qed (simp_all add: pq_Swap_ok pq_Push_ok pq_Pop_ok)

text \<open>
  The invariant of the loop's locals: a heap whose entries know their places, and a map that finds
  exactly the entries of the heap by their data.
\<close>

definition waiting_inv :: "'t waiting \<Rightarrow> bool" where
  "waiting_inv w \<longleftrightarrow> pq_ok (w_queue w) \<and> pqh.ordered (w_queue w) \<and>
     (\<forall>d a. w_byData w d = Some a \<longleftrightarrow> a \<in> set (pq_slots (w_queue w)) \<and> wf_data (entry_at w a) = d) \<and>
     (\<forall>a\<in>set (pq_slots (w_queue w)). a < w_next w)"

definition due :: "'t waiting \<Rightarrow> 't \<rightharpoonup> int" where
  "due w d = map_option (\<lambda>a. wf_readyAt (entry_at w a)) (w_byData w d)"

definition sooner :: "int option \<Rightarrow> int \<Rightarrow> int" where
  "sooner t t' = (case t of None \<Rightarrow> t' | Some t \<Rightarrow> min t t')"

lemma no_waiting_inv: "waiting_inv no_waiting" "due no_waiting = Map.empty"
  by (auto simp: waiting_inv_def no_waiting_def pq_ok_def pqh.ordered_def due_def)

lemma view_data: "pq_view p = pq_view q \<Longrightarrow> wf_data (pq_mem p a) = wf_data (pq_mem q a)"
  and view_readyAt: "pq_view p = pq_view q \<Longrightarrow> wf_readyAt (pq_mem p a) = wf_readyAt (pq_mem q a)"
  by (drule fun_cong[of _ _ a], simp add: pq_view_def)+

lemma due_Some:
  assumes "waiting_inv w"
  shows "due w d = Some t \<longleftrightarrow> (\<exists>a\<in>set (pq_slots (w_queue w)). wf_data (entry_at w a) = d \<and> wf_readyAt (entry_at w a) = t)"
  using assms by (auto simp: due_def waiting_inv_def)

lemma pop_ready_None:
  assumes "waiting_inv w"
  shows "pop_ready now w = None \<longleftrightarrow> (\<forall>d t. due w d = Some t \<longrightarrow> now < t)"
proof (cases "pq_slots (w_queue w)")
  case Nil
  then show ?thesis using assms by (simp add: pop_ready_def pq_Len_def due_Some)
next
  case (Cons a as)
  have le: "wf_readyAt (entry_at w a) \<le> wf_readyAt (entry_at w b)" if "b \<in> set (pq_slots (w_queue w))" for b
    using pqh.ordered_least[of "w_queue w" b] that assms Cons by (simp add: waiting_inv_def pq_view_def entry_at_def)
  have "pop_ready now w = None \<longleftrightarrow> now < wf_readyAt (entry_at w a)"
    using Cons by (auto simp: pop_ready_def pq_Len_def Let_def split: prod.splits)
  also have "\<dots> \<longleftrightarrow> (\<forall>d t. due w d = Some t \<longrightarrow> now < t)"
    using le Cons by (fastforce simp: due_Some[OF assms])
  finally show ?thesis .
qed

lemma pop_ready_Some:
  assumes inv: "waiting_inv w" and pop: "pop_ready now w = Some (d, w')"
  obtains t where "due w d = Some t" "t \<le> now" "\<forall>d' t'. due w d' = Some t' \<longrightarrow> t \<le> t'"
    "due w' = (due w)(d := None)" "waiting_inv w'"
proof -
  let ?h = "w_queue w"
  obtain a g where hp: "heap_Pop pq_Interface ?h = (a, g)" by fastforce
  have ne: "pq_slots ?h \<noteq> []" and rd: "wf_readyAt (entry_at w (pq_slots ?h ! 0)) \<le> now"
    and d: "d = wf_data (pq_mem g a)" and w': "w' = w\<lparr>w_queue := g, w_byData := (w_byData w)(d := None)\<rparr>"
    using pop hp by (auto simp: pop_ready_def pq_Len_def Let_def split: if_splits)
  have inv': "pq_ok ?h" "pqh.ordered ?h" using inv by (auto simp: waiting_inv_def)
  note P = pqh.Pop_correct[OF inv' ne hp]
  have a: "a = pq_slots ?h ! 0" "a \<in> set (pq_slots ?h)" using P ne by auto
  have g: "pq_ok g" "pqh.ordered g" "pq_view g = pq_view ?h" using P by auto
  have ms: "mset (pq_slots ?h) = add_mset a (mset (pq_slots g))" using P by simp
  have "set (pq_slots ?h) = insert a (set (pq_slots g))" using arg_cong[OF ms, of set_mset] by simp
  moreover have "a \<notin> set (pq_slots g)"
    using ms inv'(1) by (metis distinct.simps(2) mset.simps(2) mset_eq_imp_distinct_iff pq_ok_def)
  ultimately have sg: "set (pq_slots g) = set (pq_slots ?h) - {a}" by blast
  have ent: "wf_data (entry_at w' b) = wf_data (entry_at w b)" "wf_readyAt (entry_at w' b) = wf_readyAt (entry_at w b)" for b
    using view_data[OF g(3)] view_readyAt[OF g(3)] by (simp_all add: w' entry_at_def)
  have da: "wf_data (entry_at w a) = d" using ent(1)[of a] d by (simp add: w' entry_at_def)
  have uniq: "wf_data (entry_at w b) = d \<Longrightarrow> b \<in> set (pq_slots ?h) \<Longrightarrow> b = a" for b
    using inv a(2) da unfolding waiting_inv_def by (metis option.inject)
  have "waiting_inv w'"
    unfolding waiting_inv_def ent
  proof (intro conjI allI ballI)
    show "pq_ok (w_queue w')" "pqh.ordered (w_queue w')" using g by (simp_all add: w')
    fix b assume "b \<in> set (pq_slots (w_queue w'))"
    then show "b < w_next w'" using inv sg by (simp add: w' waiting_inv_def)
  next
    fix e b
    have "w_byData w e = Some b \<longleftrightarrow> b \<in> set (pq_slots ?h) \<and> wf_data (entry_at w b) = e" using inv by (simp add: waiting_inv_def)
    then show "w_byData w' e = Some b \<longleftrightarrow> b \<in> set (pq_slots (w_queue w')) \<and> wf_data (entry_at w b) = e"
      using sg uniq[of b] da by (auto simp: w')
  qed
  moreover have "due w' = (due w)(d := None)" by (rule ext) (simp add: due_def ent, simp add: w')
  moreover have "due w d = Some (wf_readyAt (entry_at w a))" using due_Some[OF inv] a(2) da by blast
  moreover have "\<forall>d' t'. due w d' = Some t' \<longrightarrow> wf_readyAt (entry_at w a) \<le> t'"
    using P due_Some[OF inv] by (auto simp: pq_view_def entry_at_def)
  moreover have "wf_readyAt (entry_at w a) \<le> now" using rd a(1) by simp
  ultimately show ?thesis using that by blast
qed

lemma entry_index:
  assumes "waiting_inv w" "a \<in> set (pq_slots (w_queue w))"
  obtains i where "i < length (pq_slots (w_queue w))" "pq_slots (w_queue w) ! i = a" "wf_index (entry_at w a) = int i"
  using assms by (auto simp: waiting_inv_def pq_ok_def in_set_conv_nth entry_at_def)

text \<open>
  A state with the entries and the data of another, in which the heap is in order again after one
  entry has become due earlier.
\<close>

lemma insert_earlier:
  assumes inv: "waiting_inv w" and ex: "w_byData w (wf_data e) = Some a" and lt: "wf_readyAt e < wf_readyAt (entry_at w a)"
  shows "waiting_inv (insert_entry e w) \<and> due (insert_entry e w) = (due w)(wf_data e \<mapsto> wf_readyAt e)"
proof -
  let ?h = "store a ((entry_at w a)\<lparr>wf_readyAt := wf_readyAt e\<rparr>) (w_queue w)"
  have a: "a \<in> set (pq_slots (w_queue w))" "wf_data (entry_at w a) = wf_data e" using inv ex by (auto simp: waiting_inv_def)
  obtain i where i: "i < length (pq_slots (w_queue w))" "pq_slots (w_queue w) ! i = a" "wf_index (entry_at w a) = int i"
    by (rule entry_index[OF inv a(1)])
  define g where "g = heap_Fix pq_Interface i ?h"
  have w': "insert_entry e w = w\<lparr>w_queue := g\<rparr>" using ex lt i(3) by (simp add: insert_entry_def g_def)
  have ok: "pq_ok ?h" using inv i(3) by (auto simp: waiting_inv_def pq_ok_def store_def entry_at_def)
  have sl: "pq_slots ?h = pq_slots (w_queue w)" by (simp add: store_def)
  have dist: "distinct (pq_slots (w_queue w))" using inv by (simp add: waiting_inv_def pq_ok_def)
  have "pqh.keys ?h = (pqh.keys (w_queue w))[i := wf_readyAt e]"
    using i dist by (intro nth_equalityI)
      (auto simp: pqh.keys_def sl pq_view_def store_def nth_list_update nth_eq_iff_index_eq)
  then have "defect (pqh.keys ?h) (length (pq_slots ?h)) i"
    using defect_update[of "pqh.keys (w_queue w)" "length (pq_slots (w_queue w))" i "wf_readyAt e"] inv i(1)
    by (simp add: sl waiting_inv_def pqh.ordered_def)
  then have F: "pqh.rearranged ?h g \<and> pqh.ordered g" unfolding g_def using pqh.Fix_correct[OF ok] i(1) sl by simp
  then have g: "pq_ok g" "pqh.ordered g" "pq_view g = pq_view ?h" "set (pq_slots g) = set (pq_slots (w_queue w))"
    using sl mset_eq_setD by (auto simp: pqh.rearranged_def)
  have dt: "wf_data (entry_at (w\<lparr>w_queue := g\<rparr>) b) = wf_data (entry_at w b)" for b
    using view_data[OF g(3), of b] by (simp add: entry_at_def store_def)
  have rt: "wf_readyAt (entry_at (w\<lparr>w_queue := g\<rparr>) b) = (if b = a then wf_readyAt e else wf_readyAt (entry_at w b))" for b
    using view_readyAt[OF g(3), of b] by (simp add: entry_at_def store_def)
  have inv': "waiting_inv (w\<lparr>w_queue := g\<rparr>)" using inv g by (simp add: waiting_inv_def dt)
  have own: "w_byData w d = Some a \<longleftrightarrow> d = wf_data e" for d using inv ex a by (auto simp: waiting_inv_def)
  have "due (w\<lparr>w_queue := g\<rparr>) d = ((due w)(wf_data e \<mapsto> wf_readyAt e)) d" for d
    using own[of d] by (cases "w_byData w d") (auto simp: due_def rt)
  then have "due (w\<lparr>w_queue := g\<rparr>) = (due w)(wf_data e \<mapsto> wf_readyAt e)" by (rule ext)
  then show ?thesis using w' inv' by simp
qed

lemma insert_new:
  assumes inv: "waiting_inv w" and new: "w_byData w (wf_data e) = None"
  shows "waiting_inv (insert_entry e w) \<and> due (insert_entry e w) = (due w)(wf_data e \<mapsto> wf_readyAt e)"
proof -
  let ?a = "w_next w"
  let ?h = "store ?a e (w_queue w)"
  define g where "g = heap_Push pq_Interface ?a ?h"
  have w': "insert_entry e w = w\<lparr>w_queue := g, w_byData := (w_byData w)(wf_data e \<mapsto> ?a), w_next := Suc ?a\<rparr>"
    using new by (simp add: insert_entry_def g_def)
  have fresh: "?a \<notin> set (pq_slots (w_queue w))" using inv by (auto simp: waiting_inv_def)
  have sl: "pq_slots ?h = pq_slots (w_queue w)" by (simp add: store_def)
  have same: "b \<in> set (pq_slots (w_queue w)) \<Longrightarrow> pq_mem ?h b = pq_mem (w_queue w) b" for b
    using fresh by (auto simp: store_def)
  have ok: "pq_ok ?h" using inv same by (auto simp: waiting_inv_def pq_ok_def sl)
  have "pqh.keys ?h = pqh.keys (w_queue w)" using same by (auto simp: pqh.keys_def sl pq_view_def)
  then have od: "pqh.ordered ?h" using inv by (simp add: waiting_inv_def pqh.ordered_def sl)
  note P = pqh.Push_correct[OF ok od, of ?a]
  have g: "pq_ok g" "pqh.ordered g" "pq_view g = pq_view ?h" using P fresh by (simp_all add: g_def sl)
  have "mset (pq_slots g) = add_mset ?a (mset (pq_slots (w_queue w)))" using P fresh by (simp add: g_def sl)
  then have st: "set (pq_slots g) = insert ?a (set (pq_slots (w_queue w)))" by (metis set_mset_add_mset_insert set_mset_mset)
  let ?w = "insert_entry e w"
  have dt: "wf_data (entry_at ?w b) = (if b = ?a then wf_data e else wf_data (entry_at w b))"
    and rt: "wf_readyAt (entry_at ?w b) = (if b = ?a then wf_readyAt e else wf_readyAt (entry_at w b))" for b
    using view_data[OF g(3), of b] view_readyAt[OF g(3), of b] by (simp_all add: w' entry_at_def store_def)
  have byd: "w_byData w d = Some b \<longleftrightarrow> b \<in> set (pq_slots (w_queue w)) \<and> wf_data (entry_at w b) = d" for d b
    using inv by (simp add: waiting_inv_def)
  have "waiting_inv ?w"
    unfolding waiting_inv_def dt
  proof (intro conjI allI ballI)
    show "pq_ok (w_queue ?w)" "pqh.ordered (w_queue ?w)" using g by (simp_all add: w')
    fix b assume "b \<in> set (pq_slots (w_queue ?w))"
    then show "b < w_next ?w" using inv st by (auto simp: w' waiting_inv_def)
  next
    fix d b
    show "w_byData ?w d = Some b \<longleftrightarrow>
        b \<in> set (pq_slots (w_queue ?w)) \<and> (if b = ?a then wf_data e else wf_data (entry_at w b)) = d"
      using byd[of d b] byd[of "wf_data e" b] new fresh st by (auto simp: w')
  qed
  moreover have "due ?w = (due w)(wf_data e \<mapsto> wf_readyAt e)"
  proof (rule ext)
    fix d
    have n: "w_byData w d \<noteq> Some ?a" using byd[of d ?a] fresh by simp
    have b: "w_byData ?w d = (if d = wf_data e then Some ?a else w_byData w d)" by (simp add: w')
    show "due ?w d = ((due w)(wf_data e \<mapsto> wf_readyAt e)) d"
      using n by (cases "w_byData w d") (simp_all add: due_def rt b)
  qed
  ultimately show ?thesis by simp
qed

lemma insert_entry_correct:
  assumes "waiting_inv w"
  shows "waiting_inv (insert_entry e w)"
    "due (insert_entry e w) = (due w)(wf_data e \<mapsto> sooner (due w (wf_data e)) (wf_readyAt e))"
proof -
  have "waiting_inv (insert_entry e w) \<and>
    due (insert_entry e w) = (due w)(wf_data e \<mapsto> sooner (due w (wf_data e)) (wf_readyAt e))"
  proof (cases "w_byData w (wf_data e)")
    case None
    then show ?thesis using insert_new[OF assms None] by (simp add: sooner_def due_def)
  next
    case (Some a)
    show ?thesis
    proof (cases "wf_readyAt e < wf_readyAt (entry_at w a)")
      case True
      then show ?thesis using insert_earlier[OF assms Some True] Some by (simp add: sooner_def due_def)
    next
      case False
      then have "insert_entry e w = w" using Some by (simp add: insert_entry_def)
      moreover have "due w (wf_data e) = Some (wf_readyAt (entry_at w a))" using Some by (simp add: due_def)
      ultimately show ?thesis using assms False by (auto simp: sooner_def)
    qed
  qed
  then show "waiting_inv (insert_entry e w)"
    "due (insert_entry e w) = (due w)(wf_data e \<mapsto> sooner (due w (wf_data e)) (wf_readyAt e))" by simp_all
qed

definition Queue_Add_all :: "'t list \<Rightarrow> 't Type \<Rightarrow> 't Type" where
  "Queue_Add_all ds q = fold (\<lambda>d q. snd (Queue_Add d q)) ds q"

lemma add_ready_correct:
  assumes "waiting_inv w"
  shows "\<exists>ds. add_ready now w q = (fst (add_ready now w q), Queue_Add_all ds q) \<and>
    waiting_inv (fst (add_ready now w q)) \<and>
    due (fst (add_ready now w q)) = (due w) |` {d. \<exists>t. due w d = Some t \<and> now < t} \<and>
    distinct ds \<and> set ds = {d. \<exists>t. due w d = Some t \<and> t \<le> now} \<and> sorted (map (\<lambda>d. the (due w d)) ds)"
  using assms
proof (induction now w q rule: add_ready.induct)
  case (1 now w q)
  show ?case
  proof (cases "pop_ready now w")
    case None
    then have n: "\<forall>d t. due w d = Some t \<longrightarrow> now < t" using pop_ready_None[OF "1.prems"] by simp
    have "add_ready now w q = (w, q)" using None by (subst add_ready.simps) simp
    moreover have "due w = (due w) |` {d. \<exists>t. due w d = Some t \<and> now < t}"
      using n by (intro ext) (auto simp: restrict_map_def)
    moreover have "{d. \<exists>t. due w d = Some t \<and> t \<le> now} = {}" using n by fastforce
    ultimately show ?thesis using "1.prems" by (intro exI[of _ "[]"]) (simp add: Queue_Add_all_def)
  next
    case (Some dw)
    obtain d v where dv: "dw = (d, v)" by fastforce
    note pop = Some[unfolded dv]
    obtain t where t: "due w d = Some t" "t \<le> now" "\<forall>d' t'. due w d' = Some t' \<longrightarrow> t \<le> t'"
      "due v = (due w)(d := None)" "waiting_inv v"
      by (rule pop_ready_Some[OF "1.prems" pop])
    let ?q = "snd (Queue_Add d q)"
    have run: "add_ready now w q = add_ready now v ?q" using pop by (subst add_ready.simps) simp
    obtain ds where ds: "add_ready now v ?q = (fst (add_ready now v ?q), Queue_Add_all ds ?q)"
      "waiting_inv (fst (add_ready now v ?q))"
      "due (fst (add_ready now v ?q)) = (due v) |` {d. \<exists>t. due v d = Some t \<and> now < t}"
      "distinct ds" "set ds = {d. \<exists>t. due v d = Some t \<and> t \<le> now}" "sorted (map (\<lambda>d. the (due v d)) ds)"
      using "1.IH"[OF pop refl t(5)] by blast
    have dn: "d \<notin> set ds" using ds(5) t(4) by auto
    have eq: "map (\<lambda>d. the (due v d)) ds = map (\<lambda>d. the (due w d)) ds" using dn t(4) by auto
    have "(due v) |` {d. \<exists>t. due v d = Some t \<and> now < t} = (due w) |` {d. \<exists>t. due w d = Some t \<and> now < t}"
      using t(1,2,4) by (intro ext) (auto simp: restrict_map_def)
    moreover have "set (d # ds) = {d. \<exists>t. due w d = Some t \<and> t \<le> now}" using t(1,2) by (auto simp: ds(5) t(4) split: if_splits)
    moreover have "\<forall>e\<in>set ds. t \<le> the (due w e)" using t(3) by (auto simp: ds(5) t(4) split: if_splits)
    ultimately show ?thesis unfolding run using ds dn t(1) eq
      by (intro exI[of _ "d # ds"]) (simp add: Queue_Add_all_def)
  qed
qed

section \<open>Delayed and rate-limited additions\<close>

text \<open>
  \<open>AddAfter\<close> runs with the time that the clock shows, and has no result when the channel is full: the
  caller blocks until the waiting loop has received an entry. The channel \<open>stopCh\<close> is closed after
  the work queue has been told to shut down, so that the select is only reached while it is open.
\<close>

record 't delayingType =
  dq_Interface :: "'t Type"
  dq_stopCh_closed :: bool
  dq_waitingForAddCh :: "'t waitFor list"

definition newDelayingQueue :: "'t delayingType" where
  "newDelayingQueue = \<lparr>dq_Interface = newQueue, dq_stopCh_closed = False, dq_waitingForAddCh = []\<rparr>"

definition Delaying_ShutDown :: "'t delayingType \<Rightarrow> wake \<times> 't delayingType" where
  "Delaying_ShutDown q =
     (if dq_stopCh_closed q then (No_wake, q)
      else (let (k, i) = Queue_ShutDown (dq_Interface q) in (k, q\<lparr>dq_Interface := i, dq_stopCh_closed := True\<rparr>)))"

definition Delaying_Add :: "'t \<Rightarrow> 't delayingType \<Rightarrow> wake \<times> 't delayingType" where
  "Delaying_Add item q = (let (k, i) = Queue_Add item (dq_Interface q) in (k, q\<lparr>dq_Interface := i\<rparr>))"

definition Delaying_AddAfter :: "'t \<Rightarrow> int \<Rightarrow> int \<Rightarrow> 't delayingType \<Rightarrow> (wake \<times> 't delayingType) option" where
  "Delaying_AddAfter item duration now q =
     (if Queue_ShuttingDown (dq_Interface q) then Some (No_wake, q)
      else if duration \<le> 0 then Some (Delaying_Add item q)
      else if length (dq_waitingForAddCh q) < 1000 then
        Some (No_wake, q\<lparr>dq_waitingForAddCh := dq_waitingForAddCh q @
          [\<lparr>wf_data = item, wf_readyAt = now + duration, wf_index = 0\<rparr>]\<rparr>)
      else None)"

text \<open>
  The rate limiter that a controller gets by default is the larger one of an exponential back-off per
  item and the delay of a token bucket for all items; the bucket is \<open>golang.org/x/time/rate\<close>, and
  its answer is an argument. The back-off is computed in floating point, exactly for a base delay
  below \<open>2 ^ 53\<close>; \<open>MaxInt64\<close> is \<open>2 ^ 63\<close> there.
\<close>

definition failures_of :: "('t \<rightharpoonup> nat) \<Rightarrow> 't \<Rightarrow> nat" where
  "failures_of failures item = (case failures item of None \<Rightarrow> 0 | Some n \<Rightarrow> n)"

definition ItemExponential_When :: "int \<Rightarrow> int \<Rightarrow> 't \<Rightarrow> ('t \<rightharpoonup> nat) \<Rightarrow> int \<times> ('t \<rightharpoonup> nat)" where
  "ItemExponential_When baseDelay maxDelay item failures =
     (let exp = failures_of failures item;
          failures = failures(item \<mapsto> failures_of failures item + 1);
          backoff = baseDelay * 2 ^ exp in
      if backoff > 2 ^ 63 then (maxDelay, failures)
      else if backoff > maxDelay then (maxDelay, failures)
      else (backoff, failures))"

definition ItemExponential_Forget :: "'t \<Rightarrow> ('t \<rightharpoonup> nat) \<Rightarrow> ('t \<rightharpoonup> nat)" where
  "ItemExponential_Forget item failures = failures(item := None)"

definition MaxOf_When :: "int list \<Rightarrow> int" where
  "MaxOf_When delays = fold (\<lambda>curr r. if curr > r then curr else r) delays 0"

definition millisecond :: int where
  "millisecond = 1000000"

definition DefaultController_When :: "'t \<Rightarrow> int \<Rightarrow> ('t \<rightharpoonup> nat) \<Rightarrow> int \<times> ('t \<rightharpoonup> nat)" where
  "DefaultController_When item bucket failures =
     (let (d, failures) = ItemExponential_When (5 * millisecond) (1000 * 1000 * millisecond) item failures in
      (MaxOf_When [d, bucket], failures))"

record 't rateLimitingType =
  rl_DelayingInterface :: "'t delayingType"
  rl_failures :: "'t \<rightharpoonup> nat"

definition NewRateLimitingQueue :: "'t rateLimitingType" where
  "NewRateLimitingQueue = \<lparr>rl_DelayingInterface = newDelayingQueue, rl_failures = Map.empty\<rparr>"

definition RateLimiting_AddAfter :: "'t \<Rightarrow> int \<Rightarrow> int \<Rightarrow> 't rateLimitingType \<Rightarrow> (wake \<times> 't rateLimitingType) option" where
  "RateLimiting_AddAfter item duration now q =
     map_option (\<lambda>(k, d). (k, q\<lparr>rl_DelayingInterface := d\<rparr>))
       (Delaying_AddAfter item duration now (rl_DelayingInterface q))"

definition RateLimiting_AddRateLimited :: "'t \<Rightarrow> int \<Rightarrow> int \<Rightarrow> 't rateLimitingType \<Rightarrow> (wake \<times> 't rateLimitingType) option" where
  "RateLimiting_AddRateLimited item bucket now q =
     (let (duration, failures) = DefaultController_When item bucket (rl_failures q) in
      RateLimiting_AddAfter item duration now (q\<lparr>rl_failures := failures\<rparr>))"

definition RateLimiting_Forget :: "'t \<Rightarrow> 't rateLimitingType \<Rightarrow> 't rateLimitingType" where
  "RateLimiting_Forget item q = q\<lparr>rl_failures := ItemExponential_Forget item (rl_failures q)\<rparr>"

definition RateLimiting_NumRequeues :: "'t \<Rightarrow> 't rateLimitingType \<Rightarrow> nat" where
  "RateLimiting_NumRequeues item q = failures_of (rl_failures q) item"

lemma backoff_value:
  "fst (ItemExponential_When base mx item fs) = (if base * 2 ^ failures_of fs item > 2 ^ 63 then mx
     else min (base * 2 ^ failures_of fs item) mx)"
  "snd (ItemExponential_When base mx item fs) = fs(item \<mapsto> failures_of fs item + 1)"
  by (auto simp: ItemExponential_When_def Let_def)

lemma default_When_value:
  "fst (DefaultController_When item bucket fs) =
     max bucket (min (5 * millisecond * 2 ^ failures_of fs item) (1000 * 1000 * millisecond))"
  "snd (DefaultController_When item bucket fs) = fs(item \<mapsto> failures_of fs item + 1)"
proof -
  let ?b = "5 * millisecond * 2 ^ failures_of fs item :: int" and ?m = "1000 * 1000 * millisecond :: int"
  have pos: "0 < ?b" by (simp add: millisecond_def)
  have m: "0 < ?m" "?m \<le> 2 ^ 63" by (simp_all add: millisecond_def)
  have d: "fst (ItemExponential_When (5 * millisecond) ?m item fs) = min ?b ?m"
    using m unfolding backoff_value by auto
  have "MaxOf_When [min ?b ?m, bucket] = max bucket (min ?b ?m)" using pos m by (auto simp: MaxOf_When_def)
  then show "fst (DefaultController_When item bucket fs) = max bucket (min ?b ?m)"
    using d by (simp add: DefaultController_When_def Let_def case_prod_beta)
  show "snd (DefaultController_When item bucket fs) = fs(item \<mapsto> failures_of fs item + 1)"
    by (simp add: DefaultController_When_def Let_def case_prod_beta backoff_value)
qed

section \<open>Properties\<close>

text \<open>
  C21: the heap of the waiting loop is a map from items to due times. Receiving an entry keeps the heap
  and its index map in order and leaves every other item alone, and for the item of the entry the
  earlier one of the two times is kept. A round of the loop takes out exactly the items that are due,
  each once and in the order of their times, adds them to the work queue, and keeps the rest with
  their times.
\<close>

theorem waiting_loop_refines:
  assumes "waiting_inv w"
  shows "waiting_inv (insert_entry entry w) \<and>
    due (insert_entry entry w) = (due w)(wf_data entry \<mapsto> sooner (due w (wf_data entry)) (wf_readyAt entry)) \<and>
    (\<exists>ds w'. add_ready now w q = (w', Queue_Add_all ds q) \<and> waiting_inv w' \<and>
       due w' = (due w) |` {d. \<exists>t. due w d = Some t \<and> now < t} \<and>
       distinct ds \<and> set ds = {d. \<exists>t. due w d = Some t \<and> t \<le> now} \<and> sorted (map (\<lambda>d. the (due w d)) ds))"
  using insert_entry_correct[OF assms, of entry] add_ready_correct[OF assms, of now q] by blast

definition example_entry :: "string \<Rightarrow> int \<Rightarrow> string waitFor" where
  "example_entry d t = \<lparr>wf_data = d, wf_readyAt = t, wf_index = 0\<rparr>"

theorem waiting_loop_refines_witness:
  "\<exists>ds w'. add_ready 7 (insert_entry (example_entry ''b'' 5) no_waiting) newQueue = (w', Queue_Add_all ds newQueue) \<and> set ds = {''b''}"
proof -
  have inv: "waiting_inv (insert_entry (example_entry ''b'' 5) no_waiting)"
    using waiting_loop_refines[OF no_waiting_inv(1)] by blast
  have "due (insert_entry (example_entry ''b'' 5) no_waiting) = [''b'' \<mapsto> 5]"
    using insert_entry_correct(2)[OF no_waiting_inv(1), of "example_entry ''b'' 5"]
    by (simp add: no_waiting_inv(2) example_entry_def sooner_def)
  then have "{d. \<exists>t. due (insert_entry (example_entry ''b'' 5) no_waiting) d = Some t \<and> t \<le> 7} = {''b''}"
    by (auto split: if_splits)
  with waiting_loop_refines[OF inv, of "example_entry ''b'' 5" 7 newQueue] show ?thesis by auto
qed

text \<open>
  C22: the delay before a failed request is tried again. With \<open>n\<close> failures since it was last forgotten it
  is five milliseconds times \<open>2 ^ n\<close> but at most a thousand seconds, or the delay of the token bucket
  where that is longer; so a request that fails for ever is still tried again, at least every thousand
  seconds when the bucket is not exhausted, never at once, and one success sets it back to five
  milliseconds.
\<close>

theorem retry_delay_bounds:
  assumes "0 \<le> bucket" "bucket \<le> 1000 * 1000 * millisecond"
  shows "fst (DefaultController_When item bucket fs) =
      max bucket (min (5 * millisecond * 2 ^ failures_of fs item) (1000 * 1000 * millisecond)) \<and>
    5 * millisecond \<le> fst (DefaultController_When item bucket fs) \<and>
    fst (DefaultController_When item bucket fs) \<le> 1000 * 1000 * millisecond \<and>
    failures_of (snd (DefaultController_When item bucket fs)) item = failures_of fs item + 1 \<and>
    fst (DefaultController_When item 0 (ItemExponential_Forget item fs)) = 5 * millisecond"
proof -
  have "failures_of (ItemExponential_Forget item fs) item = 0"
    by (simp add: failures_of_def ItemExponential_Forget_def)
  moreover have "failures_of (fs(item \<mapsto> n)) item = n" for n by (simp add: failures_of_def)
  ultimately show ?thesis
    using assms unfolding default_When_value by (simp add: millisecond_def le_max_iff_disj)
qed

theorem retry_delay_bounds_witness:
  "fst (DefaultController_When ''a'' 0 [''a'' \<mapsto> 3]) = 40 * millisecond \<and>
   fst (DefaultController_When ''a'' 0 (ItemExponential_Forget ''a'' [''a'' \<mapsto> 3])) = 5 * millisecond"
  using retry_delay_bounds[of 0 "''a''" "[''a'' \<mapsto> 3]"] by (simp add: millisecond_def failures_of_def)

end
