(* ===== verification/Controller_Runtime.thy ===== *)
theory Controller_Runtime
  imports Reconciler_Base Delaying_Queue
begin

text \<open>
  A controller of the runtime (\<open>controller-runtime\<close>: \<open>internal/controller/controller.go\<close>,
  \<open>handler/enqueue.go\<close>, \<open>source/internal/eventsource.go\<close>): its workers, which take requests from the
  queue, reconcile them and put them back or forget them, beside the event handlers that add requests
  and the waiting loop. Every goroutine is a sequence of steps, and the steps of all of them
  interleave; a step is one locked section of the queue or one call of the reconciler. A goroutine
  that waits on the condition variable sleeps until a signal wakes it, and then evaluates its loop
  condition again.
\<close>

section \<open>Events\<close>

text \<open>
  \<open>EnqueueRequestForObject\<close>, behind the predicate that every controller of the operator installs.
  An object that is not there is \<open>None\<close>; the result is the list of the requests that are added.
\<close>

definition Request_of :: "'spec cr \<Rightarrow> NamespacedName" where
  "Request_of obj = \<lparr>nn_Namespace = om_Namespace (cr_Meta obj), nn_Name = om_Name (cr_Meta obj)\<rparr>"

definition Enqueue_Create :: "'spec cr option \<Rightarrow> NamespacedName list" where
  "Enqueue_Create obj = (case obj of None \<Rightarrow> [] | Some x \<Rightarrow> [Request_of x])"

definition Enqueue_Update :: "'spec cr option \<Rightarrow> 'spec cr option \<Rightarrow> NamespacedName list" where
  "Enqueue_Update objectOld objectNew =
     (case objectOld of None \<Rightarrow> [] | Some x \<Rightarrow> [Request_of x]) @
     (case objectNew of None \<Rightarrow> [] | Some x \<Rightarrow> [Request_of x])"

definition Enqueue_Delete :: "'spec cr option \<Rightarrow> NamespacedName list" where
  "Enqueue_Delete obj = (case obj of None \<Rightarrow> [] | Some x \<Rightarrow> [Request_of x])"

text \<open>The handlers of the source: predicates first, then the event handler. Only updates are filtered.\<close>

definition OnAdd :: "'spec cr option \<Rightarrow> NamespacedName list" where
  "OnAdd obj = (case obj of None \<Rightarrow> [] | Some x \<Rightarrow> Enqueue_Create (Some x))"

definition OnUpdate :: "'spec cr option \<Rightarrow> 'spec cr option \<Rightarrow> NamespacedName list" where
  "OnUpdate oldObj newObj = (case oldObj of None \<Rightarrow> [] | Some x \<Rightarrow> (case newObj of None \<Rightarrow> [] | Some y \<Rightarrow>
     if \<not> ResourceChanged_Update (Some x) (Some y) then [] else Enqueue_Update (Some x) (Some y)))"

text \<open>A deletion that the cache missed comes as a tombstone with the last object that it knew.\<close>

datatype 'spec deleted = Deleted "'spec cr" | DeletedFinalStateUnknown "'spec cr option" | Not_an_object

definition OnDelete :: "'spec deleted \<Rightarrow> NamespacedName list" where
  "OnDelete obj = (case obj of
     Deleted x \<Rightarrow> Enqueue_Delete (Some x)
   | DeletedFinalStateUnknown tombstone \<Rightarrow> (case tombstone of None \<Rightarrow> [] | Some x \<Rightarrow> Enqueue_Delete (Some x))
   | Not_an_object \<Rightarrow> [])"

text \<open>
  An update of the status does not come back to the queue, and an update that does is queued once,
  although the handler adds the request for the old and for the new object.
\<close>

lemma OnUpdate_status: "OnUpdate (Some obj) (Some (obj\<lparr>cr_RPCStatus := st\<rparr>)) = []"
  by (simp add: OnUpdate_def ResourceChanged_Update_def)

lemma OnUpdate_once:
  assumes "Request_of old = Request_of new"
  shows "Queue_Add_all (OnUpdate (Some old) (Some new)) q =
    (if ResourceChanged_Update (Some old) (Some new) then snd (Queue_Add (Request_of new) q) else q)"
  using assms by (simp add: OnUpdate_def Enqueue_Update_def Queue_Add_all_def Queue_Add_def Let_def)

section \<open>The workers\<close>

text \<open>
  A worker is about to call \<open>Get\<close>, asleep inside it, reconciling an item, past \<open>reconcileHandler\<close>
  with \<open>Done\<close> still to be called, or it has been told to stop.
\<close>

datatype 't worker = Ready | Asleep | Working 't | Handled 't | Exited

record 't Controller =
  ct_Queue :: "'t rateLimitingType"
  ct_waiting :: "'t waiting"
  ct_workers :: "'t worker list"
  ct_now :: int

text \<open>
  \<open>Start\<close> makes the queue and launches the workers. The controllers of the operator leave the number
  of workers to its default, which is one; the theorems hold for any number.
\<close>

definition Controller_Start :: "nat \<Rightarrow> int \<Rightarrow> 't Controller" where
  "Controller_Start MaxConcurrentReconciles now =
     \<lparr>ct_Queue = NewRateLimitingQueue, ct_waiting = no_waiting,
      ct_workers = replicate MaxConcurrentReconciles Ready, ct_now = now\<rparr>"

text \<open>
  What \<open>reconcileHandler\<close> does with the queue when the reconciler has returned: the item is rate
  limited, forgotten and delayed, or forgotten. The delay of the token bucket is an argument. The
  items are requests by their type, so that the branch for other items is not there.
\<close>

definition handle_result ::
    "'t \<Rightarrow> Result \<times> gerror option \<Rightarrow> int \<Rightarrow> int \<Rightarrow> 't rateLimitingType \<Rightarrow> (wake \<times> 't rateLimitingType) option" where
  "handle_result req r bucket now q = (case reconcileHandler r of
     AddRateLimited \<Rightarrow> RateLimiting_AddRateLimited req bucket now q
   | AddAfter d \<Rightarrow> RateLimiting_AddAfter req d now (RateLimiting_Forget req q)
   | Forget \<Rightarrow> Some (No_wake, RateLimiting_Forget req q))"

abbreviation base_queue :: "'t Controller \<Rightarrow> 't Type" where
  "base_queue c \<equiv> dq_Interface (rl_DelayingInterface (ct_Queue c))"

abbreviation channel :: "'t Controller \<Rightarrow> 't waitFor list" where
  "channel c \<equiv> dq_waitingForAddCh (rl_DelayingInterface (ct_Queue c))"

definition set_base :: "'t Type \<Rightarrow> 't Controller \<Rightarrow> 't Controller" where
  "set_base q c = c\<lparr>ct_Queue := (ct_Queue c)\<lparr>rl_DelayingInterface :=
     (rl_DelayingInterface (ct_Queue c))\<lparr>dq_Interface := q\<rparr>\<rparr>\<rparr>"

definition set_channel :: "'t waitFor list \<Rightarrow> 't Controller \<Rightarrow> 't Controller" where
  "set_channel ch c = c\<lparr>ct_Queue := (ct_Queue c)\<lparr>rl_DelayingInterface :=
     (rl_DelayingInterface (ct_Queue c))\<lparr>dq_waitingForAddCh := ch\<rparr>\<rparr>\<rparr>"

text \<open>A signal wakes one sleeping goroutine if there is one, and does not say which.\<close>

fun wakes :: "wake \<Rightarrow> 't worker list \<Rightarrow> 't worker list \<Rightarrow> bool" where
  "wakes No_wake ws ws' \<longleftrightarrow> ws' = ws"
| "wakes Broadcast ws ws' \<longleftrightarrow> ws' = map (\<lambda>w. case w of Asleep \<Rightarrow> Ready | _ \<Rightarrow> w) ws"
| "wakes Signal ws ws' \<longleftrightarrow>
     (if Asleep \<in> set ws then \<exists>i<length ws. ws ! i = Asleep \<and> ws' = ws[i := Ready] else ws' = ws)"

text \<open>The worker's next state after \<open>Get\<close>.\<close>

fun after_get :: "'t got \<Rightarrow> 't worker" where
  "after_get (Item x) = Working x"
| "after_get Wait = Asleep"
| "after_get Shutdown = Exited"

text \<open>
  What the reconciler returns is a parameter: \<open>rets x r\<close> says that a reconciliation of \<open>x\<close> may return
  \<open>r\<close>. A reconciliation of a request for which no result is possible never returns.
\<close>

inductive ctl_step :: "('t \<Rightarrow> Result \<times> gerror option \<Rightarrow> bool) \<Rightarrow> 't Controller \<Rightarrow> 't Controller \<Rightarrow> bool" for rets where
  event: "Queue_Add x (base_queue c) = (k, q) \<Longrightarrow> wakes k (ct_workers c) ws \<Longrightarrow>
    ctl_step rets c ((set_base q c)\<lparr>ct_workers := ws\<rparr>)"
| gets: "i < length (ct_workers c) \<Longrightarrow> ct_workers c ! i = Ready \<Longrightarrow> Queue_Get (base_queue c) = (g, q) \<Longrightarrow>
    ctl_step rets c ((set_base q c)\<lparr>ct_workers := (ct_workers c)[i := after_get g]\<rparr>)"
| handles: "i < length (ct_workers c) \<Longrightarrow> ct_workers c ! i = Working x \<Longrightarrow> rets x r \<Longrightarrow>
    handle_result x r bucket (ct_now c) (ct_Queue c) = Some (k, Q) \<Longrightarrow> wakes k ((ct_workers c)[i := Handled x]) ws \<Longrightarrow>
    ctl_step rets c (c\<lparr>ct_Queue := Q, ct_workers := ws\<rparr>)"
| finishes: "i < length (ct_workers c) \<Longrightarrow> ct_workers c ! i = Handled x \<Longrightarrow>
    Queue_Done x (base_queue c) = (k, q) \<Longrightarrow> wakes k ((ct_workers c)[i := Ready]) ws \<Longrightarrow>
    ctl_step rets c ((set_base q c)\<lparr>ct_workers := ws\<rparr>)"
| falls_due: "pop_ready (ct_now c) (ct_waiting c) = Some (d, w) \<Longrightarrow> Queue_Add d (base_queue c) = (k, q) \<Longrightarrow>
    wakes k (ct_workers c) ws \<Longrightarrow>
    ctl_step rets c ((set_base q c)\<lparr>ct_waiting := w, ct_workers := ws\<rparr>)"
| receives: "channel c = e # es \<Longrightarrow> receive_entry (ct_now c) e (ct_waiting c) (base_queue c) = (k, w, q) \<Longrightarrow>
    wakes k (ct_workers c) ws \<Longrightarrow>
    ctl_step rets c ((set_channel es (set_base q c))\<lparr>ct_waiting := w, ct_workers := ws\<rparr>)"
| ticks: "ct_now c \<le> t \<Longrightarrow> ctl_step rets c (c\<lparr>ct_now := t\<rparr>)"
| stops: "Delaying_ShutDown (rl_DelayingInterface (ct_Queue c)) = (k, d) \<Longrightarrow> wakes k (ct_workers c) ws \<Longrightarrow>
    ctl_step rets c (c\<lparr>ct_Queue := (ct_Queue c)\<lparr>rl_DelayingInterface := d\<rparr>, ct_workers := ws\<rparr>)"

inductive_cases ctl_stepE [consumes 1, case_names event gets handles finishes falls_due receives ticks stops]: "ctl_step rets c d"

inductive ctl_reachable :: "('t \<Rightarrow> Result \<times> gerror option \<Rightarrow> bool) \<Rightarrow> nat \<Rightarrow> 't Controller \<Rightarrow> bool" for rets n where
  starts: "ctl_reachable rets n (Controller_Start n t)"
| moves: "ctl_reachable rets n c \<Longrightarrow> ctl_step rets c d \<Longrightarrow> ctl_reachable rets n d"

section \<open>The invariant\<close>

fun holds :: "'t worker \<Rightarrow> 't option" where
  "holds (Working x) = Some x"
| "holds (Handled x) = Some x"
| "holds _ = None"

text \<open>Every item that is being processed is held by exactly one worker.\<close>

definition workers_own :: "'t set \<Rightarrow> 't option list \<Rightarrow> bool" where
  "workers_own P hs \<longleftrightarrow> (\<forall>x. count (mset hs) (Some x) = of_bool (x \<in> P))"

text \<open>
  No wake-up is lost: while a worker sleeps, there are at least as many workers about to call \<open>Get\<close> as
  there are queued items, and the queue is not shutting down; workers stop only when it is, and the
  last one to stop has found the queue empty.
\<close>

definition ready_count :: "'t worker list \<Rightarrow> nat" where
  "ready_count ws = length (filter (\<lambda>w. w = Ready) ws)"

definition workers_awake :: "'t Type \<Rightarrow> 't worker list \<Rightarrow> bool" where
  "workers_awake q ws \<longleftrightarrow>
     (Asleep \<in> set ws \<longrightarrow> length (wq_queue q) \<le> ready_count ws \<and> \<not> wq_shuttingDown q) \<and>
     (Exited \<in> set ws \<longrightarrow> wq_shuttingDown q) \<and>
     (set ws \<subseteq> {Exited} \<longrightarrow> ws \<noteq> [] \<longrightarrow> wq_queue q = [])"

definition ctl_inv :: "'t Controller \<Rightarrow> bool" where
  "ctl_inv c \<longleftrightarrow> queue_inv (base_queue c) \<and> waiting_inv (ct_waiting c) \<and>
     workers_own (wq_processing (base_queue c)) (map holds (ct_workers c)) \<and> workers_awake (base_queue c) (ct_workers c)"

lemma ready_count_update:
  "i < length ws \<Longrightarrow> ready_count (ws[i := w]) + of_bool (ws ! i = Ready) = ready_count ws + of_bool (w = Ready)"
proof (induction ws arbitrary: i)
  case (Cons v ws)
  then show ?case by (cases i) (auto simp: ready_count_def)
qed simp

lemma own_take:
  "workers_own P hs \<Longrightarrow> i < length hs \<Longrightarrow> hs ! i = None \<Longrightarrow> x \<notin> P \<Longrightarrow> workers_own (insert x P) (hs[i := Some x])"
  by (auto simp: workers_own_def mset_update)

lemma own_finish:
  "workers_own P hs \<Longrightarrow> i < length hs \<Longrightarrow> hs ! i = Some x \<Longrightarrow> workers_own (P - {x}) (hs[i := None])"
  by (auto simp: workers_own_def mset_update)

lemma own_held:
  assumes "workers_own P hs"
  shows "x \<in> P \<longleftrightarrow> Some x \<in> set hs"
  using assms count_greater_zero_iff[of "mset hs" "Some x"] by (auto simp: workers_own_def)

lemma own_held_nth:
  assumes "workers_own P (map holds ws)"
  shows "x \<in> P \<longleftrightarrow> (\<exists>i<length ws. holds (ws ! i) = Some x)"
  unfolding own_held[OF assms] in_set_conv_nth by auto

lemma own_exclusive:
  assumes "workers_own P hs" "i < length hs" "j < length hs" "hs ! i = Some x" "hs ! j = Some x"
  shows "i = j"
proof (rule ccontr)
  assume "i \<noteq> j"
  then have "hs[i := None] ! j = Some x" using assms(5) by simp
  then have "Some x \<in> set (hs[i := None])" using assms(3) by (metis length_list_update nth_mem)
  then show False using own_held[OF own_finish[OF assms(1,2,4)], of x] by simp
qed

lemma wakes_holds: "wakes k ws ws' \<Longrightarrow> map holds ws' = map holds ws"
proof (cases k)
  case Signal
  assume "wakes k ws ws'"
  then show ?thesis using Signal by (auto simp: map_update list_update_same_conv split: if_splits)
next
  case Broadcast
  assume "wakes k ws ws'"
  then show ?thesis using Broadcast by (auto split: worker.split)
qed simp

lemma wakes_exist: "\<exists>ws'. wakes k ws ws'"
  by (cases k) (auto simp: in_set_conv_nth)

lemma awake_same:
  "workers_awake q ws \<Longrightarrow> wq_queue q' = wq_queue q \<Longrightarrow> wq_shuttingDown q' = wq_shuttingDown q \<Longrightarrow> workers_awake q' ws"
  by (simp add: workers_awake_def)

text \<open>An item is appended and the signal is given.\<close>

lemma awake_signal:
  assumes "workers_awake q ws" "length (wq_queue q') = Suc (length (wq_queue q))"
    "wq_shuttingDown q' = wq_shuttingDown q" "\<not> wq_shuttingDown q \<or> Ready \<in> set ws" "wakes Signal ws ws'"
  shows "workers_awake q' ws'"
proof (cases "Asleep \<in> set ws")
  case True
  then obtain i where i: "i < length ws" "ws ! i = Asleep" and ws': "ws' = ws[i := Ready]" using assms(5) by auto
  have "ready_count ws' = Suc (ready_count ws)" using ready_count_update[OF i(1), of Ready] i(2) ws' by simp
  moreover have "Ready \<in> set ws'" using ws' i(1) by (simp add: set_update_memI)
  moreover have "Exited \<notin> set ws'" using assms(1) True ws' set_update_subset_insert[of ws i Ready]
    by (auto simp: workers_awake_def)
  ultimately show ?thesis using assms(1,2,3) True by (auto simp: workers_awake_def)
next
  case False
  then have ws': "ws' = ws" using assms(5) by simp
  have "\<not> (set ws \<subseteq> {Exited} \<and> ws \<noteq> [])" using assms(1,4) by (cases ws) (auto simp: workers_awake_def)
  then show ?thesis using assms(1,3) False ws' by (auto simp: workers_awake_def)
qed

text \<open>\<open>Add\<close>, whoever calls it.\<close>

lemma add_step:
  assumes "queue_inv q" "workers_own (wq_processing q) (map holds ws)" "workers_awake q ws"
    "Queue_Add x q = (k, q')" "wakes k ws ws'"
  shows "queue_inv q' \<and> workers_own (wq_processing q') (map holds ws') \<and> workers_awake q' ws'"
proof -
  have q': "q' = snd (Queue_Add x q)" using assms(4) by simp
  have "workers_awake q' ws'"
  proof (cases "k = Signal")
    case True
    then have "\<not> wq_shuttingDown q" "wq_queue q' = wq_queue q @ [x]" "wq_shuttingDown q' = wq_shuttingDown q"
      using assms(4) by (auto simp: Queue_Add_def Let_def split: if_splits)
    then show ?thesis using awake_signal[OF assms(3)] assms(5) True by auto
  next
    case False
    then have "k = No_wake" "wq_queue q' = wq_queue q" "wq_shuttingDown q' = wq_shuttingDown q"
      using assms(4) by (auto simp: Queue_Add_def Let_def split: if_splits)
    then show ?thesis using awake_same[OF assms(3)] assms(5) by simp
  qed
  then show ?thesis
    using assms(1,2) wakes_holds[OF assms(5)] wq.add_invar[OF assms(1), of x] by (simp add: q' wq.add_active)
qed

lemma awake_change:
  assumes "workers_awake q ws" "i < length ws" "ws ! i \<noteq> Ready" "w \<noteq> Asleep" "w \<noteq> Exited"
  shows "workers_awake q (ws[i := w])"
proof -
  have "set (ws[i := w]) \<subseteq> insert w (set ws)" by (rule set_update_subset_insert)
  moreover have "w \<in> set (ws[i := w])" using assms(2) by (simp add: set_update_memI)
  moreover have "ready_count ws \<le> ready_count (ws[i := w])" using ready_count_update[OF assms(2), of w] assms(3) by simp
  ultimately show ?thesis using assms(1,4,5) unfolding workers_awake_def by fastforce
qed

lemma get_step:
  assumes "queue_inv q" "workers_own (wq_processing q) (map holds ws)" "workers_awake q ws"
    "i < length ws" "ws ! i = Ready" "Queue_Get q = (g, q')"
  defines "ws' \<equiv> ws[i := after_get g]"
  shows "queue_inv q' \<and> workers_own (wq_processing q') (map holds ws') \<and> workers_awake q' ws'"
proof (cases "\<exists>x. g = Item x")
  case True
  then obtain x where g: "g = Item x" by blast
  note qx = assms(6)[unfolded g]
  have i: "wq_queue q = x # wq_queue q'" using qx by (auto simp: Queue_Get_Item)
  have "ready_count ws = Suc (ready_count ws')" using ready_count_update[OF assms(4), of "Working x"] assms(5) g by (simp add: ws'_def)
  moreover have "set ws' \<subseteq> insert (Working x) (set ws)" "Working x \<in> set ws'"
    using set_update_subset_insert[of ws i "Working x"] assms(4) by (auto simp: ws'_def g set_update_memI)
  moreover have "wq_shuttingDown q' = wq_shuttingDown q" using wq.get_item[OF assms(1) qx] by simp
  ultimately have "workers_awake q' ws'" using assms(3) i unfolding workers_awake_def by fastforce
  moreover have "workers_own (wq_processing q') (map holds ws')"
    using own_take[OF assms(2), of i x] assms(4,5) wq.get_item[OF assms(1) qx] by (simp add: ws'_def g map_update)
  ultimately show ?thesis using wq.get_invar[OF assms(1)] assms(6) by simp
next
  case False
  then have gw: "g \<in> {Wait, Shutdown}" by (cases g) auto
  have q': "q' = q" and down: "wq_shuttingDown q = (g = Shutdown)" and e: "wq_queue q = []"
    using wq.get_none[OF assms(1,6) gw] assms(6) gw by auto
  have "set ws' \<subseteq> insert (after_get g) (set ws)" using set_update_subset_insert[of ws i] by (simp add: ws'_def)
  moreover have "after_get g \<noteq> Ready" "holds (after_get g) = None" using gw by auto
  moreover have "(map holds ws)[i := None] = map holds ws" using assms(4,5) by (simp add: list_update_same_conv)
  then have "workers_own (wq_processing q) (map holds ws')" using assms(2) gw by (auto simp: ws'_def map_update)
  ultimately show ?thesis using assms(1,3) e gw down unfolding q' workers_awake_def by auto
qed

lemma done_step:
  assumes "queue_inv q" "workers_own (wq_processing q) (map holds ws)" "workers_awake q ws"
    "i < length ws" "ws ! i = Handled x" "Queue_Done x q = (k, q')" "wakes k (ws[i := Ready]) ws'"
  shows "queue_inv q' \<and> workers_own (wq_processing q') (map holds ws') \<and> workers_awake q' ws'"
proof -
  have q': "q' = snd (Queue_Done x q)" using assms(6) by simp
  have aw: "workers_awake q (ws[i := Ready])" using awake_change[OF assms(3,4)] assms(5) by simp
  have x: "x \<in> wq_processing q"
    using own_held[OF assms(2), of x] assms(4,5) by (metis holds.simps(2) length_map nth_map nth_mem)
  have "workers_own (wq_processing q') (map holds ws')"
    using own_finish[OF assms(2), of i x] assms(4,5) wakes_holds[OF assms(7)] by (simp add: q' wq.finish_active map_update)
  moreover have "workers_awake q' ws'"
  proof (cases "k = Signal")
    case True
    then have "wq_queue q' = wq_queue q @ [x]" using assms(6) by (auto simp: Queue_Done_def Let_def split: if_splits)
    then show ?thesis
      using awake_signal[OF aw] assms(4,7) True by (simp add: q' wq.finish_down set_update_memI)
  next
    case False
    then have "k = No_wake" "wq_queue q' = wq_queue q" using assms(6) by (auto simp: Queue_Done_def Let_def split: if_splits)
    then show ?thesis using awake_same[OF aw] assms(7) by (simp add: q' wq.finish_down)
  qed
  ultimately show ?thesis using wq.finish_invar[OF assms(1) x] by (simp add: q')
qed

text \<open>What the handler can do to the queue: add the item at once, send an entry to the waiting loop, or nothing.\<close>

lemma AddAfter_cases:
  assumes "RateLimiting_AddAfter x d now Q = Some (k, Q')"
  obtains (down) "wq_shuttingDown (dq_Interface (rl_DelayingInterface Q))" "k = No_wake" "Q' = Q"
  | (added) q where "Queue_Add x (dq_Interface (rl_DelayingInterface Q)) = (k, q)"
      "Q' = Q\<lparr>rl_DelayingInterface := (rl_DelayingInterface Q)\<lparr>dq_Interface := q\<rparr>\<rparr>"
  | (sent) "0 < d" "k = No_wake" "Q' = Q\<lparr>rl_DelayingInterface := (rl_DelayingInterface Q)\<lparr>dq_waitingForAddCh :=
      dq_waitingForAddCh (rl_DelayingInterface Q) @ [\<lparr>wf_data = x, wf_readyAt = now + d, wf_index = 0\<rparr>]\<rparr>\<rparr>"
proof -
  let ?D = "rl_DelayingInterface Q"
  obtain D where D: "Delaying_AddAfter x d now ?D = Some (k, D)" and Q': "Q' = Q\<lparr>rl_DelayingInterface := D\<rparr>"
    using assms by (auto simp: RateLimiting_AddAfter_def)
  obtain k1 q where add: "Queue_Add x (dq_Interface ?D) = (k1, q)" by fastforce
  consider "wq_shuttingDown (dq_Interface ?D)" | "\<not> wq_shuttingDown (dq_Interface ?D)" "d \<le> 0"
    | "\<not> wq_shuttingDown (dq_Interface ?D)" "0 < d" by linarith
  then show ?thesis
  proof cases
    case 1
    then show ?thesis using D Q' down by (simp add: Delaying_AddAfter_def Queue_ShuttingDown_def)
  next
    case 2
    then show ?thesis using D Q' add added by (simp add: Delaying_AddAfter_def Queue_ShuttingDown_def Delaying_Add_def)
  next
    case 3
    then show ?thesis using D Q' sent by (simp add: Delaying_AddAfter_def Queue_ShuttingDown_def split: if_splits)
  qed
qed

lemma handle_result_cases:
  assumes "handle_result x r bucket now Q = Some (k, Q')"
  obtains (forgot) "reconcileHandler r = Forget" "k = No_wake" "Q' = RateLimiting_Forget x Q"
  | (again) fs d where "reconcileHandler r \<noteq> Forget" "RateLimiting_AddAfter x d now (Q\<lparr>rl_failures := fs\<rparr>) = Some (k, Q')"
proof (cases "reconcileHandler r")
  case AddRateLimited
  then show ?thesis using assms that(2)
    by (auto simp: handle_result_def RateLimiting_AddRateLimited_def Let_def split: prod.splits)
next
  case (AddAfter d)
  then show ?thesis using assms that(2)[of d "ItemExponential_Forget x (rl_failures Q)"]
    by (simp add: handle_result_def RateLimiting_Forget_def)
next
  case Forget
  then show ?thesis using assms that(1) by (auto simp: handle_result_def)
qed

lemma set_sel [simp]:
  "base_queue (set_base q c) = q" "channel (set_base q c) = channel c" "ct_workers (set_base q c) = ct_workers c"
  "ct_waiting (set_base q c) = ct_waiting c" "ct_now (set_base q c) = ct_now c"
  "base_queue (set_channel ch c) = base_queue c" "channel (set_channel ch c) = ch" "ct_workers (set_channel ch c) = ct_workers c"
  "ct_waiting (set_channel ch c) = ct_waiting c" "ct_now (set_channel ch c) = ct_now c"
  by (simp_all add: set_base_def set_channel_def)

lemma Forget_sel [simp]: "rl_DelayingInterface (RateLimiting_Forget x Q) = rl_DelayingInterface Q"
  by (simp add: RateLimiting_Forget_def)

lemma start_inv: "ctl_inv (Controller_Start n t)"
  by (auto simp: ctl_inv_def Controller_Start_def NewRateLimitingQueue_def newDelayingQueue_def queue_inv_def
      no_waiting_inv workers_own_def workers_awake_def newQueue_def)

lemma receive_inv: "waiting_inv w \<Longrightarrow> receive_entry now e w q = (k, w', q') \<Longrightarrow> waiting_inv w'"
  using insert_entry_correct(1) by (auto simp: receive_entry_def Let_def split: if_splits prod.splits)

lemma receive_cases:
  assumes "receive_entry now e w q = (k, w', q')"
  obtains (later) "k = No_wake" "w' = insert_entry e w" "q' = q"
  | (added) "w' = w" "Queue_Add (wf_data e) q = (k, q')"
  using assms that by (cases "wf_readyAt e > now") (auto simp: receive_entry_def Let_def split: prod.splits)

lemma step_inv: "ctl_step rets c d \<Longrightarrow> ctl_inv c \<Longrightarrow> ctl_inv d"
proof (induction rule: ctl_step.induct)
  case (event x c k q ws)
  then show ?case using add_step[of "base_queue c" "ct_workers c" x k q ws] by (simp add: ctl_inv_def)
next
  case (gets i c g q)
  then show ?case using get_step[of "base_queue c" "ct_workers c" i g q] by (simp add: ctl_inv_def)
next
  case (handles i c x r bucket k Q ws)
  let ?ws = "(ct_workers c)[i := Handled x]"
  have i: "queue_inv (base_queue c)" "waiting_inv (ct_waiting c)"
      "workers_own (wq_processing (base_queue c)) (map holds (ct_workers c))" "workers_awake (base_queue c) (ct_workers c)"
    using handles.prems by (simp_all add: ctl_inv_def)
  have hs: "map holds ?ws = map holds (ct_workers c)" using handles.hyps(1,2) by (simp add: map_update list_update_same_conv)
  have aw: "workers_awake (base_queue c) ?ws" using awake_change[OF i(4)] handles.hyps(1,2) by simp
  note st = add_step[OF i(1) _ aw, of x k _ ws] and hold = wakes_holds[OF handles.hyps(5)]
  show ?case using handles.hyps(4)
  proof (cases rule: handle_result_cases)
    case forgot
    then show ?thesis using i(1,2,3) aw hs handles.hyps(5) by (simp add: ctl_inv_def)
  next
    case (again fs d)
    from again(2) show ?thesis
    proof (cases rule: AddAfter_cases)
      case (added q)
      then show ?thesis using st[of q] i hs handles.hyps(5) by (simp add: ctl_inv_def)
    qed (use i aw hs handles.hyps(5) in \<open>simp_all add: ctl_inv_def\<close>)
  qed
next
  case (finishes i c x k q ws)
  then show ?case using done_step[of "base_queue c" "ct_workers c" i x k q ws] by (simp add: ctl_inv_def)
next
  case (falls_due c d w k q ws)
  have "waiting_inv w" using pop_ready_Some[OF _ falls_due.hyps(1)] falls_due.prems by (auto simp: ctl_inv_def)
  then show ?case using add_step[of "base_queue c" "ct_workers c" d k q ws] falls_due by (simp add: ctl_inv_def)
next
  case (receives c e es k w q ws)
  have "waiting_inv w" using receive_inv[OF _ receives.hyps(2)] receives.prems by (simp add: ctl_inv_def)
  with receives.hyps(2) show ?case
  proof (cases rule: receive_cases)
    case added
    then show ?thesis
      using add_step[of "base_queue c" "ct_workers c" "wf_data e" k q ws] receives.hyps(3) receives.prems \<open>waiting_inv w\<close>
      by (simp add: ctl_inv_def)
  qed (use receives.hyps(3) receives.prems \<open>waiting_inv w\<close> in \<open>simp add: ctl_inv_def\<close>)
next
  case (ticks c t)
  then show ?case by (simp add: ctl_inv_def)
next
  case (stops c k d ws)
  show ?case
  proof (cases "dq_stopCh_closed (rl_DelayingInterface (ct_Queue c))")
    case True
    then show ?thesis using stops by (auto simp: Delaying_ShutDown_def ctl_inv_def)
  next
    case False
    let ?q = "(base_queue c)\<lparr>wq_shuttingDown := True\<rparr>"
    have d: "dq_Interface d = ?q" "k = Broadcast" using stops.hyps(1) False
      by (auto simp: Delaying_ShutDown_def Queue_ShutDown_def Let_def)
    have ws: "ws = map (\<lambda>w. case w of Asleep \<Rightarrow> Ready | _ \<Rightarrow> w) (ct_workers c)" using stops.hyps(2) d(2) by simp
    have a: "Asleep \<notin> set ws" by (auto simp: ws split: worker.splits)
    have "set ws \<subseteq> {Exited} \<Longrightarrow> set (ct_workers c) \<subseteq> {Exited}" by (auto simp: ws split: worker.splits)
    then have "workers_awake ?q ws" using stops.prems a by (auto simp: ctl_inv_def workers_awake_def ws)
    then show ?thesis using stops.prems wakes_holds[OF stops.hyps(2)] by (simp add: ctl_inv_def d queue_inv_def)
  qed
qed

lemma steps_inv: "(ctl_step rets)\<^sup>*\<^sup>* c d \<Longrightarrow> ctl_inv c \<Longrightarrow> ctl_inv d"
  by (induction rule: rtranclp_induct) (auto intro: step_inv)

lemma step_workers: "ctl_step rets c d \<Longrightarrow> length (ct_workers d) = length (ct_workers c)"
proof -
  have w: "wakes k ws ws' \<Longrightarrow> length ws' = length ws" for k and ws ws' :: "'a worker list"
    using wakes_holds by (metis length_map)
  assume "ctl_step rets c d"
  then show ?thesis by (cases rule: ctl_stepE) (use w in force)+
qed

lemma ctl_reachable_inv: "ctl_reachable rets n c \<Longrightarrow> ctl_inv c \<and> length (ct_workers c) = n"
proof (induction rule: ctl_reachable.induct)
  case (starts t)
  then show ?case using start_inv by (simp add: Controller_Start_def)
next
  case (moves c d)
  then show ?case using step_inv step_workers by metis
qed

lemma ctl_reachable_exclusive:
  "ctl_reachable rets n c \<Longrightarrow> i < n \<Longrightarrow> j < n \<Longrightarrow> holds (ct_workers c ! i) = Some x \<Longrightarrow> holds (ct_workers c ! j) = Some x \<Longrightarrow> i = j"
  using ctl_reachable_inv own_exclusive[of "wq_processing (base_queue c)" "map holds (ct_workers c)" i j x]
  by (auto simp: ctl_inv_def)

section \<open>No request is lost\<close>

text \<open>A request is in line when it needs processing, waits for its time, or is on its way to the waiting loop.\<close>

definition in_line :: "'t \<Rightarrow> 't Controller \<Rightarrow> bool" where
  "in_line x c \<longleftrightarrow> x \<in> wq_dirty (base_queue c) \<or> due (ct_waiting c) x \<noteq> None \<or> x \<in> wf_data ` set (channel c)"

abbreviation stopping :: "'t Controller \<Rightarrow> bool" where
  "stopping c \<equiv> wq_shuttingDown (base_queue c)"

text \<open>A worker begins with the request in this step.\<close>

definition begins :: "'t \<Rightarrow> 't Controller \<Rightarrow> 't Controller \<Rightarrow> bool" where
  "begins x c d \<longleftrightarrow> x \<notin> wq_processing (base_queue c) \<and> x \<in> wq_processing (base_queue d)"

lemma Add_in_dirty: "Queue_Add x q = (k, q') \<Longrightarrow> wq_dirty q' = (if wq_shuttingDown q then wq_dirty q else insert x (wq_dirty q))"
  "Queue_Add x q = (k, q') \<Longrightarrow> wq_shuttingDown q' = wq_shuttingDown q"
  "Queue_Add x q = (k, q') \<Longrightarrow> wq_processing q' = wq_processing q"
  using wq.add_pending[of x q] wq.add_down[of x q] wq.add_active[of x q] by simp_all

lemma insert_in_line:
  "waiting_inv w \<Longrightarrow> due (insert_entry e w) x \<noteq> None \<longleftrightarrow> due w x \<noteq> None \<or> x = wf_data e"
  by (simp add: insert_entry_correct(2))

lemma handled_in_line:
  assumes "handle_result x r bucket (ct_now c) (ct_Queue c) = Some (k, Q)" "\<not> stopping c"
  shows "(in_line y c \<longrightarrow> in_line y (c\<lparr>ct_Queue := Q, ct_workers := ws\<rparr>)) \<and>
    (reconcileHandler r \<noteq> Forget \<longrightarrow> in_line x (c\<lparr>ct_Queue := Q, ct_workers := ws\<rparr>))"
  using assms(1)
proof (cases rule: handle_result_cases)
  case forgot
  then show ?thesis by (simp add: in_line_def)
next
  case (again fs d)
  from again(2) show ?thesis
  proof (cases rule: AddAfter_cases)
    case (added q)
    then show ?thesis using assms(2) by (auto simp: in_line_def Add_in_dirty)
  qed (use assms(2) in \<open>auto simp: in_line_def\<close>)
qed

lemma step_in_line:
  assumes "ctl_step rets c d" "ctl_inv c" "\<not> stopping d" "in_line x c"
  shows "in_line x d \<or> begins x c d"
  using assms
proof (induction rule: ctl_step.induct)
  case (event y c k q ws)
  then show ?case by (auto simp: in_line_def Add_in_dirty)
next
  case (gets i c g q)
  have qi: "queue_inv (base_queue c)" using gets.prems by (simp add: ctl_inv_def)
  show ?case
  proof (cases g)
    case (Item y)
    have "wq_dirty q = wq_dirty (base_queue c) - {y}" "y \<notin> wq_processing (base_queue c)" "y \<in> wq_processing q"
      using wq.get_item[OF qi] gets.hyps(3) Item by auto
    then show ?thesis using gets.prems(3) by (auto simp: in_line_def begins_def)
  qed (use gets in \<open>auto simp: in_line_def\<close>)
next
  case (handles i c y r bucket k Q ws)
  have "stopping c \<longrightarrow> stopping (c\<lparr>ct_Queue := Q, ct_workers := ws\<rparr>)" using handles.hyps(4)
  proof (cases rule: handle_result_cases)
    case (again fs d)
    from again(2) show ?thesis by (cases rule: AddAfter_cases) (auto simp: Add_in_dirty)
  qed simp
  then show ?case using handled_in_line[OF handles.hyps(4), of x ws] handles.prems by blast
next
  case (finishes i c y k q ws)
  then have "wq_dirty q = wq_dirty (base_queue c)" using wq.finish_pending[of y "base_queue c"] by simp
  then show ?case using finishes.prems(3) by (simp add: in_line_def)
next
  case (falls_due c y w k q ws)
  have "due w = (due (ct_waiting c))(y := None)"
    using pop_ready_Some[OF _ falls_due.hyps(1)] falls_due.prems by (auto simp: ctl_inv_def)
  then show ?case using falls_due by (auto simp: in_line_def Add_in_dirty)
next
  case (receives c e es k w q ws)
  have wi: "waiting_inv (ct_waiting c)" using receives.prems by (simp add: ctl_inv_def)
  from receives.hyps(2) show ?case
  proof (cases rule: receive_cases)
    case later
    then show ?thesis using receives insert_in_line[OF wi, of e x] by (auto simp: in_line_def)
  next
    case added
    then show ?thesis using receives by (auto simp: in_line_def Add_in_dirty)
  qed
next
  case (ticks c t)
  then show ?case by (simp add: in_line_def)
next
  case (stops c k d ws)
  then show ?case by (auto simp: in_line_def Delaying_ShutDown_def Queue_ShutDown_def split: if_splits)
qed

section \<open>Every request in line can be served\<close>

text \<open>
  Requests are served as long as reconciliations return. A scheduler is a system with a controller in
  it: it can make every step of the controller that does not depend on a reconciler, and a
  reconciliation that has begun can return, with some result, while there is room for that result in
  the channel of the waiting loop. The controller alone is one when its reconciler can return a result
  for every request, and the running operator is one under the corresponding condition on the
  reconcilers of a kind. Nothing is assumed of the results: a reconciliation that is waited for may
  fail or ask to be repeated.
\<close>

abbreviation quiet_step :: "'t Controller \<Rightarrow> 't Controller \<Rightarrow> bool" where
  "quiet_step \<equiv> ctl_step (\<lambda>_ _. False)"

definition live :: "'t Controller \<Rightarrow> bool" where
  "live c \<longleftrightarrow> ctl_inv c \<and> ct_workers c \<noteq> [] \<and> \<not> stopping c"

definition can_begin :: "('s \<Rightarrow> 's \<Rightarrow> bool) \<Rightarrow> ('s \<Rightarrow> 't Controller) \<Rightarrow> 't \<Rightarrow> 's \<Rightarrow> bool" where
  "can_begin step ctl x s \<longleftrightarrow> (\<exists>t u. step\<^sup>*\<^sup>* s t \<and> step t u \<and> begins x (ctl t) (ctl u))"

lemma live_step: "live c \<Longrightarrow> ctl_step rets c d \<Longrightarrow> \<not> stopping d \<Longrightarrow> live d"
  using step_inv step_workers unfolding live_def by (metis length_0_conv)

lemma live_reachable: "ctl_reachable rets n c \<Longrightarrow> 0 < n \<Longrightarrow> \<not> stopping c \<Longrightarrow> live c"
  using ctl_reachable_inv by (auto simp: live_def)

lemma wakes_ready: "wakes k ws ws' \<Longrightarrow> Ready \<in> set ws \<Longrightarrow> Ready \<in> set ws'"
proof (cases k)
  case Signal
  assume "wakes k ws ws'" "Ready \<in> set ws"
  then show ?thesis using Signal by (auto simp: set_update_memI split: if_splits)
next
  case Broadcast
  assume "wakes k ws ws'" "Ready \<in> set ws"
  then show ?thesis using Broadcast by force
qed simp

lemma wakes_nth:
  assumes "wakes k ws ws'" "i < length ws" "ws ! i \<noteq> Asleep"
  shows "ws' ! i = ws ! i"
proof (cases k)
  case Signal
  then show ?thesis using assms by (cases "Asleep \<in> set ws") (auto simp: nth_list_update)
next
  case Broadcast
  then show ?thesis using assms by (auto split: worker.split)
qed (use assms in simp)

text \<open>What is queued keeps its place, and what is marked for processing stays marked.\<close>

definition grows :: "'t Type \<Rightarrow> 't Type \<Rightarrow> bool" where
  "grows q q' \<longleftrightarrow> (\<exists>ys. wq_queue q' = wq_queue q @ ys) \<and> wq_dirty q \<subseteq> wq_dirty q'"

lemma grows_refl [simp]: "grows q q"
  by (simp add: grows_def)

lemma grows_trans: "grows q q' \<Longrightarrow> grows q' q'' \<Longrightarrow> grows q q''"
  unfolding grows_def by (metis append.assoc subset_trans)

lemma grows_Add: "Queue_Add x q = (k, q') \<Longrightarrow> grows q q'"
  by (auto simp: grows_def Queue_Add_def Let_def split: if_splits)

lemma grows_handled:
  assumes "handle_result x r bucket now Q = Some (k, Q')"
  shows "grows (dq_Interface (rl_DelayingInterface Q)) (dq_Interface (rl_DelayingInterface Q')) \<and>
    wq_shuttingDown (dq_Interface (rl_DelayingInterface Q')) = wq_shuttingDown (dq_Interface (rl_DelayingInterface Q))"
  using assms
proof (cases rule: handle_result_cases)
  case (again fs d)
  from again(2) show ?thesis by (cases rule: AddAfter_cases) (auto simp: grows_Add Add_in_dirty)
qed simp

lemma handle_result_room:
  assumes "length (dq_waitingForAddCh (rl_DelayingInterface Q)) < 1000"
  shows "\<exists>k Q'. handle_result x r bucket now Q = Some (k, Q')"
  using assms by (cases "reconcileHandler r")
    (auto simp: handle_result_def RateLimiting_AddRateLimited_def RateLimiting_AddAfter_def Delaying_AddAfter_def
      RateLimiting_Forget_def split: prod.splits)

locale scheduler =
  fixes step :: "'s \<Rightarrow> 's \<Rightarrow> bool" and ctl :: "'s \<Rightarrow> 't Controller" and good :: "'s \<Rightarrow> bool"
  assumes lifts: "good s \<Longrightarrow> quiet_step (ctl s) d \<Longrightarrow> \<exists>t. step s t \<and> good t \<and> ctl t = d"
    and returns: "good s \<Longrightarrow> i < length (ct_workers (ctl s)) \<Longrightarrow> ct_workers (ctl s) ! i = Working x \<Longrightarrow>
      length (channel (ctl s)) < 1000 \<Longrightarrow>
      \<exists>t r bucket k Q ws. step s t \<and> good t \<and> handle_result x r bucket (ct_now (ctl s)) (ct_Queue (ctl s)) = Some (k, Q) \<and>
        wakes k ((ct_workers (ctl s))[i := Handled x]) ws \<and> ctl t = (ctl s)\<lparr>ct_Queue := Q, ct_workers := ws\<rparr>"
begin

lemma quiet:
  assumes "good s" "live (ctl s)" "quiet_step (ctl s) d" "\<not> stopping d"
  obtains t where "step s t" "good t" "live (ctl t)" "ctl t = d"
  using lifts[OF assms(1,3)] live_step[OF assms(2,3,4)] by blast

lemma begin_later: "step\<^sup>*\<^sup>* s t \<Longrightarrow> can_begin step ctl x t \<Longrightarrow> can_begin step ctl x s"
  unfolding can_begin_def by (meson rtranclp_trans)

lemma begin_step: "step s t \<Longrightarrow> can_begin step ctl x t \<Longrightarrow> can_begin step ctl x s"
  by (rule begin_later) (rule r_into_rtranclp)

text \<open>The waiting loop can empty its channel, while a worker reconciles.\<close>

lemma channel_can_drain:
  assumes "good s" "live (ctl s)" "i < length (ct_workers (ctl s))" "ct_workers (ctl s) ! i = Working y"
  obtains t where "step\<^sup>*\<^sup>* s t" "good t" "live (ctl t)" "i < length (ct_workers (ctl t))" "ct_workers (ctl t) ! i = Working y"
    "channel (ctl t) = []" "grows (base_queue (ctl s)) (base_queue (ctl t))"
proof -
  have "\<exists>t. step\<^sup>*\<^sup>* s t \<and> good t \<and> live (ctl t) \<and> i < length (ct_workers (ctl t)) \<and> ct_workers (ctl t) ! i = Working y \<and>
    channel (ctl t) = [] \<and> grows (base_queue (ctl s)) (base_queue (ctl t))"
    using assms
  proof (induction "channel (ctl s)" arbitrary: s)
    case Nil
    then show ?case by (intro exI[of _ s]) simp
  next
    case (Cons e es)
    obtain k w q where r: "receive_entry (ct_now (ctl s)) e (ct_waiting (ctl s)) (base_queue (ctl s)) = (k, w, q)"
      by (metis prod_cases3)
    obtain ws where ws: "wakes k (ct_workers (ctl s)) ws" using wakes_exist by blast
    let ?d = "(set_channel es (set_base q (ctl s)))\<lparr>ct_waiting := w, ct_workers := ws\<rparr>"
    have st: "quiet_step (ctl s) ?d" using ctl_step.receives[OF Cons.hyps(2)[symmetric] r ws] .
    have g: "wq_shuttingDown q = stopping (ctl s)" "grows (base_queue (ctl s)) q"
      using r by (cases rule: receive_cases; simp add: Add_in_dirty(2) grows_Add)+
    obtain t where t: "step s t" "good t" "live (ctl t)" "ctl t = ?d"
      by (rule quiet[OF Cons.prems(1,2) st]) (use g(1) Cons.prems(2) in \<open>simp_all add: live_def\<close>)
    have "i < length (ct_workers (ctl t))" "ct_workers (ctl t) ! i = Working y" "es = channel (ctl t)"
      using wakes_nth[OF ws] wakes_holds[OF ws] Cons.prems(3,4) t(4) by (auto dest: map_eq_imp_length_eq)
    with Cons.hyps(1)[of t] t(2,3) obtain u where u: "step\<^sup>*\<^sup>* t u" "good u" "live (ctl u)" "i < length (ct_workers (ctl u))"
      "ct_workers (ctl u) ! i = Working y" "channel (ctl u) = []" "grows (base_queue (ctl t)) (base_queue (ctl u))" by blast
    have "grows (base_queue (ctl s)) (base_queue (ctl u))" using grows_trans[OF g(2)] u(7) t(4) by simp
    then show ?case using u t(1) by (meson converse_rtranclp_into_rtranclp)
  qed
  then show ?thesis using that by blast
qed

lemma worker_can_return:
  assumes "good s" "live (ctl s)" "i < length (ct_workers (ctl s))" "holds (ct_workers (ctl s) ! i) = Some y"
  obtains t where "step\<^sup>*\<^sup>* s t" "good t" "live (ctl t)" "i < length (ct_workers (ctl t))" "ct_workers (ctl t) ! i = Handled y"
    "grows (base_queue (ctl s)) (base_queue (ctl t))"
proof (cases "ct_workers (ctl s) ! i")
  case (Working z)
  then have z: "ct_workers (ctl s) ! i = Working y" using assms(4) by simp
  obtain t where t: "step\<^sup>*\<^sup>* s t" "good t" "live (ctl t)" "i < length (ct_workers (ctl t))" "ct_workers (ctl t) ! i = Working y"
    "channel (ctl t) = []" "grows (base_queue (ctl s)) (base_queue (ctl t))"
    by (rule channel_can_drain[OF assms(1,2,3) z])
  obtain u r bucket k Q ws where u: "step t u" "good u"
      and h: "handle_result y r bucket (ct_now (ctl t)) (ct_Queue (ctl t)) = Some (k, Q)"
      and ws: "wakes k ((ct_workers (ctl t))[i := Handled y]) ws" and d: "ctl u = (ctl t)\<lparr>ct_Queue := Q, ct_workers := ws\<rparr>"
    using returns[OF t(2,4,5)] t(6) by auto
  have st: "ctl_step (\<lambda>_ _. True) (ctl t) (ctl u)" unfolding d by (rule ctl_step.handles[OF t(4,5) _ h ws]) simp
  have g: "grows (base_queue (ctl t)) (base_queue (ctl u))" "stopping (ctl u) = stopping (ctl t)"
    using grows_handled[OF h] d by simp_all
  then have lv: "live (ctl u)" using live_step[OF t(3) st] t(3) by (simp add: live_def)
  have "i < length (ct_workers (ctl u))" using step_workers[OF st] t(4) by simp
  moreover have "ct_workers (ctl u) ! i = Handled y" using wakes_nth[OF ws, of i] t(4) d by simp
  ultimately show ?thesis
    using that[of u] t(1) u lv grows_trans[OF t(7) g(1)] by (blast intro: rtranclp.rtrancl_into_rtrancl)
qed (use assms that[of s] in auto)

text \<open>A worker that holds an item can finish it; if it is to be processed again, it is then queued.\<close>

lemma worker_can_finish:
  assumes "good s" "live (ctl s)" "i < length (ct_workers (ctl s))" "holds (ct_workers (ctl s) ! i) = Some y"
  obtains t ys where "step\<^sup>*\<^sup>* s t" "good t" "live (ctl t)" "Ready \<in> set (ct_workers (ctl t))"
    "wq_queue (base_queue (ctl t)) = wq_queue (base_queue (ctl s)) @ ys"
    "y \<in> wq_dirty (base_queue (ctl s)) \<longrightarrow> y \<in> set (wq_queue (base_queue (ctl t)))"
proof -
  obtain u where u: "step\<^sup>*\<^sup>* s u" "good u" "live (ctl u)" "i < length (ct_workers (ctl u))" "ct_workers (ctl u) ! i = Handled y"
    "grows (base_queue (ctl s)) (base_queue (ctl u))"
    by (rule worker_can_return[OF assms])
  obtain k q where q: "Queue_Done y (base_queue (ctl u)) = (k, q)" by fastforce
  obtain ws where ws: "wakes k ((ct_workers (ctl u))[i := Ready]) ws" using wakes_exist by blast
  let ?d = "(set_base q (ctl u))\<lparr>ct_workers := ws\<rparr>"
  have st: "quiet_step (ctl u) ?d" using ctl_step.finishes[OF u(4,5) q ws] .
  have "\<not> stopping ?d" using wq.finish_down[of y "base_queue (ctl u)"] q u(3) by (simp add: live_def)
  then obtain t where t: "step u t" "good t" "live (ctl t)" "ctl t = ?d" by (rule quiet[OF u(2,3) st])
  have "Ready \<in> set (ct_workers (ctl t))" using wakes_ready[OF ws] u(4) t(4) by (simp add: set_update_memI)
  moreover obtain ys where ys: "wq_queue (base_queue (ctl t)) = wq_queue (base_queue (ctl u)) @ ys"
      "y \<in> wq_dirty (base_queue (ctl u)) \<longrightarrow> y \<in> set ys"
    using q t(4) by (auto simp: Queue_Done_def Let_def split: if_splits)
  moreover obtain zs where "wq_queue (base_queue (ctl u)) = wq_queue (base_queue (ctl s)) @ zs"
      "wq_dirty (base_queue (ctl s)) \<subseteq> wq_dirty (base_queue (ctl u))"
    using u(6) by (auto simp: grows_def)
  ultimately show ?thesis
    using that[of t "zs @ ys"] t(2,3) rtranclp.rtrancl_into_rtrancl[OF u(1) t(1)] by auto
qed

text \<open>While something is queued, a worker is or can get ready; what is queued stays in its place.\<close>

lemma worker_can_get_ready:
  assumes "good s" "live (ctl s)" "wq_queue (base_queue (ctl s)) \<noteq> []"
  obtains t ys where "step\<^sup>*\<^sup>* s t" "good t" "live (ctl t)" "Ready \<in> set (ct_workers (ctl t))"
    "wq_queue (base_queue (ctl t)) = wq_queue (base_queue (ctl s)) @ ys"
proof (cases "Ready \<in> set (ct_workers (ctl s))")
  case True
  then show ?thesis using that[of s "[]"] assms(1,2) by simp
next
  case False
  let ?ws = "ct_workers (ctl s)"
  have aw: "workers_awake (base_queue (ctl s)) ?ws" "\<not> stopping (ctl s)" "?ws \<noteq> []"
    using assms(2) by (simp_all add: live_def ctl_inv_def)
  have "ready_count ?ws = 0" using False by (auto simp: ready_count_def filter_empty_conv)
  then have "Asleep \<notin> set ?ws" "Exited \<notin> set ?ws" using aw assms(3) by (auto simp: workers_awake_def)
  moreover have w0: "?ws ! 0 \<in> set ?ws" "0 < length ?ws" using aw(3) by auto
  ultimately obtain y where y: "holds (?ws ! 0) = Some y" using False by (cases "?ws ! 0") auto
  show ?thesis by (rule worker_can_finish[OF assms(1,2) w0(2) y]) (rule that)
qed

lemma queued_can_begin:
  assumes "good s" "live (ctl s)" "wq_queue (base_queue (ctl s)) = xs @ x # ys"
  shows "can_begin step ctl x s"
  using assms
proof (induction xs arbitrary: s ys)
  case Nil
  obtain t zs where t: "step\<^sup>*\<^sup>* s t" "good t" "live (ctl t)" "Ready \<in> set (ct_workers (ctl t))"
      "wq_queue (base_queue (ctl t)) = x # ys @ zs"
    by (rule worker_can_get_ready[OF Nil.prems(1,2)]) (use Nil.prems(3) in auto)
  obtain i where i: "i < length (ct_workers (ctl t))" "ct_workers (ctl t) ! i = Ready" using t(4) by (auto simp: in_set_conv_nth)
  obtain q where q: "Queue_Get (base_queue (ctl t)) = (Item x, q)" using t(5) by (simp add: Queue_Get_def)
  obtain u where u: "step t u" "ctl u = (set_base q (ctl t))\<lparr>ct_workers := (ct_workers (ctl t))[i := after_get (Item x)]\<rparr>"
    using lifts[OF t(2) ctl_step.gets[OF i q]] by blast
  have "queue_inv (base_queue (ctl t))" using t(3) by (simp add: live_def ctl_inv_def)
  then have "begins x (ctl t) (ctl u)" using wq.get_item[OF _ q] u(2) by (simp add: begins_def)
  then show ?case using t(1) u(1) unfolding can_begin_def by blast
next
  case (Cons h xs)
  obtain t zs where t: "step\<^sup>*\<^sup>* s t" "good t" "live (ctl t)" "Ready \<in> set (ct_workers (ctl t))"
      "wq_queue (base_queue (ctl t)) = h # xs @ x # ys @ zs"
    by (rule worker_can_get_ready[OF Cons.prems(1,2)]) (use Cons.prems(3) in auto)
  obtain i where i: "i < length (ct_workers (ctl t))" "ct_workers (ctl t) ! i = Ready" using t(4) by (auto simp: in_set_conv_nth)
  obtain q where q: "Queue_Get (base_queue (ctl t)) = (Item h, q)" "wq_queue q = xs @ x # ys @ zs"
      "wq_shuttingDown q = stopping (ctl t)" using t(5) by (simp add: Queue_Get_def)
  obtain u where u: "step t u" "good u" "live (ctl u)"
      "ctl u = (set_base q (ctl t))\<lparr>ct_workers := (ct_workers (ctl t))[i := after_get (Item h)]\<rparr>"
    by (rule quiet[OF t(2,3) ctl_step.gets[OF i q(1)]]) (use q(3) t(3) in \<open>simp_all add: live_def\<close>)
  have "can_begin step ctl x u" using Cons.IH[OF u(2,3), of "ys @ zs"] q(2) u(4) by simp
  then show ?case using begin_later[OF t(1)] begin_step[OF u(1)] by blast
qed

lemma dirty_can_begin:
  assumes "good s" "live (ctl s)" "x \<in> wq_dirty (base_queue (ctl s))"
  shows "can_begin step ctl x s"
proof -
  have qi: "queue_inv (base_queue (ctl s))"
    and own: "workers_own (wq_processing (base_queue (ctl s))) (map holds (ct_workers (ctl s)))"
    using assms(2) by (simp_all add: live_def ctl_inv_def)
  show ?thesis
  proof (cases "x \<in> wq_processing (base_queue (ctl s))")
    case False
    then have "x \<in> set (wq_queue (base_queue (ctl s)))" using assms(3) queue_invD(2)[OF qi] by simp
    then show ?thesis using queued_can_begin[OF assms(1,2)] by (metis split_list)
  next
    case True
    then obtain i where i: "i < length (ct_workers (ctl s))" "holds (ct_workers (ctl s) ! i) = Some x"
      using own_held_nth[OF own, of x] by blast
    obtain t ys where t: "step\<^sup>*\<^sup>* s t" "good t" "live (ctl t)" "x \<in> set (wq_queue (base_queue (ctl t)))"
      by (rule worker_can_finish[OF assms(1,2) i]) (use assms(3) in blast)
    then show ?thesis using begin_later[OF t(1)] queued_can_begin[OF t(2,3)] by (metis split_list)
  qed
qed

lemma due_can_begin:
  assumes "good s" "live (ctl s)" "due (ct_waiting (ctl s)) x = Some m" "m \<le> ct_now (ctl s)"
  shows "can_begin step ctl x s"
  using assms
proof (induction "length (pq_slots (w_queue (ct_waiting (ctl s))))" arbitrary: s rule: less_induct)
  case less
  let ?c = "ctl s"
  have wi: "waiting_inv (ct_waiting ?c)" using less.prems(2) by (simp add: live_def ctl_inv_def)
  obtain y w where pop: "pop_ready (ct_now ?c) (ct_waiting ?c) = Some (y, w)"
    using pop_ready_None[OF wi, of "ct_now ?c"] less.prems(3,4) by fastforce
  have dw: "due w = (due (ct_waiting ?c))(y := None)" using pop_ready_Some[OF wi pop] by blast
  obtain k q where q: "Queue_Add y (base_queue ?c) = (k, q)" by fastforce
  obtain ws where ws: "wakes k (ct_workers ?c) ws" using wakes_exist by blast
  obtain t where t: "step s t" "good t" "live (ctl t)" "ctl t = (set_base q ?c)\<lparr>ct_waiting := w, ct_workers := ws\<rparr>"
    by (rule quiet[OF less.prems(1,2) ctl_step.falls_due[OF pop q ws]])
      (use less.prems(2) in \<open>simp_all add: live_def Add_in_dirty[OF q]\<close>)
  have "can_begin step ctl x t"
  proof (cases "y = x")
    case True
    then show ?thesis
      using dirty_can_begin[OF t(2,3)] Add_in_dirty(1)[OF q] less.prems(2) t(4) by (simp add: live_def)
  next
    case False
    then show ?thesis using less.hyps[of t] pop_ready_shrinks[OF pop] t(2-4) less.prems(3,4) by (simp add: dw)
  qed
  then show ?case using begin_step[OF t(1)] by blast
qed

lemma waiting_can_begin:
  assumes "good s" "live (ctl s)" "due (ct_waiting (ctl s)) x = Some m"
  shows "can_begin step ctl x s"
proof -
  obtain t where t: "step s t" "good t" "live (ctl t)" "ctl t = (ctl s)\<lparr>ct_now := max (ct_now (ctl s)) m\<rparr>"
    by (rule quiet[OF assms(1,2) ctl_step.ticks[of _ "max (ct_now (ctl s)) m"]])
      (use assms(2) in \<open>simp_all add: live_def\<close>)
  then show ?thesis using begin_step[OF t(1) due_can_begin[OF t(2,3)], of x m] assms(3) by simp
qed

lemma sent_can_begin:
  assumes "good s" "live (ctl s)" "x \<in> wf_data ` set (channel (ctl s))"
  shows "can_begin step ctl x s"
  using assms
proof (induction "channel (ctl s)" arbitrary: s)
  case (Cons e es)
  let ?c = "ctl s"
  have wi: "waiting_inv (ct_waiting ?c)" using Cons.prems(2) by (simp add: live_def ctl_inv_def)
  obtain k w q where r: "receive_entry (ct_now ?c) e (ct_waiting ?c) (base_queue ?c) = (k, w, q)" by (metis prod_cases3)
  obtain ws where ws: "wakes k (ct_workers ?c) ws" using wakes_exist by blast
  have same: "wq_shuttingDown q = stopping ?c" using r by (cases rule: receive_cases) (simp_all add: Add_in_dirty(2))
  obtain t where t: "step s t" "good t" "live (ctl t)"
      "ctl t = (set_channel es (set_base q ?c))\<lparr>ct_waiting := w, ct_workers := ws\<rparr>"
    by (rule quiet[OF Cons.prems(1,2) ctl_step.receives[OF Cons.hyps(2)[symmetric] r ws]])
      (use same Cons.prems(2) in \<open>simp_all add: live_def\<close>)
  have "can_begin step ctl x t"
  proof (cases "x = wf_data e")
    case True
    from r show ?thesis
    proof (cases rule: receive_cases)
      case later
      then obtain m where "due w x = Some m" using insert_in_line[OF wi, of e x] True by auto
      then show ?thesis using waiting_can_begin[OF t(2,3)] t(4) by simp
    next
      case added
      then show ?thesis
        using dirty_can_begin[OF t(2,3)] Add_in_dirty(1)[OF added(2)] True Cons.prems(2) t(4) by (simp add: live_def)
    qed
  next
    case False
    then show ?thesis using Cons.hyps(1)[of t] t(2-4) Cons.prems(3) Cons.hyps(2)[symmetric] by auto
  qed
  then show ?case using begin_step[OF t(1)] by blast
qed simp

theorem in_line_can_begin:
  assumes "good s" "live (ctl s)" "in_line x (ctl s)"
  shows "can_begin step ctl x s"
proof -
  consider "x \<in> wq_dirty (base_queue (ctl s))" | m where "due (ct_waiting (ctl s)) x = Some m"
    | "x \<in> wf_data ` set (channel (ctl s))"
    using assms(3) unfolding in_line_def by blast
  then show ?thesis
    by cases (rule dirty_can_begin waiting_can_begin sent_can_begin, rule assms(1), rule assms(2), assumption)+
qed

end

text \<open>A step stays possible when the reconciler may return more.\<close>

lemma step_mono: "ctl_step rets c d \<Longrightarrow> (\<And>x r. rets x r \<Longrightarrow> rets' x r) \<Longrightarrow> ctl_step rets' c d"
  by (induction rule: ctl_step.induct) (auto intro: ctl_step.intros)

lemma quiet_step_any: "quiet_step c d \<Longrightarrow> ctl_step rets c d"
  by (erule step_mono) simp

text \<open>The controller by itself, with a reconciler that can return for every request.\<close>

interpretation alone: scheduler "ctl_step rets" "\<lambda>c. c" "\<lambda>_. \<forall>x. \<exists>r. rets x r" for rets
proof
  fix c d :: "'a Controller"
  show "\<forall>x. \<exists>r. rets x r \<Longrightarrow> quiet_step c d \<Longrightarrow> \<exists>t. ctl_step rets c t \<and> (\<forall>x. \<exists>r. rets x r) \<and> t = d"
    using quiet_step_any by blast
next
  fix c :: "'a Controller" and i x
  assume g: "\<forall>x. \<exists>r. rets x r" and i: "i < length (ct_workers c)" "ct_workers c ! i = Working x" "length (channel c) < 1000"
  obtain r where r: "rets x r" using g by blast
  obtain k Q where h: "handle_result x r 0 (ct_now c) (ct_Queue c) = Some (k, Q)" using handle_result_room[OF i(3)] by blast
  obtain ws where ws: "wakes k ((ct_workers c)[i := Handled x]) ws" using wakes_exist by blast
  show "\<exists>t r bucket k Q ws. ctl_step rets c t \<and> (\<forall>x. \<exists>r. rets x r) \<and>
      handle_result x r bucket (ct_now c) (ct_Queue c) = Some (k, Q) \<and> wakes k ((ct_workers c)[i := Handled x]) ws \<and>
      t = c\<lparr>ct_Queue := Q, ct_workers := ws\<rparr>"
    using ctl_step.handles[where rets = rets, OF i(1,2) r h ws] g h ws by blast
qed

text \<open>
  Without that condition it is otherwise: a reconciliation that never returns keeps its worker, and when
  it has the only worker, no request begins any more.
\<close>

lemma stuck_stays:
  assumes "ctl_step rets c d" "i < length (ct_workers c)" "ct_workers c ! i = Working y" "\<nexists>r. rets y r"
  shows "i < length (ct_workers d) \<and> ct_workers d ! i = Working y"
  using assms
proof (induction rule: ctl_step.induct)
  case (gets j c g q)
  then show ?case by (cases "i = j") auto
next
  case (handles j c x r bucket k Q ws)
  then have "i \<noteq> j" by (metis worker.inject(1))
  then show ?case using handles wakes_nth[OF handles.hyps(5), of i] wakes_holds[OF handles.hyps(5)]
    by (auto dest: map_eq_imp_length_eq)
next
  case (finishes j c x k q ws)
  then have "i \<noteq> j" by auto
  then show ?case using finishes wakes_nth[OF finishes.hyps(4), of i] wakes_holds[OF finishes.hyps(4)]
    by (auto dest: map_eq_imp_length_eq)
qed (auto dest: wakes_nth wakes_holds[THEN map_eq_imp_length_eq])

section \<open>Properties\<close>

text \<open>A controller with two workers: a request has been added and, in the second state, taken.\<close>

definition example_added :: "string Controller" where
  "example_added = set_base (snd (Queue_Add ''a'' newQueue)) (Controller_Start 2 0)"

definition example_taken :: "string Controller" where
  "example_taken = (set_base (snd (Queue_Get (base_queue example_added))) example_added)\<lparr>ct_workers := [Working ''a'', Ready]\<rparr>"

lemma start_sel:
  "base_queue (Controller_Start n t) = newQueue" "ct_workers (Controller_Start n t) = replicate n Ready"
  "channel (Controller_Start n t) = []" "ct_waiting (Controller_Start n t) = no_waiting"
  by (simp_all add: Controller_Start_def NewRateLimitingQueue_def newDelayingQueue_def)

lemma example_added_queue:
  "wq_queue (base_queue example_added) = [''a'']" "wq_dirty (base_queue example_added) = {''a''}"
  "wq_processing (base_queue example_added) = {}" "\<not> stopping example_added" "ct_workers example_added = [Ready, Ready]"
  by (simp_all add: example_added_def start_sel newQueue_def Queue_Add_def numeral_2_eq_2)

lemma example_added_reachable: "ctl_reachable rets 2 example_added"
proof -
  let ?s = "Controller_Start 2 0 :: string Controller"
  have "ctl_step rets ?s ((set_base (snd (Queue_Add ''a'' newQueue)) ?s)\<lparr>ct_workers := [Ready, Ready]\<rparr>)"
    by (rule ctl_step.event[of "''a''" ?s Signal]) (simp_all add: start_sel newQueue_def Queue_Add_def numeral_2_eq_2)
  moreover have "(set_base (snd (Queue_Add ''a'' newQueue)) ?s)\<lparr>ct_workers := [Ready, Ready]\<rparr> = example_added"
    by (simp add: example_added_def set_base_def Controller_Start_def numeral_2_eq_2)
  ultimately show ?thesis using ctl_reachable.moves[OF ctl_reachable.starts] by metis
qed

lemma example_taken_step: "ctl_step rets example_added example_taken"
proof -
  have q: "Queue_Get (base_queue example_added) = (Item ''a'', snd (Queue_Get (base_queue example_added)))"
    by (simp add: Queue_Get_def example_added_queue)
  show ?thesis
    using ctl_step.gets[OF _ _ q, of 0] by (simp add: example_added_queue example_taken_def)
qed

lemma example_taken_queue: "ct_workers example_taken = [Working ''a'', Ready]" "\<not> stopping example_taken"
  "wq_processing (base_queue example_taken) = {''a''}"
  by (simp_all add: example_taken_def Queue_Get_def example_added_queue)

text \<open>
  C4: no request is reconciled by two workers at once, with any number of workers and however the
  workers, the event handlers, the waiting loop and a shutdown interleave: two workers never hold the
  same request, what the workers hold is exactly what the queue counts as being processed, and no
  request that is queued is being processed.
\<close>

theorem one_worker_per_request:
  assumes "ctl_reachable rets n c"
  shows "(\<forall>i j x. i < n \<longrightarrow> j < n \<longrightarrow> holds (ct_workers c ! i) = Some x \<longrightarrow> holds (ct_workers c ! j) = Some x \<longrightarrow> i = j) \<and>
    wq_processing (base_queue c) = {x. \<exists>i<n. holds (ct_workers c ! i) = Some x} \<and>
    distinct (wq_queue (base_queue c)) \<and> set (wq_queue (base_queue c)) \<inter> wq_processing (base_queue c) = {}"
proof -
  have own: "workers_own (wq_processing (base_queue c)) (map holds (ct_workers c))" and n: "length (ct_workers c) = n"
    and qi: "queue_inv (base_queue c)" using ctl_reachable_inv[OF assms] by (auto simp: ctl_inv_def)
  have "wq_processing (base_queue c) = {x. \<exists>i<n. holds (ct_workers c ! i) = Some x}"
    using own_held_nth[OF own] n by auto
  then show ?thesis using ctl_reachable_exclusive[OF assms] queue_invD[OF qi] by auto
qed

theorem one_worker_per_request_witness:
  "wq_processing (base_queue example_taken) = {x. \<exists>i<2. holds (ct_workers example_taken ! i) = Some x} \<and>
   ct_workers example_taken = [Working ''a'', Ready]"
  using one_worker_per_request[OF ctl_reachable.moves[OF example_added_reachable example_taken_step]] example_taken_queue by simp

text \<open>
  C5: no wake-up is lost. While a request is queued, some worker is about to take a request or is busy
  with one; and if a worker sleeps although a request is queued, another one has been woken and the
  very next step can be that it begins with the first request of the queue.
\<close>

theorem no_lost_wakeup:
  assumes "ctl_reachable rets n c" "0 < n" "wq_queue (base_queue c) = x # xs"
  shows "(\<exists>i<n. ct_workers c ! i = Ready \<or> holds (ct_workers c ! i) \<noteq> None) \<and>
    (Asleep \<in> set (ct_workers c) \<longrightarrow> (\<exists>d. ctl_step rets c d \<and> begins x c d))"
proof -
  have aw: "workers_awake (base_queue c) (ct_workers c)" and n: "length (ct_workers c) = n"
    and qi: "queue_inv (base_queue c)" using ctl_reachable_inv[OF assms(1)] by (auto simp: ctl_inv_def)
  have sleep: "\<exists>i<n. ct_workers c ! i = Ready" if "Asleep \<in> set (ct_workers c)"
  proof -
    have "ready_count (ct_workers c) \<noteq> 0" using aw assms(3) that by (auto simp: workers_awake_def)
    then have "Ready \<in> set (ct_workers c)" by (auto simp: ready_count_def filter_empty_conv)
    then show ?thesis using n by (auto simp: in_set_conv_nth)
  qed
  have "\<not> set (ct_workers c) \<subseteq> {Exited}" using aw assms(2,3) n by (auto simp: workers_awake_def)
  then obtain w where "w \<in> set (ct_workers c)" "w \<noteq> Exited" by blast
  then obtain i where i: "i < n" "ct_workers c ! i \<noteq> Exited" using n by (metis in_set_conv_nth)
  have "\<exists>i<n. ct_workers c ! i = Ready \<or> holds (ct_workers c ! i) \<noteq> None"
  proof (cases "ct_workers c ! i")
    case Asleep
    then show ?thesis using sleep i n by (metis nth_mem)
  qed (use i in auto)
  moreover have "\<exists>d. ctl_step rets c d \<and> begins x c d" if sl: "Asleep \<in> set (ct_workers c)"
  proof -
    obtain j where j: "j < length (ct_workers c)" "ct_workers c ! j = Ready" using sleep[OF sl] n by auto
    obtain q where q: "Queue_Get (base_queue c) = (Item x, q)" using assms(3) by (simp add: Queue_Get_def)
    have "begins x c ((set_base q c)\<lparr>ct_workers := (ct_workers c)[j := after_get (Item x)]\<rparr>)"
      using wq.get_item[OF qi q] by (simp add: begins_def)
    then show ?thesis using ctl_step.gets[OF j q] by blast
  qed
  ultimately show ?thesis by blast
qed

theorem no_lost_wakeup_witness:
  "wq_queue (base_queue example_added) = [''a''] \<and>
   (\<exists>i<2. ct_workers example_added ! i = Ready \<or> holds (ct_workers example_added ! i) \<noteq> None)"
  using no_lost_wakeup[OF example_added_reachable _ example_added_queue(1)] example_added_queue(1) by simp

text \<open>
  C7: no request is lost before a shutdown. A request that is in line, that is marked for processing,
  waiting for its time or on its way to the waiting loop, stays in line with every step until a worker
  begins with it; and when a reconciliation has failed or has asked to be repeated, the request is in
  line again.
\<close>

theorem request_not_lost:
  assumes "ctl_reachable rets n c" "ctl_step rets c d" "\<not> stopping d"
  shows "(in_line x c \<longrightarrow> in_line x d \<or> begins x c d) \<and>
    (\<forall>y r bucket k Q ws. handle_result y r bucket (ct_now d) (ct_Queue d) = Some (k, Q) \<longrightarrow>
       snd r \<noteq> None \<or> rs_Requeue (fst r) \<or> rs_RequeueAfter (fst r) > 0 \<longrightarrow>
       in_line y (d\<lparr>ct_Queue := Q, ct_workers := ws\<rparr>))"
proof -
  have "ctl_inv c" using ctl_reachable_inv[OF assms(1)] by simp
  moreover have "reconcileHandler r \<noteq> Forget"
    if "snd r \<noteq> None \<or> rs_Requeue (fst r) \<or> rs_RequeueAfter (fst r) > 0" for r
    using that by (auto simp: reconcileHandler_def case_prod_beta)
  ultimately show ?thesis using step_in_line[OF assms(2) _ assms(3)] handled_in_line[OF _ assms(3)] by blast
qed

theorem request_not_lost_witness:
  "in_line ''a'' example_added \<and> (in_line ''a'' example_taken \<or> begins ''a'' example_added example_taken)"
proof -
  have "in_line ''a'' example_added" by (simp add: in_line_def example_added_queue)
  then show ?thesis
    using request_not_lost[OF example_added_reachable example_taken_step example_taken_queue(2)] by blast
qed

end
