(* ===== verification/Running_System.thy ===== *)
theory Running_System
  imports Operator Controller_Runtime
begin

text \<open>
  The operator as it runs: the ten controllers, each with its own queue and workers, over the memory
  that the reconcilers share. A worker's reconciliation is one step, in which the reconciler of the
  controller's kind runs on the shared state and the controller then deals with its result; a worker
  that blocks in \<open>AddAfter\<close> because the channel is full makes that step when there is room again. All
  other steps of a controller leave the shared state alone. A panic in a reconciler or in a listener
  ends the process, and it starts again with empty queues. A reconciliation that would block for ever
  has no step: its worker stays where it is. That a reconciliation is one step is an abstraction: in the
  program two workers overlap while they wait for replies.
\<close>

record 'w system =
  sy_controllers :: "Kind \<Rightarrow> NamespacedName Controller"
  sy_state :: "'w ostate"

definition boot_system :: "nat \<Rightarrow> int \<Rightarrow> 'w ostate \<Rightarrow> 'w system" where
  "boot_system n now s = \<lparr>sy_controllers = (\<lambda>_. Controller_Start n now), sy_state = restart s\<rparr>"

inductive sys_step :: "'w env \<Rightarrow> nat \<Rightarrow> 'w system \<Rightarrow> 'w system \<Rightarrow> bool" for e n where
  runtime: "quiet_step (sy_controllers s k) d \<Longrightarrow>
    sys_step e n s (s\<lparr>sy_controllers := (sy_controllers s)(k := d)\<rparr>)"
| reconciles: "c = sy_controllers s k \<Longrightarrow> i < length (ct_workers c) \<Longrightarrow> ct_workers c ! i = Working req \<Longrightarrow>
    reconcile_kind e k req (sy_state s) = (Ret r, t) \<Longrightarrow>
    handle_result req r bucket (ct_now c) (ct_Queue c) = Some (wk, Q) \<Longrightarrow> wakes wk ((ct_workers c)[i := Handled req]) ws \<Longrightarrow>
    sys_step e n s \<lparr>sy_controllers = (sy_controllers s)(k := c\<lparr>ct_Queue := Q, ct_workers := ws\<rparr>), sy_state = t\<rparr>"
| panics: "i < length (ct_workers (sy_controllers s k)) \<Longrightarrow> ct_workers (sy_controllers s k) ! i = Working req \<Longrightarrow>
    reconcile_kind e k req (sy_state s) = (Abort x, t) \<Longrightarrow> x \<noteq> Blocked \<Longrightarrow> sys_step e n s (boot_system n now t)"
| listens: "listen_read e i rd (sy_state s) = (Ret (), t) \<Longrightarrow> sys_step e n s (s\<lparr>sy_state := t\<rparr>)"
| listener_panics: "listen_read e i rd (sy_state s) = (Abort x, t) \<Longrightarrow> x \<noteq> Blocked \<Longrightarrow> sys_step e n s (boot_system n now t)"
| world_moves: "sys_step e n s (s\<lparr>sy_state := (sy_state s)\<lparr>world := w\<rparr>\<rparr>)"

inductive_cases sys_stepE [consumes 1, case_names runtime reconciles panics listens listener_panics world_moves]: "sys_step e n s t"

inductive sys_reachable :: "'w env \<Rightarrow> nat \<Rightarrow> 'w system \<Rightarrow> bool" for e n where
  boots: "sys_reachable e n (boot_system n now s)"
| runs: "sys_reachable e n s \<Longrightarrow> sys_step e n s t \<Longrightarrow> sys_reachable e n t"

section \<open>Invariants\<close>

lemma boot_parts:
  "sy_state (boot_system n now s) = restart s" "sy_controllers (boot_system n now s) k = Controller_Start n now"
  by (simp_all add: boot_system_def)

lemma sys_step_state: "sys_step e n s t \<Longrightarrow> sy_state t = sy_state s \<or> op_step e (sy_state s) (sy_state t)"
proof (induction rule: sys_step.induct)
  case (reconciles c s k i req r t bucket wk Q ws)
  then show ?case by (simp add: op_step.reconciled)
next
  case (panics i s k req x t now)
  then show ?case by (simp add: boot_parts op_step.crashed)
next
  case (listens i rd s t)
  then show ?case by (simp add: op_step.listened)
next
  case (listener_panics i rd s x t now)
  then show ?case by (simp add: boot_parts op_step.listener_crashed)
next
  case (world_moves s w)
  then show ?case by (simp add: op_step.world_moves)
qed simp

lemma sys_step_controllers:
  assumes "sys_step e n s t" "\<And>k. ctl_reachable (\<lambda>_ _. True) n (sy_controllers s k)"
  shows "ctl_reachable (\<lambda>_ _. True) n (sy_controllers t k)"
  using assms(1)
proof (cases rule: sys_stepE)
  case (runtime k' d)
  then show ?thesis using assms(2) ctl_reachable.moves[OF assms(2) quiet_step_any[OF runtime(2)]] by simp
next
  case (reconciles k' i req r u bucket wk Q ws)
  have "ctl_step (\<lambda>_ _. True) (sy_controllers s k') ((sy_controllers s k')\<lparr>ct_Queue := Q, ct_workers := ws\<rparr>)"
    by (rule ctl_step.handles) (use reconciles in auto)
  from ctl_reachable.moves[OF assms(2) this] show ?thesis using assms(2) reconciles(1) by simp
next
  case (panics i k' req x u now)
  then show ?thesis by (simp add: boot_parts ctl_reachable.starts)
next
  case (listener_panics i rd x u now)
  then show ?thesis by (simp add: boot_parts ctl_reachable.starts)
qed (use assms(2) in simp_all)

lemma sys_reachable_parts:
  "sys_reachable e n s \<Longrightarrow> reachable e (sy_state s) \<and> (\<forall>k. ctl_reachable (\<lambda>_ _. True) n (sy_controllers s k))"
proof (induction rule: sys_reachable.induct)
  case (boots now s)
  then show ?case by (simp add: boot_parts reachable.boot ctl_reachable.starts)
next
  case (runs s t)
  then show ?case using sys_step_state[OF runs.hyps(2)] sys_step_controllers[OF runs.hyps(2)] reachable.step by metis
qed

section \<open>Serving requests\<close>

text \<open>Every reconciliation of this kind that begins in a reachable state returns, in whatever way.\<close>

definition returning :: "'w env \<Rightarrow> Kind \<Rightarrow> bool" where
  "returning e k \<longleftrightarrow> (\<forall>req s. reachable e s \<longrightarrow> (\<exists>r t. reconcile_kind e k req s = (Ret r, t)))"

interpretation operating: scheduler "sys_step e n" "\<lambda>s. sy_controllers s k" "\<lambda>s. sys_reachable e n s \<and> returning e k" for e n k
proof
  fix s :: "'a system" and d
  assume g: "sys_reachable e n s \<and> returning e k" and q: "quiet_step (sy_controllers s k) d"
  have "sys_step e n s (s\<lparr>sy_controllers := (sy_controllers s)(k := d)\<rparr>)" using q by (rule sys_step.runtime)
  then show "\<exists>t. sys_step e n s t \<and> (sys_reachable e n t \<and> returning e k) \<and> sy_controllers t k = d"
    using g sys_reachable.runs by fastforce
next
  fix s :: "'a system" and i x
  let ?c = "sy_controllers s k"
  assume g: "sys_reachable e n s \<and> returning e k" and i: "i < length (ct_workers ?c)" "ct_workers ?c ! i = Working x"
    and room: "length (channel ?c) < 1000"
  obtain r u where r: "reconcile_kind e k x (sy_state s) = (Ret r, u)"
    using g sys_reachable_parts[of e n s] unfolding returning_def by blast
  obtain wk Q where h: "handle_result x r 0 (ct_now ?c) (ct_Queue ?c) = Some (wk, Q)" using handle_result_room[OF room] by blast
  obtain ws where ws: "wakes wk ((ct_workers ?c)[i := Handled x]) ws" using wakes_exist by blast
  let ?t = "\<lparr>sy_controllers = (sy_controllers s)(k := ?c\<lparr>ct_Queue := Q, ct_workers := ws\<rparr>), sy_state = u\<rparr>"
  have st: "sys_step e n s ?t" by (rule sys_step.reconciles[OF refl i r h ws])
  then have "sys_reachable e n ?t" using g sys_reachable.runs by blast
  with st g h ws show "\<exists>t r bucket wk Q ws. sys_step e n s t \<and> (sys_reachable e n t \<and> returning e k) \<and>
      handle_result x r bucket (ct_now ?c) (ct_Queue ?c) = Some (wk, Q) \<and> wakes wk ((ct_workers ?c)[i := Handled x]) ws \<and>
      sy_controllers t k = ?c\<lparr>ct_Queue := Q, ct_workers := ws\<rparr>"
    by (intro exI[of _ ?t] exI[of _ r] exI[of _ 0] exI[of _ wk] exI[of _ Q] exI[of _ ws]) simp
qed

lemma sys_live: "sys_reachable e n s \<Longrightarrow> 0 < n \<Longrightarrow> \<not> stopping (sy_controllers s k) \<Longrightarrow> live (sy_controllers s k)"
  using sys_reachable_parts live_reachable by blast

lemma sys_serves:
  assumes "sys_reachable e n s" "returning e k" "0 < n" "\<not> stopping (sy_controllers s k)" "in_line req (sy_controllers s k)"
  shows "\<exists>t u. (sys_step e n)\<^sup>*\<^sup>* s t \<and> sys_step e n t u \<and> begins req (sy_controllers t k) (sy_controllers u k)"
  using operating.in_line_can_begin[of e n s k req] sys_live[OF assms(1,3,4)] assms(1,2,5) unfolding can_begin_def by blast

section \<open>An error is retried\<close>

lemma handle_error:
  fixes x :: 't
  assumes "\<not> wq_shuttingDown (dq_Interface (rl_DelayingInterface Q))" "length (dq_waitingForAddCh (rl_DelayingInterface Q)) < 1000" "0 \<le> bucket"
  defines "delay \<equiv> max bucket (min (5 * millisecond * 2 ^ RateLimiting_NumRequeues x Q) (1000 * 1000 * millisecond))"
  shows "handle_result x (res, Some err) bucket now Q = Some (No_wake, Q\<lparr>
      rl_failures := (rl_failures Q)(x \<mapsto> RateLimiting_NumRequeues x Q + 1),
      rl_DelayingInterface := (rl_DelayingInterface Q)\<lparr>dq_waitingForAddCh := dq_waitingForAddCh (rl_DelayingInterface Q) @
        [\<lparr>wf_data = x, wf_readyAt = now + delay, wf_index = 0\<rparr>]\<rparr>\<rparr>)"
proof -
  have "(1::int) \<le> 2 ^ RateLimiting_NumRequeues x Q" by simp
  then have "0 < delay" unfolding delay_def millisecond_def using assms(3) by (simp add: less_max_iff_disj)
  moreover have "DefaultController_When x bucket (rl_failures Q) = (delay, (rl_failures Q)(x \<mapsto> RateLimiting_NumRequeues x Q + 1))"
    unfolding delay_def by (simp add: prod_eq_iff default_When_value RateLimiting_NumRequeues_def)
  ultimately show ?thesis
    using assms(1,2) by (simp add: handle_result_def reconcileHandler_def RateLimiting_AddRateLimited_def
        RateLimiting_AddAfter_def Delaying_AddAfter_def Queue_ShuttingDown_def)
qed

section \<open>A worker that blocks\<close>

lemma silent_dial_blocks:
  assumes "mp_Timeout (cr_Spec obj) = 0"
    and "TransportSSH_Dial e zero_Transport (mp_Target (cr_Spec obj)) (sshConfig_of obj) s = (Ret (tp, None), s')"
    and "tp_ReadWriteCloser tp = Some h" "Receive (tp_version tp) (fst (conn_Reads e h (world s'))) = Waiting a b"
  shows "\<exists>t. manageOperatorLogic_MountPoint e obj s = (Abort Blocked, t)"
proof -
  have "\<exists>t. Transport_Receive e tp s' = (Abort Blocked, t)"
    using assms(3,4) by (cases "conn_Reads e h (world s')") (simp add: Transport_Receive_def)
  then obtain t where "Transport_Receive e tp s' = (Abort Blocked, t)" by blast
  then have "NewSession e tp s' = (Abort Blocked, t)"
    by (simp add: NewSession_def ReceiveHello_def gbind_def)
  then have "dial_MountPoint e obj s = (Abort Blocked, t)"
    using assms(1,2) by (simp add: dial_MountPoint_def DialSSH_def gbind_def)
  then show ?thesis by (simp add: manageOperatorLogic_MountPoint_def gbind_def)
qed

lemma silent_device_blocks:
  assumes "k_Get (mountpoints e) req (world s) = (Inr obj, w)" "HasFinalizer obj mountpointFinalizer" "\<not> IsBeingDeleted obj"
    and "manageOperatorLogic_MountPoint e obj (s\<lparr>world := w\<rparr>) = (Abort Blocked, t)"
  shows "reconcile_kind e KMountPoint req s = (Abort Blocked, t)"
proof -
  have g: "k_Get (rc_client (newMountPointReconciler e)) req (world s) = (Inr obj, w)"
    using assms(1) by (simp add: newMountPointReconciler_def)
  have v: "isValid_MountPoint (OMountPoint obj) (s\<lparr>world := w\<rparr>) = (Ret (True, None), s\<lparr>world := w\<rparr>)"
    by (simp add: isValid_MountPoint_def)
  show ?thesis using mp.fin_acts[OF g v assms(2,3)] assms(4) by (simp add: Reconcile_MountPoint_def gbind_def)
qed

text \<open>A worker whose reconciliation blocks in every state keeps its request until the process starts again.\<close>

lemma blocked_worker_stays:
  assumes "sys_step e n s t" "\<forall>now u. t \<noteq> boot_system n now u"
    and "i < length (ct_workers (sy_controllers s k))" "ct_workers (sy_controllers s k) ! i = Working req"
    and "fst (reconcile_kind e k req (sy_state s)) = Abort Blocked"
  shows "i < length (ct_workers (sy_controllers t k)) \<and> ct_workers (sy_controllers t k) ! i = Working req"
  using assms(1)
proof (cases rule: sys_stepE)
  case (runtime k' d)
  then show ?thesis using stuck_stays[OF runtime(2), of i req] assms(3,4) by (cases "k' = k") simp_all
next
  case (reconciles k' j req' r u bucket wk Q ws)
  show ?thesis
  proof (cases "k' = k")
    case True
    then have "ct_workers (sy_controllers s k) ! i \<noteq> ct_workers (sy_controllers s k) ! j" using reconciles(3,4) assms(4,5) by auto
    then have "i \<noteq> j" by blast
    then show ?thesis
      using wakes_nth[OF reconciles(6), of i] wakes_holds[OF reconciles(6)] assms(3,4) True reconciles(1)
      by (auto dest: map_eq_imp_length_eq)
  qed (use assms(3,4) reconciles(1) in simp)
qed (use assms in auto)

section \<open>Properties\<close>

text \<open>An API server that refuses every read of a lock, and a worker that has been given the request.\<close>

definition example_failing :: "unit env" where
  "example_failing = example_env\<lparr>locks := (example_client example_Lock)\<lparr>k_Get := (\<lambda>_ w. (Inl (APIError ''unavailable''), w))\<rparr>\<rparr>"

definition example_busy :: "NamespacedName Controller" where
  "example_busy = (let c = Controller_Start 1 0; q = snd (Queue_Get (snd (Queue_Add example_req newQueue))) in
     (set_base q c)\<lparr>ct_workers := [Working example_req]\<rparr>)"

definition example_system :: "Kind \<Rightarrow> unit system" where
  "example_system k = (boot_system 1 0 example_state)\<lparr>sy_controllers := (\<lambda>_. Controller_Start 1 0)(k := example_busy)\<rparr>"

lemma example_system_reached: "sys_reachable e 1 (example_system k)"
proof -
  let ?c = "Controller_Start 1 0 :: NamespacedName Controller"
  obtain q where q: "Queue_Add example_req newQueue = (Signal, q)" "wq_queue q = [example_req]"
    by (simp add: Queue_Add_def newQueue_def)
  let ?d = "(set_base q ?c)\<lparr>ct_workers := [Ready]\<rparr>"
  let ?s = "boot_system 1 0 example_state"
  have st: "quiet_step ?c ?d" by (rule ctl_step.event[of example_req ?c Signal]) (simp_all add: start_sel q)
  let ?t = "?s\<lparr>sy_controllers := (sy_controllers ?s)(k := ?d)\<rparr>"
  have one: "sys_step e 1 ?s ?t"
    by (rule sys_step.runtime) (use st in \<open>simp add: boot_parts\<close>)
  obtain q' where g: "Queue_Get q = (Item example_req, q')" using q(2) by (simp add: Queue_Get_def)
  have "quiet_step ?d example_busy"
    using ctl_step.gets[of 0 ?d "Item example_req" q'] g q(1) by (simp add: example_busy_def set_base_def Let_def)
  then have "sys_step e 1 ?t (?t\<lparr>sy_controllers := (sy_controllers ?t)(k := example_busy)\<rparr>)"
    by (intro sys_step.runtime) simp
  moreover have "?t\<lparr>sy_controllers := (sy_controllers ?t)(k := example_busy)\<rparr> = example_system k"
    by (simp add: example_system_def boot_system_def)
  ultimately show ?thesis using sys_reachable.runs[OF sys_reachable.runs[OF sys_reachable.boots one]] by metis
qed

lemma example_system_worker:
  "ct_workers (sy_controllers (example_system k) k) ! 0 = Working example_req" "\<not> stopping (sy_controllers (example_system k) k)"
  "channel (sy_controllers (example_system k) k) = []" "RateLimiting_NumRequeues req (ct_Queue (sy_controllers (example_system k) k)) = 0"
  by (simp_all add: example_system_def example_busy_def Let_def start_sel Queue_Add_def Queue_Get_def newQueue_def)
    (simp add: set_base_def Controller_Start_def NewRateLimitingQueue_def RateLimiting_NumRequeues_def failures_of_def)

lemma example_failing_reconcile:
  "\<exists>res err t. reconcile_kind example_failing KLock req s = (Ret (res, Some err), t)"
proof -
  let ?r = "newLockReconciler example_failing"
  have g: "k_Get (rc_client ?r) req w = (Inl (APIError ''unavailable''), w)" for w
    by (simp add: newLockReconciler_def example_failing_def)
  have "reconcile_kind example_failing KLock req s =
      ManageErrorWithRequeue example_failing ?r zero_Lock (Some (APIError ''unavailable'')) 0 s"
    by (simp add: Reconcile_Lock_def reconcile_rpc_def g ManageError_def)
  then show ?thesis using ManageErrorWithRequeue_returns[of example_failing ?r zero_Lock] by metis
qed

lemma example_failing_returns: "returning example_failing KLock"
  unfolding returning_def using example_failing_reconcile by blast

text \<open>
  C6: an operation that fails is tried again. When the reconciliation of a request returns an error, for
  any of the ten kinds and whatever delay the controller asked for, and the controller is not shutting
  down and the channel of its waiting loop has room (fewer than its 1000 entries), the step of the worker
  is possible with every delay of the token bucket that is not negative; it counts one more failure of
  the request and sends the request to the waiting loop with the back-off of the failures so far. If
  the reconciliations of this kind return, the running system can then reach a step in which a worker of
  the controller begins with the request again.
\<close>

theorem failed_reconciliation_is_retried:
  assumes "sys_reachable e n s" "i < n" "ct_workers (sy_controllers s k) ! i = Working req"
    and "reconcile_kind e k req (sy_state s) = (Ret (res, Some err), t)"
    and "\<not> stopping (sy_controllers s k)" "length (channel (sy_controllers s k)) < 1000" "0 \<le> bucket"
  defines "failures \<equiv> RateLimiting_NumRequeues req (ct_Queue (sy_controllers s k))"
  shows "\<exists>u. sys_step e n s u \<and> sy_state u = t \<and>
    RateLimiting_NumRequeues req (ct_Queue (sy_controllers u k)) = Suc failures \<and>
    channel (sy_controllers u k) = channel (sy_controllers s k) @ [\<lparr>wf_data = req, wf_readyAt = ct_now (sy_controllers s k) +
      max bucket (min (5 * millisecond * 2 ^ failures) (1000 * 1000 * millisecond)), wf_index = 0\<rparr>] \<and>
    (returning e k \<longrightarrow> (\<exists>v v'. (sys_step e n)\<^sup>*\<^sup>* u v \<and> sys_step e n v v' \<and> begins req (sy_controllers v k) (sy_controllers v' k)))"
proof -
  let ?c = "sy_controllers s k"
  have i: "i < length (ct_workers ?c)" using sys_reachable_parts[OF assms(1)] ctl_reachable_inv assms(2) by metis
  let ?en = "\<lparr>wf_data = req, wf_readyAt = ct_now ?c + max bucket (min (5 * millisecond * 2 ^ failures) (1000 * 1000 * millisecond)), wf_index = 0\<rparr>"
  define Q where "Q = (ct_Queue ?c)\<lparr>rl_failures := (rl_failures (ct_Queue ?c))(req \<mapsto> failures + 1),
    rl_DelayingInterface := (rl_DelayingInterface (ct_Queue ?c))\<lparr>dq_waitingForAddCh := channel ?c @ [?en]\<rparr>\<rparr>"
  have Q: "handle_result req (res, Some err) bucket (ct_now ?c) (ct_Queue ?c) = Some (No_wake, Q)"
    using handle_error[OF assms(5,6,7), of req res err "ct_now ?c"] by (simp only: Q_def failures_def)
  have Qs: "rl_failures Q = (rl_failures (ct_Queue ?c))(req \<mapsto> failures + 1)"
    "rl_DelayingInterface Q = (rl_DelayingInterface (ct_Queue ?c))\<lparr>dq_waitingForAddCh := channel ?c @ [?en]\<rparr>"
    by (simp_all add: Q_def)
  let ?d = "?c\<lparr>ct_Queue := Q, ct_workers := (ct_workers ?c)[i := Handled req]\<rparr>"
  let ?u = "\<lparr>sy_controllers = (sy_controllers s)(k := ?d), sy_state = t\<rparr>"
  have st: "sys_step e n s ?u" by (rule sys_step.reconciles[OF refl i assms(3,4) Q]) simp
  have "\<exists>v v'. (sys_step e n)\<^sup>*\<^sup>* ?u v \<and> sys_step e n v v' \<and> begins req (sy_controllers v k) (sy_controllers v' k)"
    if "returning e k"
    by (rule sys_serves[OF sys_reachable.runs[OF assms(1) st] that]) (use assms(2,5) in \<open>simp_all add: in_line_def Qs\<close>)
  then show ?thesis
    using st by (intro exI[of _ ?u]) (simp add: RateLimiting_NumRequeues_def failures_of_def Qs)
qed

theorem failed_reconciliation_is_retried_witness:
  "\<exists>u. sys_step example_failing 1 (example_system KLock) u \<and>
     channel (sy_controllers u KLock) = [\<lparr>wf_data = example_req, wf_readyAt = 5 * millisecond, wf_index = 0\<rparr>] \<and>
     (\<exists>v v'. (sys_step example_failing 1)\<^sup>*\<^sup>* u v \<and> sys_step example_failing 1 v v' \<and>
        begins example_req (sy_controllers v KLock) (sy_controllers v' KLock))"
proof -
  obtain res err t where r: "reconcile_kind example_failing KLock example_req (sy_state (example_system KLock)) = (Ret (res, Some err), t)"
    using example_failing_reconcile by blast
  have now: "ct_now (sy_controllers (example_system KLock) KLock) = 0"
    by (simp add: example_system_def example_busy_def Let_def Controller_Start_def)
  have d: "max 0 (min (5 * millisecond * 2 ^ 0) (1000 * 1000 * millisecond)) = 5 * millisecond"
    by (simp add: millisecond_def)
  show ?thesis
    using failed_reconciliation_is_retried[OF example_system_reached _ example_system_worker(1) r example_system_worker(2), of 0]
      example_failing_returns
    by (auto simp only: example_system_worker now d append_Nil list.size add_0_left simp_thms order_refl zero_less_numeral zero_less_one)
qed

text \<open>
  C8: every request in line is served, as long as reconciliations return. From every state of the running
  system, for each kind whose controller has a worker and is not shutting down, and for every request
  that is in line there, there is a sequence of steps of the system at whose end a worker begins with
  that request, provided that every reconciliation of that kind returns, with any result, an error
  included. Neither the sleeping workers, nor the requests before it, nor its delay, nor a full channel
  of the waiting loop, nor a reconciliation of the same request that is still going on, and that fails
  or asks to be repeated, can keep it from being served.
\<close>

theorem request_can_be_served:
  assumes "sys_reachable e n s" "0 < n" "\<not> stopping (sy_controllers s k)" "in_line req (sy_controllers s k)"
    and "\<And>req t. reachable e t \<Longrightarrow> \<exists>r u. reconcile_kind e k req t = (Ret r, u)"
  shows "\<exists>t u. (sys_step e n)\<^sup>*\<^sup>* s t \<and> sys_step e n t u \<and> begins req (sy_controllers t k) (sy_controllers u k)"
  by (rule sys_serves[OF assms(1) _ assms(2,3,4)]) (use assms(5) in \<open>simp add: returning_def\<close>)

text \<open>The same system, after one more event for the lock that its worker is reconciling.\<close>

definition example_again :: "unit system" where
  "example_again = (example_system KLock)\<lparr>sy_controllers := (sy_controllers (example_system KLock))(KLock :=
     set_base (snd (Queue_Add example_req (base_queue example_busy))) example_busy)\<rparr>"

lemma example_again_reached: "sys_reachable example_failing 1 example_again"
proof -
  let ?q = "base_queue example_busy"
  have w: "ct_workers example_busy = [Working example_req]" by (simp add: example_busy_def Let_def)
  obtain k q where q: "Queue_Add example_req ?q = (k, q)" by fastforce
  have "wakes k (ct_workers example_busy) [Working example_req]" by (cases k) (simp_all add: w)
  from ctl_step.event[OF q this]
  have "quiet_step example_busy ((set_base q example_busy)\<lparr>ct_workers := [Working example_req]\<rparr>)" .
  moreover have "(set_base q example_busy)\<lparr>ct_workers := [Working example_req]\<rparr> = set_base (snd (Queue_Add example_req ?q)) example_busy"
    using q w by (simp add: set_base_def)
  moreover have "sy_controllers (example_system KLock) KLock = example_busy" by (simp add: example_system_def)
  ultimately have "sys_step example_failing 1 (example_system KLock) example_again"
    unfolding example_again_def by (intro sys_step.runtime) simp
  then show ?thesis by (rule sys_reachable.runs[OF example_system_reached])
qed

theorem request_can_be_served_witness:
  "\<exists>t u. (sys_step example_failing 1)\<^sup>*\<^sup>* example_again t \<and> sys_step example_failing 1 t u \<and>
     begins example_req (sy_controllers t KLock) (sy_controllers u KLock)"
proof (rule request_can_be_served[OF example_again_reached])
  let ?c = "sy_controllers example_again KLock"
  have "wq_dirty (base_queue ?c) = {example_req}" "\<not> stopping ?c"
    by (simp_all add: example_again_def example_busy_def Let_def Queue_Add_def Queue_Get_def newQueue_def)
  then show "\<not> stopping ?c" "in_line example_req ?c" by (simp_all add: in_line_def)
  show "\<exists>r u. reconcile_kind example_failing KLock req t = (Ret r, u)" for req t
    using example_failing_reconcile by blast
qed simp

text \<open>
  C9: a mount point whose device accepts the connection but never sends a complete hello, and that asks for no
  timeout, blocks the others. The operator runs each controller with one worker. Once this worker has
  begun with such a mount point, whose object has its finalizer, is not being deleted and stays as it
  is, and as long as its device can be dialled, its reconciliation blocks and the worker stays with it: in every later
  state, until the process starts again, no other mount point is being processed.
\<close>

theorem silent_device_blocks_mountpoints:
  assumes "sys_reachable e 1 s" "ct_workers (sy_controllers s KMountPoint) = [Working req]"
    and "\<And>w. \<exists>w'. k_Get (mountpoints e) req w = (Inr obj, w')"
    and "HasFinalizer obj mountpointFinalizer" "\<not> IsBeingDeleted obj" "mp_Timeout (cr_Spec obj) = 0"
    and "\<And>u. \<exists>tp u' h a b. TransportSSH_Dial e zero_Transport (mp_Target (cr_Spec obj)) (sshConfig_of obj) u = (Ret (tp, None), u') \<and>
      tp_ReadWriteCloser tp = Some h \<and> Receive (tp_version tp) (fst (conn_Reads e h (world u'))) = Waiting a b"
    and "(\<lambda>a b. sys_step e 1 a b \<and> (\<forall>now u. b \<noteq> boot_system 1 now u))\<^sup>*\<^sup>* s t"
  shows "fst (reconcile_kind e KMountPoint req (sy_state t)) = Abort Blocked \<and>
    ct_workers (sy_controllers t KMountPoint) = [Working req] \<and>
    wq_processing (base_queue (sy_controllers t KMountPoint)) = {req}"
proof -
  have blocks: "fst (reconcile_kind e KMountPoint req u) = Abort Blocked" for u
  proof -
    obtain w where w: "k_Get (mountpoints e) req (world u) = (Inr obj, w)" using assms(3) by blast
    obtain v where "manageOperatorLogic_MountPoint e obj (u\<lparr>world := w\<rparr>) = (Abort Blocked, v)"
      using silent_dial_blocks[OF assms(6)] assms(7)[of "u\<lparr>world := w\<rparr>"] by metis
    then show ?thesis using silent_device_blocks[OF w assms(4,5)] by simp
  qed
  have "sys_reachable e 1 t \<and> ct_workers (sy_controllers t KMountPoint) = [Working req]"
    using assms(8)
  proof (induction rule: rtranclp_induct)
    case (step a b)
    have len: "length (ct_workers (sy_controllers x KMountPoint)) = 1" if "sys_reachable e 1 x" for x
      using sys_reachable_parts[OF that] ctl_reachable_inv by metis
    have r: "sys_reachable e 1 b" using step sys_reachable.runs by blast
    have "ct_workers (sy_controllers b KMountPoint) ! 0 = Working req"
      using blocked_worker_stays[of e 1 a b 0 KMountPoint req] step blocks by simp
    then show ?case using len[OF r] r by (cases "ct_workers (sy_controllers b KMountPoint)") simp_all
  qed (use assms(1,2) in simp)
  moreover from this have "ctl_inv (sy_controllers t KMountPoint)" using sys_reachable_parts[of e 1 t] ctl_reachable_inv by blast
  then have "workers_own (wq_processing (base_queue (sy_controllers t KMountPoint))) [Some req]"
    using calculation by (simp add: ctl_inv_def)
  from own_held[OF this] have "wq_processing (base_queue (sy_controllers t KMountPoint)) = {req}" by auto
  ultimately show ?thesis using blocks by blast
qed

text \<open>A device that sends nothing.\<close>

definition silent_env :: "unit env" where
  "silent_env = example_env'\<lparr>mountpoints := example_client example_finalized, conn_Reads := (\<lambda>_ w. ([], w))\<rparr>"

theorem silent_device_blocks_mountpoints_witness:
  "fst (reconcile_kind silent_env KMountPoint example_req (sy_state (example_system KMountPoint))) = Abort Blocked \<and>
   ct_workers (sy_controllers (example_system KMountPoint) KMountPoint) = [Working example_req] \<and>
   wq_processing (base_queue (sy_controllers (example_system KMountPoint) KMountPoint)) = {example_req}"
proof (rule silent_device_blocks_mountpoints[where obj = example_finalized])
  show "sys_reachable silent_env 1 (example_system KMountPoint)" by (rule example_system_reached)
  show "ct_workers (sy_controllers (example_system KMountPoint) KMountPoint) = [Working example_req]"
    by (simp add: example_system_def example_busy_def Let_def)
  show "\<exists>w'. k_Get (mountpoints silent_env) example_req w = (Inr example_finalized, w')" for w
    by (simp add: silent_env_def example_client_def)
  show "HasFinalizer example_finalized mountpointFinalizer" "\<not> IsBeingDeleted example_finalized"
    "mp_Timeout (cr_Spec example_finalized) = 0"
    by (simp_all add: example_finalized_def IsBeingDeleted_def HasFinalizer_def AddFinalizer_def Let_def example_objects)
  let ?t = "\<lparr>tp_version = [], tp_sshClient = Some 1, tp_sshSession = Some 2, tp_ReadWriteCloser = Some 2\<rparr>"
  have "TransportSSH_Dial silent_env zero_Transport target cfg u = (Ret (?t, None), u)" for target cfg u
    by (simp add: TransportSSH_Dial_def setupSession_def zero_Transport_def Let_def silent_env_def)
  moreover have "Receive [] (fst (conn_Reads silent_env 2 w)) = Waiting [] []" for w
    by (simp add: silent_env_def Receive_def WaitForBytes_def)
  ultimately show "\<exists>tp u' h a b. TransportSSH_Dial silent_env zero_Transport (mp_Target (cr_Spec example_finalized))
      (sshConfig_of example_finalized) u = (Ret (tp, None), u') \<and>
      tp_ReadWriteCloser tp = Some h \<and> Receive (tp_version tp) (fst (conn_Reads silent_env h (world u'))) = Waiting a b" for u
    by (intro exI[of _ ?t] exI[of _ u] exI[of _ 2] exI[of _ "[]"]) simp
qed simp

end
