(* ===== verification/Client_Helpers.thy ===== *)
theory Client_Helpers
  imports Transport_SSH
begin

text \<open>
  What the NETCONF client exports beside the operations that the operator uses
  (\<open>netconf/transport.go\<close>, \<open>netconf/transport\_ssh.go\<close>): writing a line, waiting for a string or for
  a regular expression, and the configuration with a private key from a file. Regular expressions,
  PEM, X.509 and the parser of SSH keys are parameters.
\<close>

section \<open>Lines\<close>

text \<open>\<open>Writeln\<close> writes the bytes and a newline in two writes and returns the count 0 whatever happens.\<close>

definition Writeln :: "'w env \<Rightarrow> Transport \<Rightarrow> string \<Rightarrow> ('w, nat \<times> gerror option) op" where
  "Writeln e t b = (case tp_ReadWriteCloser t of None \<Rightarrow> nil_deref | Some h \<Rightarrow>
     gthen (emit (Sent h b)) (gbind (ext (conn_Write e h b)) (\<lambda>err. case err of
       Some x \<Rightarrow> ret (0, Some x)
     | None \<Rightarrow> gthen (emit (Sent h [CHR 0x0A])) (gbind (ext (conn_Write e h [CHR 0x0A])) (\<lambda>err. case err of
         Some x \<Rightarrow> ret (0, Some x)
       | None \<Rightarrow> ret (0, None))))))"

section \<open>Waiting for a string or an expression\<close>

text \<open>\<open>None\<close> while the loop still waits for reads.\<close>

definition WaitForString :: "string \<Rightarrow> read list \<Rightarrow> (string \<times> gerror option) option" where
  "WaitForString s rs = (case WaitForBytes s [] [] rs of
     Waiting _ _ \<Rightarrow> None
   | Done (Inr out) \<Rightarrow> Some (out, None)
   | Done (Inl err) \<Rightarrow> Some ([], Some err))"

text \<open>
  \<open>FindSubmatchIndex\<close> gives pairs of offsets, of the match and of each group, with -1 for a group that
  did not take part. The closure of \<open>WaitForRegexp\<close> slices the buffer with them, and a slice with a
  negative bound is a panic, here \<open>None\<close>.
\<close>

type_synonym regexp = "string \<Rightarrow> int list option"

definition find_regexp :: "regexp \<Rightarrow> find_end" where
  "find_regexp re buf = (case re buf of None \<Rightarrow> Inr None | Some loc \<Rightarrow> Inr (Some (nat (loc ! 1))))"

fun submatches :: "string \<Rightarrow> int list \<Rightarrow> string list option" where
  "submatches buf (a # b # loc) =
     (if 0 \<le> a \<and> a \<le> b \<and> b \<le> int (length buf)
      then map_option (\<lambda>ms. drop (nat a) (take (nat b) buf) # ms) (submatches buf loc)
      else None)"
| "submatches buf [] = Some []"
| "submatches buf [a] = None"

fun WaitForRegexp :: "regexp \<Rightarrow> string \<Rightarrow> string \<Rightarrow> read list \<Rightarrow> wait_result \<times> string list option" where
  "WaitForRegexp re out win [] = (Waiting out win, Some [])"
| "WaitForRegexp re out win (r # rs) = (case WaitForFunc_step (find_regexp re) out win r of
     Done x \<Rightarrow> (Done x, case r of
         ReadData bs \<Rightarrow> (case re (win @ bs) of None \<Rightarrow> Some [] | Some loc \<Rightarrow> submatches (win @ bs) (drop 2 loc))
       | _ \<Rightarrow> Some [])
   | Waiting out' win' \<Rightarrow> WaitForRegexp re out' win' rs)"

lemma WaitForRegexp_is_WaitForFunc: "fst (WaitForRegexp re out win rs) = WaitForFunc (find_regexp re) out win rs"
  by (induction rs arbitrary: out win) (simp_all split: wait_result.split)

text \<open>The expression that matches one string and has no groups.\<close>

definition literal :: "string \<Rightarrow> regexp" where
  "literal s buf = map_option (\<lambda>i. [int i, int (i + length s)]) (Index buf s)"

lemma Index_take: "Index buf s = Some i \<Longrightarrow> take (i + length s) buf = take i buf @ s"
  by (auto simp: Index_Some_iff HasPrefix_take take_add)

text \<open>
  Waiting for an expression keeps what it waited for, waiting for bytes does not: with the expression of
  a string, the result is the one of \<open>WaitForBytes\<close> with the string at its end.
\<close>

lemma WaitForRegexp_literal:
  "fst (WaitForRegexp (literal s) out win rs) =
     (case WaitForBytes s out win rs of Done (Inr body) \<Rightarrow> Done (Inr (body @ s)) | x \<Rightarrow> x)"
proof (induction rs arbitrary: out win)
  case (Cons r rs)
  show ?case
  proof (cases r)
    case (ReadData bs)
    show ?thesis
    proof (cases "bs = []")
      case True
      then show ?thesis using Cons ReadData by (simp add: WaitForFunc_step_def WaitForBytes_step_run)
    next
      case False
      show ?thesis
      proof (cases "Index (win @ bs) s")
        case None
        then show ?thesis using Cons ReadData False
          by (simp add: WaitForFunc_step_def WaitForBytes_step_run find_regexp_def literal_def)
      next
        case (Some i)
        then show ?thesis using ReadData False Index_take[OF Some]
          by (simp add: WaitForFunc_step_def WaitForBytes_step_run find_regexp_def literal_def nat_add_distrib)
      qed
    qed
  qed (simp_all add: WaitForFunc_step_def WaitForBytes_step_run)
qed simp

section \<open>A private key from a file\<close>

record ('w, 'block, 'key) key_api =
  ka_ReadFile :: "string \<Rightarrow> 'w \<Rightarrow> (gerror + string) \<times> 'w"
  ka_pem_Decode :: "string \<Rightarrow> 'block option \<times> string"
  ka_block_Type :: "'block \<Rightarrow> string"
  ka_IsEncryptedPEMBlock :: "'block \<Rightarrow> bool"
  ka_DecryptPEMBlock :: "'block \<Rightarrow> string \<Rightarrow> gerror + string"
  ka_pem_EncodeToMemory :: "string \<Rightarrow> string \<Rightarrow> string"
  ka_ParsePrivateKey :: "string \<Rightarrow> gerror + 'key"

record 'key KeyConfig =
  kc_User :: string
  kc_PublicKeys :: "'key list"

text \<open>\<open>IsEncryptedPEMBlock\<close> reads the headers of its block, so that a nil block is a nil dereference.\<close>

definition SSHConfigPubKeyFile ::
    "('w, 'block, 'key) key_api \<Rightarrow> string \<Rightarrow> string \<Rightarrow> string \<Rightarrow> ('w, gerror + 'key KeyConfig) op" where
  "SSHConfigPubKeyFile api user file passphrase =
     gbind (ext (ka_ReadFile api file)) (\<lambda>r. case r of
       Inl err \<Rightarrow> ret (Inl err)
     | Inr buf \<Rightarrow> (case ka_pem_Decode api buf of (block, rest) \<Rightarrow>
         if length rest > 0 then ret (Inl (GoError (''pem: unable to decode file '' @ file)))
         else (case block of None \<Rightarrow> nil_deref | Some b \<Rightarrow>
           (case (if ka_IsEncryptedPEMBlock api b then
                map_sum id (\<lambda>plain. ka_pem_EncodeToMemory api (ka_block_Type api b) plain) (ka_DecryptPEMBlock api b passphrase)
              else Inr buf) of
              Inl err \<Rightarrow> ret (Inl err)
            | Inr pem \<Rightarrow> (case ka_ParsePrivateKey api pem of
                Inl err \<Rightarrow> ret (Inl err)
              | Inr key \<Rightarrow> ret (Inr \<lparr>kc_User = user, kc_PublicKeys = [key]\<rparr>))))))"

text \<open>
  The passphrase is only used when the block is encrypted, and a configuration is only returned with the
  key that the file, decrypted when it has to be, holds.
\<close>

lemma SSHConfigPubKeyFile_key:
  assumes "SSHConfigPubKeyFile api user file passphrase s = (Ret (Inr cfg), t)"
  obtains buf w b pem key where "ka_ReadFile api file (world s) = (Inr buf, w)" "ka_pem_Decode api buf = (Some b, [])"
    "if ka_IsEncryptedPEMBlock api b
     then \<exists>plain. ka_DecryptPEMBlock api b passphrase = Inr plain \<and> pem = ka_pem_EncodeToMemory api (ka_block_Type api b) plain
     else pem = buf"
    "ka_ParsePrivateKey api pem = Inr key" "cfg = \<lparr>kc_User = user, kc_PublicKeys = [key]\<rparr>" "t = s\<lparr>world := w\<rparr>"
proof -
  obtain g w where g: "ka_ReadFile api file (world s) = (g, w)" by fastforce
  obtain buf where gr: "g = Inr buf" using assms g by (cases g) (simp_all add: SSHConfigPubKeyFile_def)
  obtain block rest where d: "ka_pem_Decode api buf = (block, rest)" by fastforce
  have rest: "rest = []" using assms g gr d by (cases rest) (simp_all add: SSHConfigPubKeyFile_def)
  obtain b where b: "block = Some b" using assms g gr d rest by (cases block) (simp_all add: SSHConfigPubKeyFile_def)
  let ?pem = "if ka_IsEncryptedPEMBlock api b then
      map_sum id (\<lambda>plain. ka_pem_EncodeToMemory api (ka_block_Type api b) plain) (ka_DecryptPEMBlock api b passphrase) else Inr buf"
  obtain pem where p: "?pem = Inr pem" using assms g gr d rest b by (cases ?pem) (simp_all add: SSHConfigPubKeyFile_def)
  obtain key where k: "ka_ParsePrivateKey api pem = Inr key"
    using assms g gr d rest b p by (cases "ka_ParsePrivateKey api pem") (simp_all add: SSHConfigPubKeyFile_def)
  have "cfg = \<lparr>kc_User = user, kc_PublicKeys = [key]\<rparr>" "t = s\<lparr>world := w\<rparr>"
    using assms g gr d rest b p k by (simp_all add: SSHConfigPubKeyFile_def)
  moreover have "if ka_IsEncryptedPEMBlock api b
     then \<exists>plain. ka_DecryptPEMBlock api b passphrase = Inr plain \<and> pem = ka_pem_EncodeToMemory api (ka_block_Type api b) plain
     else pem = buf"
    using p by (cases "ka_DecryptPEMBlock api b passphrase") (auto split: if_splits)
  ultimately show ?thesis using that[OF _ _ _ k] g gr d rest b by blast
qed

text \<open>An empty file gives no block and nothing left over: the function panics on it.\<close>

lemma SSHConfigPubKeyFile_empty:
  assumes "ka_ReadFile api file (world s) = (Inr [], w)" "ka_pem_Decode api [] = (None, [])"
  shows "\<exists>x. SSHConfigPubKeyFile api user file passphrase s = (Abort (Panic x), s\<lparr>world := w\<rparr>)"
  using assms by (simp add: SSHConfigPubKeyFile_def)

end
