(* ===== verification/Spec2Isabelle.thy ===== *)
theory Spec2Isabelle
  imports Manager Workflow Chunking Deepcopy Scheme_Registration Running_System Client_Helpers
begin

text \<open>
  A verification of the NETCONF operator of \<open>openshift-telco\<close>.

  The program. A Kubernetes operator in Go. Ten kinds of custom resources (\<open>api/v1\<close>) stand for
  NETCONF operations on network devices. \<open>main.go\<close> starts a manager with one controller for each
  kind (\<open>controllers\<close>). A controller's \<open>Reconcile\<close> reads the resource, validates it,
  performs its operation and writes the status. A \<open>MountPoint\<close> opens an SSH session to a device and
  puts it into the map \<open>Sessions\<close>; every other kind looks its session up there and sends requests
  on it through the client library (\<open>vendor/.../go-netconf-client\<close>), whose listener goroutine
  matches the replies to the requests by their message-id and hands notifications to the callbacks of the
  subscriptions. The reconciler base (\<open>vendor/.../operator-utils\<close>) writes the conditions of the
  status and asks the runtime to retry. The runtime (\<open>vendor/sigs.k8s.io/controller-runtime\<close>) feeds
  the requests for changed resources through a work queue
  (\<open>vendor/k8s.io/client-go/util/workqueue\<close>) to the workers of the controllers.

  How it is modelled. A Go function that changes state is a function of the type \<open>('s, 'a) go\<close>: it
  takes the state and gives the outcome and the state after it. The outcome is \<open>Ret\<close> with the
  returned values, or \<open>Abort\<close> for a panic, an exit of the process or a wait that never ends, so
  that every way out of the code is a value. Go's \<open>(value, error)\<close> results are pairs with an
  optional \<open>gerror\<close>. Pointers to sessions are references into a heap, since
  \<open>Sessions\<close>, the controllers and the listener share them. Integers of the resources are 32-bit
  words, durations 64-bit words. What is outside the repository (the API server, the SSH, Kafka and XML
  libraries, the random source, the clock) is the record \<open>env\<close>, a parameter of every definition,
  whose functions act on an abstract world \<open>'w\<close>; nothing is assumed of it except where a theorem
  says so. Goroutines interleave at the granularity of the model's steps: while a request waits for its reply
  the world delivers any list of reads to the listener first.

  The theories, in the order of the calls.

  \<^item> \<open>Prelude\<close>: the \<open>go\<close> type, its sequencing and the predicate
    \<open>keeps\<close> (an operation preserves an invariant however it ends) with its rules; Go's errors and
    string functions.
  \<^item> \<open>Api_Types\<close>: the resources and their status (\<open>api/v1/*\_types.go\<close>), keys of
    the session table.
  \<^item> \<open>Go_Memory\<close>, \<open>Deepcopy\<close>: the copy functions of
    \<open>api/v1/zz\_generated.deepcopy.go\<close>, and those of \<open>meta/v1\<close> that they call, over a
    memory of arrays, maps and pointer targets. The contract of a copy is the locale \<open>deep_copy\<close>;
    slices, pointers, maps, records, resources and lists get it from their parts, and each kind by an
    interpretation.
  \<^item> \<open>Wire_Types\<close>, \<open>Messages\<close>: the NETCONF messages and their constructors
    (\<open>netconf/message\<close>).
  \<^item> \<open>World\<close>: the operator's state (session table, heap of sessions, reply channels, trace of
    what leaves the process) and the parameters.
  \<^item> \<open>Framing\<close>, \<open>Chunking\<close>: \<open>netconf/transport.go\<close>, both framings,
    the search for the separator and the chunk decoder with its scanner, and the laws of sending and receiving.
  \<^item> \<open>Dispatcher\<close>, \<open>Transport_SSH\<close>, \<open>Netconf_Session\<close>:
    \<open>netconf/events.go\<close>, \<open>transport\_ssh.go\<close>, \<open>session.go\<close>,
    \<open>operations.go\<close>; the callback table is the locale \<open>callback_table\<close>.
  \<^item> \<open>Session_Laws\<close>: the locales \<open>quiet\<close>, \<open>stable\<close>,
    \<open>stable_send\<close>, a ladder of what an assertion has to tolerate to survive an operation of the
    session layer, interpreted for the session table, the trace of requests, the transports and the heap.
  \<^item> \<open>Rpc_Completion\<close>: when an RPC is answered: the listener puts a message together from the
    pieces its reads deliver and hands it to the caller; what a silent device and a lost connection lead to.
  \<^item> \<open>Example_World\<close>: a small concrete world for the witnesses.
  \<^item> \<open>Reply_Channels\<close>, \<open>Notification_Laws\<close>: the invariant of the reply channels,
    that a reply answers its request, that a device which answers is heard, that the listener never blocks, and
    what becomes of a notification.
  \<^item> \<open>Client_Helpers\<close>: what the client exports beside that: lines, strings, regular
    expressions, key files.
  \<^item> \<open>Reconciler_Base\<close>: finalizers, conditions, \<open>ManageError\<close> and
    \<open>ManageSuccess\<close>, the predicate of the watch and the runtime's decision to retry.
  \<^item> \<open>Common\<close>: \<open>controllers/common.go\<close>; the dependency check decides an abstract
    contract for the three kinds it accepts and refuses the others.
  \<^item> \<open>Reconcile_Frame\<close>, \<open>Finalizing_Frame\<close>: the two shapes of
    \<open>Reconcile\<close>, as functions of what differs between the controllers; the interface between them
    and a controller is a locale (\<open>rpc_controller\<close>, \<open>single_rpc\<close>,
    \<open>rpc_kind\<close>, \<open>finalizing_controller\<close>), interpreted for each controller.
  \<^item> \<open>Lock_Controller\<close>, \<open>Unlock_Controller\<close>, \<open>Commit_Controller\<close>,
    \<open>EditConfig_Controller\<close>, \<open>Get_Controller\<close>, \<open>GetConfig_Controller\<close>,
    \<open>RPC_Controller\<close>, \<open>CreateSubscription_Controller\<close>,
    \<open>MountPoint_Controller\<close>, \<open>EstablishSubscription_Controller\<close>: one theory for each
    file of \<open>controllers\<close>.
  \<^item> \<open>Workflow\<close>: how the status that one operation writes decides the dependency check of the
    next.
  \<^item> \<open>Operator\<close>: the ten controllers and the listeners together, as a step relation with
    restarts and changes of the world; its invariant is proved by rule induction.
  \<^item> \<open>Work_Queue\<close>: \<open>workqueue/queue.go\<close>; what the workers rely on is the locale
    \<open>work_queue\<close>.
  \<^item> \<open>Go_Heap\<close>: Go's \<open>container/heap\<close>, over the caller's
    \<open>heap.Interface\<close>, which is the locale \<open>heap_interface\<close>.
  \<^item> \<open>Delaying_Queue\<close>: \<open>workqueue/delaying\_queue.go\<close>,
    \<open>rate\_limiting\_queue.go\<close> and \<open>default\_rate\_limiters.go\<close>: the waiting loop with
    its heap of shared entries, and the back-off.
  \<^item> \<open>Controller_Runtime\<close>: a controller of \<open>controller-runtime\<close>: event handlers,
    workers and waiting loop as a step relation, with the condition variable on which workers sleep. Which
    results a reconciliation may return, if it returns, is a parameter of the relation; what is needed to serve
    a request is the locale \<open>scheduler\<close>, interpreted for a controller alone and for the running
    system.
  \<^item> \<open>Running_System\<close>: the ten controllers with their queues over the shared memory. A
    reconciliation runs in one step, which is an abstraction; one that blocks has no step, and its worker is
    stuck.
  \<^item> \<open>Scheme_Registration\<close>: the \<open>init\<close> functions of \<open>api/v1\<close> and of
    \<open>main.go\<close>, over the scheme of the API machinery (\<open>runtime/scheme.go\<close>,
    \<open>meta/v1/register.go\<close>) with the conversion functions that it registers and every panic of it.
  \<^item> \<open>Command_Line\<close>, \<open>Manager\<close>: the flags of \<open>main.go\<close> with the
    parser of Go's \<open>flag\<close> package, \<open>main\<close> itself, and the \<open>Add...\<close> and
    \<open>add...\<close> functions of the controllers.

  What is shown. In every reachable state the sessions in the table are live and the reply channels consistent,
  so that a valid operation always finds its session and no reply blocks the listener. A reply handed to an
  operation carries the operation's message-id, and a reply that the device does deliver, in any pieces that the
  receiver can handle, is handed over: an open session answers any number of requests, and from there a
  reconciliation completes, up to the status that is written. A device that stays silent makes the operator
  panic. The outcome of a lock decides exactly which dependents go ahead. Operations with a dependency are sent
  only when it is met; \<open>EditConfig\<close> sends its requests in the order lock, edit-config, commit,
  unlock and reports the data of the edit-config; each operation with a single request refines a one-line
  contract. The entry of a mount point in the session table is changed by nothing but its own reconciliation and
  a restart of the process. A \<open>MountPoint\<close> that reports \<open>connected\<close> has its session in
  the table, its cleanup closes and removes it, its finalizer is set before anything is done, which brings it
  back to the queue, and removed after; failed dials end as the code has it. Framing and unframing are inverse
  for every way the stream is cut that the receiver can handle, and the decoder equals concatenation; what
  follows a message in the same read is lost. Subscriptions deliver their notifications until they are cleaned
  up. The copies that the cache hands out are equal to the cached objects and share nothing with them, so that
  what a controller writes into its copy does not reach the cache. However the goroutines of the runtime
  interleave, no resource is reconciled by two workers at once, no wake-up and no request is lost, every request
  in line can be served as long as reconciliations return, a failed one is tried again after a bounded delay,
  and the heap of the waiting loop is a map from requests to times; a device that never says hello keeps the
  only worker of the mount points. The process registers every kind it has a controller for, each controller
  watches the kind its reconciler fetches, and the manager is configured by the command line.

  Bounds and termination. Loops are total functions: the chunk decoder, the scanner, the heap and the waiting
  loop have measures, the list of reads is finite, and no fuel is used. A chunk has at least one byte and fewer
  than \<open>2^31\<close>, the bound with which the code parses its size (\<open>chunk_ok\<close>), though the
  protocol allows \<open>2^32 - 1\<close>; the scanner's buffer of 16 bytes, which may grow to 32, is modelled
  and does not limit the size of a message. Timeouts are 32-bit words and the conversion to nanoseconds is shown
  not to wrap. The retry delay is at most a thousand seconds unless the token bucket is exhausted; times, and
  counts of failures, are unbounded numbers in the queues.

  What is not modelled. The Kubernetes client, the caches and leader election, the SSH, Kafka and XML libraries,
  the token bucket of the rate limiter: parameters. The metrics of the queue and of the controllers. In the
  resources that the controllers work on, the fields of \<open>ObjectMeta\<close> that the operator does not use
  (the deep copies have all of them). The bodies of the scheme's conversion functions, which starting the
  process registers and does not call. Log output, which no code reads, and the logger's configuration in
  \<open>main\<close>. Data races on the map \<open>Sessions\<close>, which ten goroutines use without a lock,
  and any other overlap of two reconciliations: a reconciliation is one step of the model, in which only the
  listeners interleave. When a reply and its timeout are ready at once, Go's \<open>select\<close> may take
  either; the model takes the reply. The deadlines and the keep-alive ticker of a timed SSH connection, which
  belong to the SSH parameter, and \<open>WaitForMessages\<close> of the client, which polls a table and is
  never called.
\<close>

end
